(* ===== verification/Prelude.thy ===== *)
theory Prelude
  imports Main "HOL-Library.Word" "HOL-Library.Product_Lexorder" "HOL-Library.Option_ord"
    "HOL-Library.List_Lexorder" "HOL-Library.Char_ord"
begin

text \<open>
  What the components share: the Go error values as one datatype, results as a sum whose left
  side is the error, Go's 64-bit integers as \<^typ>\<open>int\<close> with the wrap-around written
  out, the decimal formatting of \<^verbatim>\<open>fmt\<close>, JSON documents as trees, and rows of a
  database table as lists, together with the lemma collections the component proofs use.
\<close>

named_theorems result_simps \<open>case analysis of results\<close>
named_theorems int64_simps \<open>64-bit integers that do not wrap\<close>
named_theorems row_simps \<open>rows of a table after a statement\<close>

section \<open>Basic types\<close>

text \<open>
  A UUID is 16 bytes, compared bytewise: a 128-bit word. A time is a count of ticks since the
  zero time, so the zero time is 0. A duration is a Go \<^verbatim>\<open>int64\<close> of nanoseconds.
\<close>

type_synonym uuid = "128 word"
type_synonym time = int
type_synonym duration = int
type_synonym int64 = int

abbreviation uuid_Nil :: uuid where
  "uuid_Nil \<equiv> 0"

abbreviation time_IsZero :: "time \<Rightarrow> bool" where
  "time_IsZero t \<equiv> t = 0"

text \<open>
  The error values the packages declare. \<open>ErrNoRows\<close> is pgx's, \<open>PgError\<close> carries
  PostgreSQL's SQLSTATE and the constraint it names, \<open>ErrConnect\<close> is pgconn's connection error,
  \<open>ErrDeadlineExceeded\<close> and \<open>ErrCanceled\<close> are those of a context, and
  \<open>ErrExternal\<close> is any other error a dependency returns. An error that wraps a declared one is
  that declared error: callers classify with \<^verbatim>\<open>errors.Is\<close>.
\<close>

datatype error =
    ErrInvalidAmount | ErrInvalidCurrency | ErrCurrencyMismatch | ErrOverflow
  | ErrInvalidWallet | ErrInsufficientBalance
  | ErrInvalidTransaction | ErrInvalidTransition
  | ErrInvalidEntry | ErrInvalidBalance | ErrLedgerCurrencyMismatch
  | ErrInvalidCommand | ErrReferenceInvalid | ErrIdempotencyConflict | ErrReplayUnavailable
  | ErrInboxPayloadMismatch
  | ErrNoRows | PgError string string
  | ErrLedgerInconsistent | ErrOutboxClaimLost
  | ErrInvalidJSON
  | ErrWalletNotFound | ErrTransactionNotFound | ErrInvalidCursor | ErrInvalidLimit
  | ErrMalformedMessage | ErrUnsupportedMessageType
  | ErrInvalidToken | ErrVerifierUnavailable | ErrInvalidConfiguration
  | errInvalidRequest | errUnsupportedType | errOpeningNotAllowed | errUnauthenticated | errForbidden
  | errProviderIdentity | errWalletAlreadyExists | errDependencyUnavailable | errRouteNotFound
  | errMethodNotAllowed | errInvalidPersistedValue
  | ErrDeadlineExceeded | ErrCanceled | ErrConnect
  | ErrExternal string
  | Panic string

section \<open>Results\<close>

type_synonym 'a result = "error + 'a"

definition bindR :: "'e + 'a \<Rightarrow> ('a \<Rightarrow> 'e + 'b) \<Rightarrow> 'e + 'b" where
  "bindR m f = (case m of Inl e \<Rightarrow> Inl e | Inr a \<Rightarrow> f a)"

definition guardR :: "bool \<Rightarrow> 'e \<Rightarrow> 'e + unit" where
  "guardR b e = (if b then Inl e else Inr ())"

definition someR :: "'e \<Rightarrow> 'a option \<Rightarrow> 'e + 'a" where
  "someR e x = (case x of None \<Rightarrow> Inl e | Some a \<Rightarrow> Inr a)"

lemma bindR_simps [simp]:
  "bindR (Inl e) f = Inl e"
  "bindR (Inr a) f = f a"
  by (simp_all add: bindR_def)

lemma bindR_Inr_conv [result_simps]: "bindR m f = Inr b \<longleftrightarrow> (\<exists>a. m = Inr a \<and> f a = Inr b)"
  by (cases m) simp_all

lemma bindR_Inl_conv [result_simps]:
  "bindR m f = Inl e \<longleftrightarrow> m = Inl e \<or> (\<exists>a. m = Inr a \<and> f a = Inl e)"
  by (cases m) simp_all

lemma guardR_conv [result_simps]:
  "guardR b e = Inr u \<longleftrightarrow> \<not> b"
  "guardR b e = Inl e' \<longleftrightarrow> b \<and> e' = e"
  by (auto simp: guardR_def)

lemma guardR_simps [simp]:
  "guardR True e = Inl e"
  "guardR False e = Inr ()"
  by (simp_all add: guardR_def)

lemma someR_conv [result_simps]:
  "someR e x = Inr a \<longleftrightarrow> x = Some a"
  "someR e x = Inl e' \<longleftrightarrow> x = None \<and> e' = e"
  by (auto simp: someR_def split: option.splits)

lemma someR_simps [simp]:
  "someR e None = Inl e"
  "someR e (Some a) = Inr a"
  by (simp_all add: someR_def)

lemma bindR_cong [fundef_cong]:
  "m = m' \<Longrightarrow> (\<And>a. m' = Inr a \<Longrightarrow> f a = g a) \<Longrightarrow> bindR m f = bindR m' g"
  by (cases m') simp_all

section \<open>64-bit integers\<close>

definition max_int64 :: int where
  "max_int64 = 9223372036854775807"

definition min_int64 :: int where
  "min_int64 = - 9223372036854775808"

definition int64_ok :: "int \<Rightarrow> bool" where
  "int64_ok x \<longleftrightarrow> min_int64 \<le> x \<and> x \<le> max_int64"

text \<open>The value Go's \<^verbatim>\<open>int64\<close> arithmetic keeps of a mathematical result.\<close>

definition wrap64 :: "int \<Rightarrow> int" where
  "wrap64 x = (x + 9223372036854775808) mod 18446744073709551616 - 9223372036854775808"

text \<open>The value \<^verbatim>\<open>uint64\<close> arithmetic keeps.\<close>

definition wrapu64 :: "int \<Rightarrow> int" where
  "wrapu64 x = x mod 18446744073709551616"

text \<open>Go's division and remainder truncate towards zero.\<close>

definition go_quot :: "int \<Rightarrow> int \<Rightarrow> int" where
  "go_quot a b = sgn a * sgn b * (\<bar>a\<bar> div \<bar>b\<bar>)"

definition go_rem :: "int \<Rightarrow> int \<Rightarrow> int" where
  "go_rem a b = a - go_quot a b * b"

lemma wrap64_id [int64_simps]: "int64_ok x \<Longrightarrow> wrap64 x = x"
  by (simp add: wrap64_def int64_ok_def min_int64_def max_int64_def)

lemma wrap64_ok: "int64_ok (wrap64 x)"
  unfolding wrap64_def int64_ok_def min_int64_def max_int64_def
  using pos_mod_bound [of "18446744073709551616::int"] pos_mod_sign [of "18446744073709551616::int"]
  by (smt (verit))

lemma wrap64_eq_sint: "wrap64 x = sint (word_of_int x :: 64 word)"
  by (simp add: wrap64_def signed_of_int signed_take_bit_eq_take_bit_shift take_bit_eq_mod)

lemma wrapu64_eq_uint: "wrapu64 x = uint (word_of_int x :: 64 word)"
  by (simp add: wrapu64_def unsigned_of_int take_bit_eq_mod)

lemma wrapu64_id [int64_simps]: "0 \<le> x \<Longrightarrow> x < 18446744073709551616 \<Longrightarrow> wrapu64 x = x"
  by (simp add: wrapu64_def)

lemma go_quot_nonneg [int64_simps]: "0 \<le> a \<Longrightarrow> 0 < b \<Longrightarrow> go_quot a b = a div b"
  by (cases "a = 0") (simp_all add: go_quot_def)

lemma go_rem_nonneg [int64_simps]: "0 \<le> a \<Longrightarrow> 0 < b \<Longrightarrow> go_rem a b = a mod b"
  by (simp add: go_rem_def go_quot_nonneg minus_div_mult_eq_mod)

lemma go_rem_neg: "a < 0 \<Longrightarrow> 0 < b \<Longrightarrow> go_rem a b = - ((- a) mod b)"
  by (simp add: go_rem_def go_quot_def minus_mult_div_eq_mod [symmetric] algebra_simps)

lemmas int64_defs = int64_ok_def min_int64_def max_int64_def

section \<open>Decimal text\<close>

text \<open>\<^verbatim>\<open>fmt.Sprintf("%d", x)\<close> and \<^verbatim>\<open>fmt.Sprintf("%02d", x)\<close>.\<close>

definition digit_char :: "nat \<Rightarrow> char" where
  "digit_char d = char_of (48 + d)"

definition is_digit :: "char \<Rightarrow> bool" where
  "is_digit c \<longleftrightarrow> 48 \<le> (of_char c :: nat) \<and> (of_char c :: nat) \<le> 57"

definition digit_value :: "char \<Rightarrow> int" where
  "digit_value c = int (of_char c) - 48"

fun nat_digits :: "nat \<Rightarrow> string" where
  "nat_digits n = (if n < 10 then [digit_char n] else nat_digits (n div 10) @ [digit_char (n mod 10)])"

declare nat_digits.simps [simp del]

definition fmt_d :: "int \<Rightarrow> string" where
  "fmt_d x = (if x < 0 then ''-'' @ nat_digits (nat (- x)) else nat_digits (nat x))"

definition fmt_02d :: "int \<Rightarrow> string" where
  "fmt_02d x = (if length (fmt_d x) < 2 then ''0'' @ fmt_d x else fmt_d x)"

text \<open>The number a digit string denotes, read from an accumulator.\<close>

definition dec_value :: "int \<Rightarrow> string \<Rightarrow> int" where
  "dec_value acc s = foldl (\<lambda>a c. a * 10 + digit_value c) acc s"

text \<open>A numeral without a superfluous leading zero.\<close>

definition canonical_digits :: "string \<Rightarrow> bool" where
  "canonical_digits s \<longleftrightarrow> list_all is_digit s \<and> s \<noteq> [] \<and> (s = ''0'' \<or> hd s \<noteq> CHR ''0'')"

lemma dec_value_simps [simp]:
  "dec_value a [] = a"
  "dec_value a (c # s) = dec_value (a * 10 + digit_value c) s"
  by (simp_all add: dec_value_def)

lemma dec_value_append [simp]: "dec_value a (s @ t) = dec_value (dec_value a s) t"
  by (simp add: dec_value_def)

lemma is_digit_value: "is_digit c \<Longrightarrow> 0 \<le> digit_value c \<and> digit_value c \<le> 9 \<and> nat (digit_value c) < 10"
  by (auto simp: is_digit_def digit_value_def)

lemma digit_char_props:
  assumes "d < 10"
  shows "is_digit (digit_char d)" "digit_value (digit_char d) = int d"
  using assms by (simp_all add: is_digit_def digit_value_def digit_char_def)

lemma digit_char_value: "is_digit c \<Longrightarrow> digit_char (nat (digit_value c)) = c"
  by (simp add: is_digit_def digit_value_def digit_char_def nat_diff_distrib' flip: nat_int_add)

lemma digit_char_0: "digit_char 0 = CHR ''0''"
  unfolding digit_char_def by code_simp

lemma nat_digits_small: "n < 10 \<Longrightarrow> nat_digits n = [digit_char n]"
  by (simp add: nat_digits.simps)

lemma nat_digits_step: "0 < n \<Longrightarrow> d < 10 \<Longrightarrow> nat_digits (n * 10 + d) = nat_digits n @ [digit_char d]"
  by (subst nat_digits.simps) auto

lemma nat_digits_value: "dec_value 0 (nat_digits n) = int n"
proof (induction n rule: nat_digits.induct)
  case (1 n)
  then show ?case
    by (subst nat_digits.simps)
       (auto simp: digit_char_props zdiv_int zmod_int div_mult_mod_eq)
qed

lemma nat_digits_digits: "list_all is_digit (nat_digits n)"
proof (induction n rule: nat_digits.induct)
  case (1 n)
  then show ?case by (subst nat_digits.simps) (auto simp: digit_char_props)
qed

lemma nat_digits_not_Nil [simp]: "nat_digits n \<noteq> []"
  by (subst nat_digits.simps) simp

lemma hd_nat_digits: "0 < n \<Longrightarrow> hd (nat_digits n) \<noteq> CHR ''0''"
proof (induction n rule: nat_digits.induct)
  case (1 n)
  show ?case
  proof (cases "n < 10")
    case True
    have "digit_char n \<noteq> digit_char 0"
      using 1 True digit_char_props(2) [of n] digit_char_props(2) [of 0] by auto
    with True show ?thesis by (simp add: nat_digits_small digit_char_0)
  next
    case False
    with 1 show ?thesis by (subst nat_digits.simps) simp
  qed
qed

lemma canonical_nat_digits: "canonical_digits (nat_digits n)"
  using nat_digits_digits [of n] hd_nat_digits [of n]
  by (cases "n = 0") (auto simp: canonical_digits_def nat_digits_small digit_char_def)

lemma dec_value_mono: "list_all is_digit s \<Longrightarrow> 0 \<le> a \<Longrightarrow> a \<le> dec_value a s"
proof (induction s arbitrary: a)
  case (Cons c s)
  then have "0 \<le> digit_value c" by (simp add: is_digit_value)
  with Cons have "a * 10 + digit_value c \<le> dec_value a (c # s)" by simp
  with Cons.prems \<open>0 \<le> digit_value c\<close> show ?case by linarith
qed simp

lemma nat_digits_dec_value:
  "list_all is_digit s \<Longrightarrow> 0 < a \<Longrightarrow> nat_digits (nat (dec_value a s)) = nat_digits (nat a) @ s"
proof (induction s arbitrary: a)
  case (Cons c s)
  then have c: "is_digit c" and s: "list_all is_digit s" by simp_all
  note v = is_digit_value [OF c]
  have eq: "nat (a * 10 + digit_value c) = nat a * 10 + nat (digit_value c)"
    using v Cons.prems by (simp add: nat_add_distrib nat_mult_distrib)
  have "nat_digits (nat (dec_value a (c # s))) = nat_digits (nat (a * 10 + digit_value c)) @ s"
    using Cons.IH [OF s, of "a * 10 + digit_value c"] v Cons.prems by simp
  also have "nat_digits (nat (a * 10 + digit_value c)) = nat_digits (nat a) @ [c]"
    unfolding eq using nat_digits_step [of "nat a" "nat (digit_value c)"] v Cons.prems
    by (simp add: digit_char_value [OF c])
  finally show ?case by simp
qed simp

lemma nat_digits_canonical:
  assumes "canonical_digits s"
  shows "nat_digits (nat (dec_value 0 s)) = s"
proof (cases s)
  case Nil
  with assms show ?thesis by (simp add: canonical_digits_def)
next
  case (Cons c t)
  with assms have c: "is_digit c" and t: "list_all is_digit t" by (auto simp: canonical_digits_def)
  note v = is_digit_value [OF c]
  have one: "nat_digits (nat (digit_value c)) = [c]"
    using v by (simp add: nat_digits_small digit_char_value [OF c])
  show ?thesis
  proof (cases "digit_value c = 0")
    case True
    with digit_char_value [OF c] have "c = CHR ''0''" by (simp add: digit_char_0)
    with assms Cons have "t = []" by (auto simp: canonical_digits_def)
    with one Cons show ?thesis by simp
  next
    case False
    with v nat_digits_dec_value [OF t, of "digit_value c"] one Cons show ?thesis by simp
  qed
qed

section \<open>JSON documents\<close>

text \<open>
  A JSON document as \<^verbatim>\<open>encoding/json\<close> produces and reads it: an object is the list of
  its members, a number that is not written as an integer keeps its text (\<open>JNumber\<close>).
\<close>

datatype json = JNull | JBool bool | JInt int | JNumber string | JString string | JArray "json list"
  | JObject "(string \<times> json) list"

definition json_field :: "string \<Rightarrow> (string \<times> json) list \<Rightarrow> json option" where
  "json_field k ms = map_of ms k"

text \<open>Decoding a member into a Go string or integer: absent and null leave the zero value.\<close>

definition json_string :: "json option \<Rightarrow> string result" where
  "json_string v = (case v of None \<Rightarrow> Inr [] | Some JNull \<Rightarrow> Inr []
     | Some (JString s) \<Rightarrow> Inr s | _ \<Rightarrow> Inl ErrInvalidJSON)"

definition json_int64 :: "json option \<Rightarrow> int64 result" where
  "json_int64 v = (case v of None \<Rightarrow> Inr 0 | Some JNull \<Rightarrow> Inr 0
     | Some (JInt i) \<Rightarrow> if int64_ok i then Inr i else Inl ErrInvalidJSON | _ \<Rightarrow> Inl ErrInvalidJSON)"

section \<open>Rows of a table\<close>

text \<open>
  A table is the list of its rows in insertion order. \<open>update_where\<close> is SQL's
  \<^verbatim>\<open>UPDATE ... WHERE\<close>, \<open>min_by\<close> is \<^verbatim>\<open>ORDER BY ... LIMIT 1\<close>.
\<close>

definition update_where :: "('row \<Rightarrow> bool) \<Rightarrow> ('row \<Rightarrow> 'row) \<Rightarrow> 'row list \<Rightarrow> 'row list" where
  "update_where P f rows = map (\<lambda>r. if P r then f r else r) rows"

fun min_by :: "('row \<Rightarrow> 'k::linorder) \<Rightarrow> 'row list \<Rightarrow> 'row option" where
  "min_by key [] = None"
| "min_by key (r # rs) =
     (case min_by key rs of None \<Rightarrow> Some r | Some q \<Rightarrow> if key r \<le> key q then Some r else Some q)"

lemma min_by_None [simp]: "min_by key rs = None \<longleftrightarrow> rs = []"
  by (cases rs) (auto split: option.splits)

lemma min_by_Some: "min_by key rs = Some r \<Longrightarrow> r \<in> set rs \<and> (\<forall>q \<in> set rs. key r \<le> key q)"
proof (induction rs arbitrary: r)
  case (Cons a rs)
  show ?case
  proof (cases "min_by key rs")
    case None
    with Cons.prems show ?thesis by auto
  next
    case (Some q)
    with Cons.IH [OF Some] Cons.prems show ?thesis
      by (auto split: if_splits)
  qed
qed simp

lemma update_where_Nil [simp]: "update_where P f [] = []"
  by (simp add: update_where_def)

lemma set_update_where: "set (update_where P f rs) = (\<lambda>r. if P r then f r else r) ` set rs"
  by (simp add: update_where_def)

lemma length_update_where [simp]: "length (update_where P f rs) = length rs"
  by (simp add: update_where_def)

lemma map_update_where:
  "(\<And>r. P r \<Longrightarrow> g (f r) = g r) \<Longrightarrow> map g (update_where P f rs) = map g rs"
  by (simp add: update_where_def)

lemma filter_update_where:
  "(\<And>r. P r \<Longrightarrow> Q (f r) = Q r) \<Longrightarrow> filter Q (update_where P f rs) = update_where P f (filter Q rs)"
  by (induction rs) (auto simp: update_where_def)

lemma update_where_id: "(\<And>r. r \<in> set rs \<Longrightarrow> \<not> P r) \<Longrightarrow> update_where P f rs = rs"
  by (induction rs) (auto simp: update_where_def)

lemma find_append [row_simps]:
  "find P (xs @ ys) = (case find P xs of None \<Rightarrow> find P ys | Some x \<Rightarrow> Some x)"
  by (induction xs) auto

lemma find_update_where:
  "(\<And>r. P r \<Longrightarrow> Q (f r) = Q r) \<Longrightarrow>
   find Q (update_where P f rs) = map_option (\<lambda>r. if P r then f r else r) (find Q rs)"
  by (induction rs) (auto simp: update_where_def)

lemma find_SomeD: "find P rs = Some r \<Longrightarrow> r \<in> set rs \<and> P r"
  by (auto simp: find_Some_iff)

lemma find_Some_unique:
  assumes "r \<in> set rs" "P r" "\<And>q. q \<in> set rs \<Longrightarrow> P q \<Longrightarrow> q = r"
  shows "find P rs = Some r"
proof (cases "find P rs")
  case None
  with assms(1,2) show ?thesis by (auto simp: find_None_iff)
next
  case (Some q)
  with assms(3) show ?thesis by (auto dest: find_SomeD)
qed

lemma fresh_image: "k \<notin> f ` S \<longleftrightarrow> (\<forall>x \<in> S. f x \<noteq> k)"
  by (metis image_iff)

lemma find_distinct_key:
  "distinct (map key rs) \<Longrightarrow> r \<in> set rs \<Longrightarrow> find (\<lambda>q. key q = key r) rs = Some r"
  by (rule find_Some_unique) (simp_all add: distinct_map inj_on_def)

section \<open>Transition systems\<close>

text \<open>What a run reaches from the initial states, and the rule for invariants.\<close>

inductive reachable :: "('s \<Rightarrow> bool) \<Rightarrow> ('s \<Rightarrow> 's \<Rightarrow> bool) \<Rightarrow> 's \<Rightarrow> bool" for init step where
  reach_init: "init s \<Longrightarrow> reachable init step s"
| reach_step: "reachable init step s \<Longrightarrow> step s s' \<Longrightarrow> reachable init step s'"

locale invariant_system =
  fixes init :: "'s \<Rightarrow> bool"
    and step :: "'s \<Rightarrow> 's \<Rightarrow> bool"
    and inv :: "'s \<Rightarrow> bool"
  assumes init_inv: "init s \<Longrightarrow> inv s"
    and step_inv: "inv s \<Longrightarrow> step s s' \<Longrightarrow> inv s'"
begin

lemma reachable_inv: "reachable init step s \<Longrightarrow> inv s"
  by (induction rule: reachable.induct) (auto intro: init_inv step_inv)

lemma run_inv: "step\<^sup>*\<^sup>* s s' \<Longrightarrow> inv s \<Longrightarrow> inv s'"
  by (induction rule: rtranclp_induct) (auto intro: step_inv)

lemma reachable_run: "step\<^sup>*\<^sup>* s s' \<Longrightarrow> reachable init step s \<Longrightarrow> reachable init step s'"
  by (induction rule: rtranclp_induct) (auto intro: reach_step)

end

end
