(* ===== verification/Money.thy ===== *)
theory Money
  imports Prelude
begin

text \<open>
  The value object of \<^verbatim>\<open>internal/domain/money/money.go\<close>: an exact amount in
  the smallest currency unit. \<open>money_New\<close> is the parser with its overflow guards,
  \<open>money_Add\<close>, \<open>money_Sub\<close>, \<open>money_Negate\<close> and \<open>money_Compare\<close>
  the checked arithmetic, \<open>money_Amount\<close> the printer, and the last two definitions the JSON
  representation. The lemmas show that the parser accepts exactly the canonical decimal texts whose
  value fits an \<^verbatim>\<open>int64\<close>, that printing inverts it, and that the arithmetic is exact
  or reports an overflow.
\<close>

section \<open>Model\<close>

record Money =
  minor :: int64
  currency :: string

text \<open>The zero value \<^verbatim>\<open>Money{}\<close>.\<close>

definition zero_Money :: Money where
  "zero_Money = \<lparr>minor = 0, currency = []\<rparr>"

text \<open>The regular expressions \<^verbatim>\<open>^(0|[1-9][0-9]*)\.[0-9]{2}$\<close> and \<^verbatim>\<open>^[A-Z]{3}$\<close>.\<close>

definition amountPattern :: "string \<Rightarrow> bool" where
  "amountPattern s \<longleftrightarrow>
     (let whole = takeWhile is_digit s
      in (whole = ''0'' \<or> whole \<noteq> [] \<and> hd whole \<noteq> CHR ''0'') \<and>
         (case dropWhile is_digit s of
            [d, a, b] \<Rightarrow> d = CHR ''.'' \<and> is_digit a \<and> is_digit b
          | _ \<Rightarrow> False))"

definition currencyPattern :: "string \<Rightarrow> bool" where
  "currencyPattern s \<longleftrightarrow>
     length s = 3 \<and> list_all (\<lambda>c. 65 \<le> (of_char c :: nat) \<and> (of_char c :: nat) \<le> 90) s"

fun indexByte_from :: "int \<Rightarrow> string \<Rightarrow> char \<Rightarrow> int" where
  "indexByte_from i [] b = - 1"
| "indexByte_from i (c # s) b = (if c = b then i else indexByte_from (i + 1) s b)"

definition indexByte :: "string \<Rightarrow> char \<Rightarrow> int" where
  "indexByte s b = indexByte_from 0 s b"

text \<open>The loop over the digits of the whole part.\<close>

fun parse_whole :: "int64 \<Rightarrow> string \<Rightarrow> int64 result" where
  "parse_whole parsed [] = Inr parsed"
| "parse_whole parsed (c # s) =
     (if (of_char c :: nat) < 48 \<or> (of_char c :: nat) > 57
         \<or> parsed > go_quot (max_int64 - digit_value c) 10
      then Inl ErrOverflow
      else parse_whole (wrap64 (wrap64 (parsed * 10) + digit_value c)) s)"

definition money_New :: "string \<Rightarrow> string \<Rightarrow> Money result" where
  "money_New amount cur =
     (if \<not> currencyPattern cur then Inl ErrInvalidCurrency
      else if \<not> amountPattern amount then Inl ErrInvalidAmount
      else
        let dot = indexByte amount CHR ''.'';
            wholePart = (if dot \<ge> 0 then take (nat dot) amount else amount);
            fraction = (if dot \<ge> 0
                        then digit_value (amount ! nat (dot + 1)) * 10 + digit_value (amount ! nat (dot + 2))
                        else 0)
        in if wholePart = [] then Inl ErrInvalidAmount
           else bindR (parse_whole 0 wholePart) (\<lambda>parsed.
             if parsed > go_quot (max_int64 - fraction) 100 then Inl ErrOverflow
             else Inr \<lparr>minor = wrap64 (wrap64 (parsed * 100) + fraction), currency = cur\<rparr>))"

definition money_Zero :: "string \<Rightarrow> Money result" where
  "money_Zero cur = money_New ''0.00'' cur"

definition money_compatible :: "Money \<Rightarrow> Money \<Rightarrow> unit result" where
  "money_compatible m other =
     (if currency m = [] \<or> currency other = [] then Inl ErrInvalidCurrency
      else if currency m \<noteq> currency other then Inl ErrCurrencyMismatch
      else Inr ())"

definition money_Add :: "Money \<Rightarrow> Money \<Rightarrow> Money result" where
  "money_Add m other = bindR (money_compatible m other) (\<lambda>_.
     if (minor other > 0 \<and> minor m > wrap64 (max_int64 - minor other))
        \<or> (minor other < 0 \<and> minor m < wrap64 (min_int64 - minor other))
     then Inl ErrOverflow
     else Inr \<lparr>minor = wrap64 (minor m + minor other), currency = currency m\<rparr>)"

definition money_Sub :: "Money \<Rightarrow> Money \<Rightarrow> Money result" where
  "money_Sub m other = bindR (money_compatible m other) (\<lambda>_.
     if (minor other > 0 \<and> minor m < wrap64 (min_int64 + minor other))
        \<or> (minor other < 0 \<and> minor m > wrap64 (max_int64 + minor other))
     then Inl ErrOverflow
     else Inr \<lparr>minor = wrap64 (minor m - minor other), currency = currency m\<rparr>)"

definition money_Negate :: "Money \<Rightarrow> Money result" where
  "money_Negate m =
     (if minor m = min_int64 then Inl ErrOverflow
      else Inr \<lparr>minor = wrap64 (- minor m), currency = currency m\<rparr>)"

definition money_Compare :: "Money \<Rightarrow> Money \<Rightarrow> int result" where
  "money_Compare m other = bindR (money_compatible m other) (\<lambda>_.
     if minor m < minor other then Inr (- 1)
     else if minor m > minor other then Inr 1
     else Inr 0)"

text \<open>\<^verbatim>\<open>fmt.Sprintf("%d.%02d", minor/100, minor%100)\<close>.\<close>

definition fmt_minor :: "int64 \<Rightarrow> string" where
  "fmt_minor x = fmt_d (go_quot x 100) @ ''.'' @ fmt_02d (go_rem x 100)"

definition money_Amount :: "Money \<Rightarrow> string" where
  "money_Amount m =
     (if minor m < 0 then
        if minor m = min_int64 then ''-92233720368547758.08''
        else ''-'' @ fmt_minor (wrap64 (- minor m))
      else fmt_minor (minor m))"

definition money_String :: "Money \<Rightarrow> string" where
  "money_String m = money_Amount m @ '' '' @ currency m"

definition money_MarshalJSON :: "Money \<Rightarrow> json" where
  "money_MarshalJSON m =
     JObject [(''amount'', JString (money_Amount m)), (''currency'', JString (currency m))]"

definition money_UnmarshalJSON :: "json \<Rightarrow> Money result" where
  "money_UnmarshalJSON data =
     (case data of
        JNull \<Rightarrow> money_New [] []
      | JObject ms \<Rightarrow>
          (case (json_string (json_field ''amount'' ms), json_string (json_field ''currency'' ms)) of
             (Inr a, Inr c) \<Rightarrow> money_New a c
           | _ \<Rightarrow> Inl ErrInvalidAmount)
      | _ \<Rightarrow> Inl ErrInvalidAmount)"

section \<open>Specification\<close>

text \<open>The amount in minor units that a decimal text denotes.\<close>

definition amount_value :: "string \<Rightarrow> int" where
  "amount_value s = dec_value 0 (filter (\<lambda>c. c \<noteq> CHR ''.'') s)"

text \<open>
  The values other packages can hold: the fields are private, so a value is \<^verbatim>\<open>Money{}\<close>
  or has passed the currency check and fits its field.
\<close>

definition money_wf :: "Money \<Rightarrow> bool" where
  "money_wf m \<longleftrightarrow> m = zero_Money \<or> currencyPattern (currency m) \<and> int64_ok (minor m)"

definition money_valid :: "Money \<Rightarrow> bool" where
  "money_valid m \<longleftrightarrow> currencyPattern (currency m) \<and> 0 \<le> minor m \<and> minor m \<le> max_int64"

section \<open>Lemmas\<close>

lemma currencyPattern_not_Nil [simp]: "\<not> currencyPattern []"
  by (simp add: currencyPattern_def)

lemma money_validD:
  assumes "money_valid m"
  shows "currency m \<noteq> []" "0 \<le> minor m" "int64_ok (minor m)" "currencyPattern (currency m)"
  using assms by (auto simp: money_valid_def int64_defs)

lemma money_wf_valid: "money_wf m \<Longrightarrow> currency m \<noteq> [] \<Longrightarrow> 0 \<le> minor m \<Longrightarrow> money_valid m"
  by (auto simp: money_wf_def money_valid_def zero_Money_def int64_defs)

lemma amountPattern_conv:
  "amountPattern s \<longleftrightarrow>
     (\<exists>w a b. s = w @ [CHR ''.'', a, b] \<and> canonical_digits w \<and> is_digit a \<and> is_digit b)"
proof
  assume p: "amountPattern s"
  let ?w = "takeWhile is_digit s"
  from p obtain a b where d: "dropWhile is_digit s = [CHR ''.'', a, b]" "is_digit a" "is_digit b"
    by (auto simp: amountPattern_def Let_def split: list.splits)
  have "s = ?w @ [CHR ''.'', a, b]" using takeWhile_dropWhile_id [of is_digit s] d(1) by simp
  moreover have "canonical_digits ?w"
    using p by (auto simp: amountPattern_def canonical_digits_def Let_def list_all_iff dest: set_takeWhileD)
  ultimately show "\<exists>w a b. s = w @ [CHR ''.'', a, b] \<and> canonical_digits w \<and> is_digit a \<and> is_digit b"
    using d by blast
next
  assume "\<exists>w a b. s = w @ [CHR ''.'', a, b] \<and> canonical_digits w \<and> is_digit a \<and> is_digit b"
  then obtain w a b where s: "s = w @ [CHR ''.'', a, b]" "canonical_digits w" "is_digit a" "is_digit b"
    by blast
  have "\<not> is_digit (CHR ''.'')" by (simp add: is_digit_def)
  with s have "takeWhile is_digit s = w" "dropWhile is_digit s = [CHR ''.'', a, b]"
    by (auto simp: canonical_digits_def list_all_iff takeWhile_append dropWhile_append)
  with s show "amountPattern s" by (auto simp: amountPattern_def canonical_digits_def)
qed

lemma indexByte_from_append:
  "b \<notin> set w \<Longrightarrow> indexByte_from i (w @ b # s) b = i + int (length w)"
  by (induction w arbitrary: i) auto

lemma parse_whole_spec:
  assumes "list_all is_digit s" "0 \<le> p" "p \<le> max_int64"
  shows "parse_whole p s = (if dec_value p s \<le> max_int64 then Inr (dec_value p s) else Inl ErrOverflow)"
  using assms
proof (induction s arbitrary: p)
  case (Cons c s)
  then have c: "is_digit c" and s: "list_all is_digit s" by simp_all
  note v = is_digit_value [OF c]
  let ?q = "p * 10 + digit_value c"
  have quot: "go_quot (max_int64 - digit_value c) 10 = (max_int64 - digit_value c) div 10"
    using v by (simp add: go_quot_nonneg max_int64_def)
  show ?case
  proof (cases "?q \<le> max_int64")
    case True
    with Cons.prems v have "wrap64 (wrap64 (p * 10) + digit_value c) = ?q"
      by (simp add: wrap64_id int64_defs)
    moreover from True have "\<not> p > (max_int64 - digit_value c) div 10" by linarith
    ultimately show ?thesis
      using Cons.IH [OF s, of ?q] True Cons.prems c v by (auto simp: quot is_digit_def)
  next
    case False
    then have "p > (max_int64 - digit_value c) div 10" by linarith
    moreover have "dec_value ?q s > max_int64"
      using dec_value_mono [OF s, of ?q] False Cons.prems v by simp
    ultimately show ?thesis by (simp add: quot)
  qed
qed simp

lemma digit_not_dot: "is_digit c \<Longrightarrow> c \<noteq> CHR ''.''"
  by (auto simp: is_digit_def)

lemma money_New_split:
  assumes "currencyPattern c" "canonical_digits w" "is_digit a" "is_digit b"
  defines "v \<equiv> dec_value 0 (w @ [a, b])"
  shows "money_New (w @ [CHR ''.'', a, b]) c =
     (if v \<le> max_int64 then Inr \<lparr>minor = v, currency = c\<rparr> else Inl ErrOverflow)"
proof -
  have w: "list_all is_digit w" "w \<noteq> []" using assms(2) by (auto simp: canonical_digits_def)
  have "CHR ''.'' \<notin> set w" using w(1) digit_not_dot by (auto simp: list_all_iff)
  then have dot: "indexByte (w @ [CHR ''.'', a, b]) CHR ''.'' = int (length w)"
    by (simp add: indexByte_def indexByte_from_append)
  let ?W = "dec_value 0 w" and ?f = "digit_value a * 10 + digit_value b"
  have f: "0 \<le> ?f" "?f \<le> 99" using is_digit_value [OF assms(3)] is_digit_value [OF assms(4)] by auto
  have W: "0 \<le> ?W" using dec_value_mono [OF w(1), of 0] by simp
  have v: "v = ?W * 100 + ?f" by (simp add: v_def)
  have quot: "go_quot (max_int64 - ?f) 100 = (max_int64 - ?f) div 100"
    using f by (simp add: go_quot_nonneg max_int64_def)
  have pat: "amountPattern (w @ [CHR ''.'', a, b])" using assms(2-4) by (auto simp: amountPattern_conv)
  have idx: "nat (int (length w) + 1) = length w + 1" "nat (int (length w) + 2) = length w + 2"
    by arith+
  have sub: "(w @ [CHR ''.'', a, b]) ! nat (int (length w) + 1) = a"
    "(w @ [CHR ''.'', a, b]) ! nat (int (length w) + 2) = b"
    unfolding idx by (simp_all only: nth_append_length_plus nth_Cons_numeral) simp_all
  have "money_New (w @ [CHR ''.'', a, b]) c =
     bindR (parse_whole 0 w) (\<lambda>parsed.
       if parsed > (max_int64 - ?f) div 100 then Inl ErrOverflow
       else Inr \<lparr>minor = wrap64 (wrap64 (parsed * 100) + ?f), currency = c\<rparr>)"
    using assms(1) pat w(2) by (simp add: money_New_def dot sub quot Let_def cong: if_cong)
  also have "\<dots> = (if v \<le> max_int64 then Inr \<lparr>minor = v, currency = c\<rparr> else Inl ErrOverflow)"
  proof (cases "v \<le> max_int64")
    case True
    with v f W have "?W \<le> max_int64" "\<not> ?W > (max_int64 - ?f) div 100" by linarith+
    moreover have "wrap64 (wrap64 (?W * 100) + ?f) = v"
      using True v f W by (simp add: wrap64_id int64_defs)
    ultimately show ?thesis using True by (simp add: parse_whole_spec [OF w(1)] max_int64_def)
  next
    case False
    with v f W have "?W > (max_int64 - ?f) div 100" by linarith
    with False show ?thesis by (simp add: parse_whole_spec [OF w(1)] max_int64_def)
  qed
  finally show ?thesis .
qed

lemma amount_value_split:
  "list_all is_digit w \<Longrightarrow> is_digit a \<Longrightarrow> is_digit b \<Longrightarrow>
   amount_value (w @ [CHR ''.'', a, b]) = dec_value 0 (w @ [a, b])"
  by (simp add: amount_value_def list_all_iff digit_not_dot filter_True)

lemma money_New_spec:
  "money_New s c =
     (if \<not> currencyPattern c then Inl ErrInvalidCurrency
      else if \<not> amountPattern s then Inl ErrInvalidAmount
      else if amount_value s > max_int64 then Inl ErrOverflow
      else Inr \<lparr>minor = amount_value s, currency = c\<rparr>)"
proof (cases "currencyPattern c \<and> amountPattern s")
  case True
  then obtain w a b where "s = w @ [CHR ''.'', a, b]" "canonical_digits w" "is_digit a" "is_digit b"
    by (auto simp: amountPattern_conv)
  with True show ?thesis
    by (auto simp: money_New_split amount_value_split canonical_digits_def)
next
  case False
  then show ?thesis by (auto simp: money_New_def)
qed

subsection \<open>Printing\<close>

lemma fmt_02d_small:
  assumes "0 \<le> x" "x < 100"
  shows "fmt_02d x = [digit_char (nat (x div 10)), digit_char (nat (x mod 10))]"
proof (cases "x < 10")
  case True
  with assms show ?thesis
    by (simp add: fmt_02d_def fmt_d_def nat_digits_small digit_char_0)
next
  case False
  then have "nat_digits (nat x) = nat_digits (nat x div 10) @ [digit_char (nat x mod 10)]"
    by (subst nat_digits.simps) auto
  moreover from assms have "nat x div 10 < 10" by (simp add: nat_less_iff less_mult_imp_div_less)
  ultimately show ?thesis
    using assms False by (simp add: fmt_02d_def fmt_d_def nat_digits_small nat_div_distrib nat_mod_distrib)
qed

lemma fmt_minor_nonneg:
  assumes "0 \<le> x"
  shows "fmt_minor x = nat_digits (nat (x div 100)) @
    [CHR ''.'', digit_char (nat (x mod 100 div 10)), digit_char (nat (x mod 100 mod 10))]"
  using assms fmt_02d_small [of "x mod 100"]
  by (simp add: fmt_minor_def go_quot_nonneg go_rem_nonneg fmt_d_def pos_imp_zdiv_neg_iff)

lemma money_New_fmt_minor:
  assumes "currencyPattern c" "0 \<le> x"
  shows "money_New (fmt_minor x) c =
    (if x \<le> max_int64 then Inr \<lparr>minor = x, currency = c\<rparr> else Inl ErrOverflow)"
proof -
  have d: "nat (x mod 100 div 10) < 10" "nat (x mod 100 mod 10) < 10" using assms(2) by auto
  note dp = digit_char_props [OF d(1)] digit_char_props [OF d(2)]
  have eq: "dec_value 0 (nat_digits (nat (x div 100)) @
      [digit_char (nat (x mod 100 div 10)), digit_char (nat (x mod 100 mod 10))]) = x"
    using assms(2) by (simp add: nat_digits_value dp pos_imp_zdiv_nonneg_iff)
  show ?thesis
    using money_New_split [OF assms(1) canonical_nat_digits dp(1,3), of "nat (x div 100)"]
    unfolding eq fmt_minor_nonneg [OF assms(2)] .
qed

lemma amountPattern_no_minus: "amountPattern s \<Longrightarrow> CHR ''-'' \<notin> set s"
proof -
  have "\<not> is_digit CHR ''-''" by (simp add: is_digit_def)
  then show "amountPattern s \<Longrightarrow> CHR ''-'' \<notin> set s"
    by (auto simp: amountPattern_conv canonical_digits_def list_all_iff)
qed

lemma fmt_minor_negative: "x < 0 \<Longrightarrow> CHR ''-'' \<in> set (fmt_minor x)"
proof -
  assume x: "x < 0"
  have "go_quot x 100 < 0 \<or> go_rem x 100 < 0"
  proof (rule ccontr)
    assume "\<not> ?thesis"
    then have "0 \<le> go_quot x 100 * 100 + go_rem x 100" by simp
    with x show False by (simp add: go_rem_def)
  qed
  then show ?thesis by (auto simp: fmt_minor_def fmt_d_def fmt_02d_def)
qed

text \<open>What \<^verbatim>\<open>moneyFromMinor\<close> and \<^verbatim>\<open>wireMoney\<close> compute from a stored amount.\<close>

lemma money_of_minor:
  "money_New (fmt_minor x) c =
     (if \<not> currencyPattern c then Inl ErrInvalidCurrency
      else if x < 0 then Inl ErrInvalidAmount
      else if x > max_int64 then Inl ErrOverflow
      else Inr \<lparr>minor = x, currency = c\<rparr>)"
proof (cases "currencyPattern c \<and> 0 \<le> x")
  case True
  then show ?thesis by (simp add: money_New_fmt_minor)
next
  case False
  then show ?thesis
    using fmt_minor_negative [of x] amountPattern_no_minus [of "fmt_minor x"]
    by (auto simp: money_New_spec)
qed

lemma money_Amount_valid: "money_valid m \<Longrightarrow> money_Amount m = fmt_minor (minor m)"
  by (simp add: money_Amount_def money_valid_def)

lemma money_New_Amount: "money_valid m \<Longrightarrow> money_New (money_Amount m) (currency m) = Inr m"
  by (simp add: money_Amount_valid money_of_minor money_valid_def)

lemma minor_parts:
  fixes w a b :: int
  assumes "0 \<le> a" "a \<le> 9" "0 \<le> b" "b \<le> 9"
  shows "(w * 100 + (a * 10 + b)) div 100 = w"
    "(w * 100 + (a * 10 + b)) mod 100 div 10 = a"
    "(w * 100 + (a * 10 + b)) mod 100 mod 10 = b"
proof -
  from assms have m: "(w * 100 + (a * 10 + b)) mod 100 = a * 10 + b" by simp
  from assms show "(w * 100 + (a * 10 + b)) div 100 = w" by simp
  from assms show "(w * 100 + (a * 10 + b)) mod 100 div 10 = a" unfolding m by simp
  from assms show "(w * 100 + (a * 10 + b)) mod 100 mod 10 = b" unfolding m by simp
qed

lemma money_Amount_New:
  assumes "money_New s c = Inr m"
  shows "money_valid m" "money_Amount m = s" "currency m = c"
proof -
  from assms have c: "currencyPattern c" "amountPattern s" "amount_value s \<le> max_int64"
    and m: "m = \<lparr>minor = amount_value s, currency = c\<rparr>"
    by (auto simp: money_New_spec split: if_splits)
  from c(2) obtain w a b where s: "s = w @ [CHR ''.'', a, b]" "canonical_digits w" "is_digit a" "is_digit b"
    by (auto simp: amountPattern_conv)
  then have w: "list_all is_digit w" by (simp add: canonical_digits_def)
  let ?W = "dec_value 0 w"
  have W: "0 \<le> ?W" using dec_value_mono [OF w, of 0] by simp
  have v: "amount_value s = ?W * 100 + (digit_value a * 10 + digit_value b)"
    using s w by (simp add: amount_value_split)
  note da = is_digit_value [OF s(3)] and db = is_digit_value [OF s(4)]
  from v W da db have nonneg: "0 \<le> amount_value s" by simp
  with c m show "money_valid m" by (simp add: money_valid_def)
  have parts: "amount_value s div 100 = ?W" "amount_value s mod 100 div 10 = digit_value a"
    "amount_value s mod 100 mod 10 = digit_value b"
    unfolding v using minor_parts da db by blast+
  have "money_Amount m = fmt_minor (amount_value s)" using nonneg m by (simp add: money_Amount_def)
  also have "\<dots> = w @ [CHR ''.'', a, b]"
    unfolding fmt_minor_nonneg [OF nonneg] parts
    by (simp only: nat_digits_canonical [OF s(2)] digit_char_value [OF s(3)] digit_char_value [OF s(4)])
  finally show "money_Amount m = s" using s(1) by simp
  from m show "currency m = c" by simp
qed

lemma money_json_roundtrip: "money_valid m \<Longrightarrow> money_UnmarshalJSON (money_MarshalJSON m) = Inr m"
  by (simp add: money_UnmarshalJSON_def money_MarshalJSON_def json_field_def json_string_def money_New_Amount)

lemma money_Zero_eq: "currencyPattern c \<Longrightarrow> money_Zero c = Inr \<lparr>minor = 0, currency = c\<rparr>"
proof -
  assume c: "currencyPattern c"
  have "fmt_minor 0 = ''0.00''"
    by (simp add: fmt_minor_nonneg nat_digits_small digit_char_0)
  with money_of_minor [of 0 c] c show ?thesis by (simp add: money_Zero_def max_int64_def)
qed

subsection \<open>Arithmetic\<close>

lemma money_compatible_Inr [result_simps]:
  "money_compatible m n = Inr u \<longleftrightarrow> currency m \<noteq> [] \<and> currency m = currency n"
  by (auto simp: money_compatible_def)

lemma money_compatible_same: "currency m \<noteq> [] \<Longrightarrow> currency m = currency n \<Longrightarrow> money_compatible m n = Inr ()"
  by (auto simp: money_compatible_def)

lemma money_Add_spec:
  assumes "int64_ok (minor m)" "int64_ok (minor n)"
  shows "money_Add m n = bindR (money_compatible m n) (\<lambda>_.
    if int64_ok (minor m + minor n) then Inr \<lparr>minor = minor m + minor n, currency = currency m\<rparr>
    else Inl ErrOverflow)"
  using assms
  by (cases "money_compatible m n") (auto simp: money_Add_def wrap64_id int64_defs)

lemma money_Sub_spec:
  assumes "int64_ok (minor m)" "int64_ok (minor n)"
  shows "money_Sub m n = bindR (money_compatible m n) (\<lambda>_.
    if int64_ok (minor m - minor n) then Inr \<lparr>minor = minor m - minor n, currency = currency m\<rparr>
    else Inl ErrOverflow)"
  using assms
  by (cases "money_compatible m n") (auto simp: money_Sub_def wrap64_id int64_defs)

lemma money_Negate_spec:
  assumes "int64_ok (minor m)"
  shows "money_Negate m =
    (if int64_ok (- minor m) then Inr \<lparr>minor = - minor m, currency = currency m\<rparr> else Inl ErrOverflow)"
  using assms by (auto simp: money_Negate_def wrap64_id int64_defs)

section \<open>Properties\<close>

text \<open>C38: \<^verbatim>\<open>money.New\<close> and \<^verbatim>\<open>Money.Amount\<close> are inverse to each
  other: a text and a currency parse to \<open>m\<close> exactly when \<open>m\<close> is a valid non-negative amount, the
  text is what \<^verbatim>\<open>Amount\<close> prints for it and the currency is its own. In particular
  no accepted text is rounded and no value has two accepted texts.\<close>

theorem money_parse_print:
  "money_New s c = Inr m \<longleftrightarrow> money_valid m \<and> s = money_Amount m \<and> c = currency m"
  using money_Amount_New money_New_Amount by blast

text \<open>The guards of \<^verbatim>\<open>money.New\<close> are exact: a malformed currency or text is
  reported as such, a well-formed text whose value exceeds the largest \<^verbatim>\<open>int64\<close> as an
  overflow, and every other text yields its value, although the code multiplies and adds with
  wrap-around.\<close>

theorem money_parse_overflow_exact:
  "money_New s c =
     (if \<not> currencyPattern c then Inl ErrInvalidCurrency
      else if \<not> amountPattern s then Inl ErrInvalidAmount
      else if amount_value s > max_int64 then Inl ErrOverflow
      else Inr \<lparr>minor = amount_value s, currency = c\<rparr>)"
  by (rule money_New_spec)

text \<open>Addition, subtraction and negation of \<^verbatim>\<open>int64\<close> amounts are exact: they
  return the mathematical result when it fits, and report an overflow exactly when it does not; no
  result is wrapped.\<close>

theorem money_arithmetic_exact:
  assumes "int64_ok (minor m)" "int64_ok (minor n)" "currency m = currency n" "currency m \<noteq> []"
  shows "money_Add m n = (if int64_ok (minor m + minor n)
      then Inr \<lparr>minor = minor m + minor n, currency = currency m\<rparr> else Inl ErrOverflow)
    \<and> money_Sub m n = (if int64_ok (minor m - minor n)
      then Inr \<lparr>minor = minor m - minor n, currency = currency m\<rparr> else Inl ErrOverflow)
    \<and> money_Negate m = (if int64_ok (- minor m)
      then Inr \<lparr>minor = - minor m, currency = currency m\<rparr> else Inl ErrOverflow)"
  using assms by (simp add: money_Add_spec money_Sub_spec money_Negate_spec money_compatible_same)

theorem money_arithmetic_exact_witness:
  "money_Add \<lparr>minor = 9223372036854775807, currency = ''BRL''\<rparr> \<lparr>minor = 1, currency = ''BRL''\<rparr> = Inl ErrOverflow
   \<and> money_Sub \<lparr>minor = 9223372036854775807, currency = ''BRL''\<rparr> \<lparr>minor = 1, currency = ''BRL''\<rparr>
     = Inr \<lparr>minor = 9223372036854775806, currency = ''BRL''\<rparr>"
  using money_arithmetic_exact [of "\<lparr>minor = 9223372036854775807, currency = ''BRL''\<rparr>"
      "\<lparr>minor = 1, currency = ''BRL''\<rparr>"]
  by (simp add: int64_defs)

end
