(* ===== verification/Wager.thy ===== *)
theory Wager
  imports Money
begin

text \<open>
  The transaction entity of \<^verbatim>\<open>internal/domain/wager/wager.go\<close>: its type and state
  enumerations (Go string types, so a value outside the declared constants is possible and kept as
  \<open>OtherType\<close> and \<open>OtherState\<close>), the two constructors and the state machine.
\<close>

section \<open>Model\<close>

datatype Type = Opening | Bet | Win | Loss | Refund | Rollback | OtherType string

datatype State = Pending | Processed | Rejected | Failed | PendingReference | OtherState string

record Transaction =
  tx_id :: string
  tx_externalID :: string
  tx_providerID :: string
  tx_walletID :: string
  tx_typ :: Type
  tx_amount :: Money
  tx_state :: State

fun Type_string :: "Type \<Rightarrow> string" where
  "Type_string Opening = ''OPENING''"
| "Type_string Bet = ''BET''"
| "Type_string Win = ''WIN''"
| "Type_string Loss = ''LOSS''"
| "Type_string Refund = ''REFUND''"
| "Type_string Rollback = ''ROLLBACK''"
| "Type_string (OtherType s) = s"

definition Type_of_string :: "string \<Rightarrow> Type" where
  "Type_of_string s =
     (if s = ''OPENING'' then Opening else if s = ''BET'' then Bet else if s = ''WIN'' then Win
      else if s = ''LOSS'' then Loss else if s = ''REFUND'' then Refund
      else if s = ''ROLLBACK'' then Rollback else OtherType s)"

fun State_string :: "State \<Rightarrow> string" where
  "State_string Pending = ''PENDING''"
| "State_string Processed = ''PROCESSED''"
| "State_string Rejected = ''REJECTED''"
| "State_string Failed = ''FAILED''"
| "State_string PendingReference = ''PENDING_REFERENCE''"
| "State_string (OtherState s) = s"

definition State_of_string :: "string \<Rightarrow> State" where
  "State_of_string s =
     (if s = ''PENDING'' then Pending else if s = ''PROCESSED'' then Processed
      else if s = ''REJECTED'' then Rejected else if s = ''FAILED'' then Failed
      else if s = ''PENDING_REFERENCE'' then PendingReference else OtherState s)"

definition validExternalType :: "Type \<Rightarrow> bool" where
  "validExternalType typ =
     (case typ of Bet \<Rightarrow> True | Win \<Rightarrow> True | Loss \<Rightarrow> True | Refund \<Rightarrow> True | Rollback \<Rightarrow> True | _ \<Rightarrow> False)"

definition validAmount :: "Type \<Rightarrow> Money \<Rightarrow> bool" where
  "validAmount typ amount =
     (if currency amount = [] \<or> minor amount < 0 then False
      else if typ = Loss then minor amount = 0
      else minor amount > 0)"

definition wager_New :: "string \<Rightarrow> string \<Rightarrow> string \<Rightarrow> string \<Rightarrow> Type \<Rightarrow> Money \<Rightarrow> Transaction result" where
  "wager_New i externalID providerID walletID typ amount =
     (if i = [] \<or> externalID = [] \<or> providerID = [] \<or> walletID = [] \<or> \<not> validExternalType typ
         \<or> \<not> validAmount typ amount
      then Inl ErrInvalidTransaction
      else Inr \<lparr>tx_id = i, tx_externalID = externalID, tx_providerID = providerID, tx_walletID = walletID,
                tx_typ = typ, tx_amount = amount, tx_state = Pending\<rparr>)"

definition wager_NewOpening :: "string \<Rightarrow> string \<Rightarrow> Money \<Rightarrow> Transaction result" where
  "wager_NewOpening i walletID amount =
     (if i = [] \<or> walletID = [] \<or> minor amount \<le> 0 \<or> currency amount = []
      then Inl ErrInvalidTransaction
      else Inr \<lparr>tx_id = i, tx_externalID = i, tx_providerID = ''internal'', tx_walletID = walletID,
                tx_typ = Opening, tx_amount = amount, tx_state = Pending\<rparr>)"

definition wager_Transition :: "Transaction \<Rightarrow> State \<Rightarrow> Transaction result" where
  "wager_Transition t next =
     (if tx_state t = Pending \<and> next \<in> {Processed, Rejected, Failed, PendingReference}
      then Inr (t\<lparr>tx_state := next\<rparr>)
      else if tx_state t = PendingReference \<and> (next = Processed \<or> next = Rejected)
      then Inr (t\<lparr>tx_state := next\<rparr>)
      else Inl ErrInvalidTransition)"

section \<open>The state machine\<close>

inductive transition_step :: "Transaction \<Rightarrow> Transaction \<Rightarrow> bool" where
  "wager_Transition t next = Inr t' \<Longrightarrow> transition_step t t'"

inductive_cases transition_stepE: "transition_step t t'"

text \<open>A run of successful transitions, with the states it enters.\<close>

fun run_transitions :: "Transaction \<Rightarrow> State list \<Rightarrow> Transaction result" where
  "run_transitions t [] = Inr t"
| "run_transitions t (s # ss) = bindR (wager_Transition t s) (\<lambda>t'. run_transitions t' ss)"

definition terminal :: "State \<Rightarrow> bool" where
  "terminal s \<longleftrightarrow> s = Processed \<or> s = Rejected \<or> s = Failed"

section \<open>Lemmas\<close>

lemma wager_New_Inr [result_simps]:
  "wager_New i e p w typ a = Inr t \<longleftrightarrow>
     i \<noteq> [] \<and> e \<noteq> [] \<and> p \<noteq> [] \<and> w \<noteq> [] \<and> validExternalType typ \<and> validAmount typ a \<and>
     t = \<lparr>tx_id = i, tx_externalID = e, tx_providerID = p, tx_walletID = w, tx_typ = typ,
          tx_amount = a, tx_state = Pending\<rparr>"
  by (auto simp: wager_New_def)

lemma wager_Transition_Inr [result_simps]:
  "wager_Transition t s = Inr t' \<longleftrightarrow> t' = t\<lparr>tx_state := s\<rparr> \<and>
     (tx_state t = Pending \<and> s \<in> {Processed, Rejected, Failed, PendingReference}
      \<or> tx_state t = PendingReference \<and> s \<in> {Processed, Rejected})"
  by (auto simp: wager_Transition_def)

lemma transition_step_conv: "transition_step t t' \<longleftrightarrow> (\<exists>s. wager_Transition t s = Inr t')"
  by (auto elim: transition_stepE intro: transition_step.intros)

lemma terminal_no_step: "terminal (tx_state t) \<Longrightarrow> \<not> transition_step t t'"
  by (auto simp: transition_step_conv wager_Transition_def terminal_def)

lemma run_terminal: "terminal (tx_state t) \<Longrightarrow> run_transitions t ss = Inr t' \<Longrightarrow> ss = []"
  by (cases ss) (auto simp: result_simps terminal_def)

lemma run_pending_reference:
  assumes "tx_state t = PendingReference" "run_transitions t ss = Inr t'"
  shows "ss = [] \<or> ss = [Processed] \<or> ss = [Rejected]"
proof (cases ss)
  case (Cons s rest)
  with assms have s: "s = Processed \<or> s = Rejected" and r: "run_transitions (t\<lparr>tx_state := s\<rparr>) rest = Inr t'"
    by (auto simp: result_simps)
  from s have "rest = []" by (intro run_terminal [OF _ r]) (auto simp: terminal_def)
  with s Cons show ?thesis by auto
qed simp

lemma validExternalType_iff: "validExternalType k \<longleftrightarrow> k \<in> {Bet, Win, Loss, Refund, Rollback}"
  by (cases k) (auto simp: validExternalType_def)

lemma validAmount_iff:
  "validAmount typ a \<longleftrightarrow> currency a \<noteq> [] \<and> (if typ = Loss then minor a = 0 else 0 < minor a)"
  by (auto simp: validAmount_def)

lemma Type_roundtrip: "(\<And>s. t \<noteq> OtherType s) \<Longrightarrow> Type_of_string (Type_string t) = t"
  by (cases t) (auto simp: Type_of_string_def)

lemma State_roundtrip: "(\<And>x. s \<noteq> OtherState x) \<Longrightarrow> State_of_string (State_string s) = s"
  by (cases s) (auto simp: State_of_string_def)

section \<open>Properties\<close>

text \<open>The life of a transaction: from its creation in PENDING the successful transitions are
  exactly one of the terminal states, or PENDING_REFERENCE optionally followed by PROCESSED or
  REJECTED; nothing leaves a terminal state and PENDING_REFERENCE never becomes FAILED.\<close>

theorem transaction_lifecycle:
  assumes "tx_state t = Pending"
  shows "(\<exists>t'. run_transitions t ss = Inr t') \<longleftrightarrow>
    ss \<in> {[], [Processed], [Rejected], [Failed], [PendingReference],
          [PendingReference, Processed], [PendingReference, Rejected]}"
proof
  assume "\<exists>t'. run_transitions t ss = Inr t'"
  then obtain t' where r: "run_transitions t ss = Inr t'" ..
  show "ss \<in> {[], [Processed], [Rejected], [Failed], [PendingReference],
          [PendingReference, Processed], [PendingReference, Rejected]}"
  proof (cases ss)
    case (Cons s rest)
    with r assms have s: "s \<in> {Processed, Rejected, Failed, PendingReference}"
      and q: "run_transitions (t\<lparr>tx_state := s\<rparr>) rest = Inr t'"
      by (auto simp: result_simps)
    show ?thesis
    proof (cases "s = PendingReference")
      case True
      with run_pending_reference [OF _ q] Cons show ?thesis by auto
    next
      case False
      with s run_terminal [OF _ q] Cons show ?thesis by (auto simp: terminal_def)
    qed
  qed simp
qed (use assms in \<open>auto simp: wager_Transition_def\<close>)

theorem transaction_lifecycle_witness:
  "\<not> (\<exists>t'. run_transitions \<lparr>tx_id = ''t'', tx_externalID = ''e'', tx_providerID = ''p'', tx_walletID = ''w'',
      tx_typ = Bet, tx_amount = \<lparr>minor = 1, currency = ''BRL''\<rparr>, tx_state = Pending\<rparr> [Processed, Rejected] = Inr t')"
  using transaction_lifecycle [of "\<lparr>tx_id = ''t'', tx_externalID = ''e'', tx_providerID = ''p'', tx_walletID = ''w'',
      tx_typ = Bet, tx_amount = \<lparr>minor = 1, currency = ''BRL''\<rparr>, tx_state = Pending\<rparr>" "[Processed, Rejected]"]
  by simp

end
