(* ===== verification/Utf8.thy ===== *)
theory Utf8
  imports Prelude
begin

text \<open>
  Texts as bytes. \<open>rune_width\<close> is the length of the well-formed UTF-8 sequence a text begins with, or 0,
  by the table of the Unicode standard that Go's \<^verbatim>\<open>unicode/utf8\<close> and PostgreSQL share: no
  overlong form, no surrogate, nothing beyond U+10FFFF. \<^verbatim>\<open>encoding/json\<close> writes every byte that
  does not belong to such a sequence as U+FFFD (\<open>to_valid_utf8\<close>); PostgreSQL refuses a text that has one,
  or a byte 0 (\<open>text_ok\<close>).
\<close>

section \<open>Definitions\<close>

definition byte :: "char \<Rightarrow> int" where
  "byte c = of_char c"

definition continuation :: "char \<Rightarrow> bool" where
  "continuation c \<longleftrightarrow> 0x80 \<le> byte c \<and> byte c \<le> 0xBF"

text \<open>Which second byte may follow the first byte of a sequence.\<close>

definition second_ok :: "char \<Rightarrow> char \<Rightarrow> bool" where
  "second_ok a b \<longleftrightarrow> continuation b \<and> (byte a = 0xE0 \<longrightarrow> 0xA0 \<le> byte b) \<and> (byte a = 0xED \<longrightarrow> byte b \<le> 0x9F)
     \<and> (byte a = 0xF0 \<longrightarrow> 0x90 \<le> byte b) \<and> (byte a = 0xF4 \<longrightarrow> byte b \<le> 0x8F)"

fun rune_width :: "string \<Rightarrow> nat" where
  "rune_width [] = 0"
| "rune_width (a # s) =
     (if byte a < 0x80 then 1
      else if 0xC2 \<le> byte a \<and> byte a \<le> 0xDF then (case s of b # _ \<Rightarrow> if second_ok a b then 2 else 0 | _ \<Rightarrow> 0)
      else if 0xE0 \<le> byte a \<and> byte a \<le> 0xEF then
        (case s of b # c # _ \<Rightarrow> if second_ok a b \<and> continuation c then 3 else 0 | _ \<Rightarrow> 0)
      else if 0xF0 \<le> byte a \<and> byte a \<le> 0xF4 then
        (case s of b # c # d # _ \<Rightarrow> if second_ok a b \<and> continuation c \<and> continuation d then 4 else 0 | _ \<Rightarrow> 0)
      else 0)"

declare rune_width.simps(2) [simp del]

definition replacement :: string where
  "replacement = [CHR 0xEF, CHR 0xBF, CHR 0xBD]"

fun to_valid_utf8 :: "string \<Rightarrow> string" where
  "to_valid_utf8 [] = []"
| "to_valid_utf8 (a # s) =
     (let n = rune_width (a # s)
      in if n = 0 then replacement @ to_valid_utf8 s else a # take (n - 1) s @ to_valid_utf8 (drop (n - 1) s))"

fun utf8_valid :: "string \<Rightarrow> bool" where
  "utf8_valid [] = True"
| "utf8_valid (a # s) = (let n = rune_width (a # s) in n \<noteq> 0 \<and> utf8_valid (drop (n - 1) s))"

definition text_ok :: "string \<Rightarrow> bool" where
  "text_ok s \<longleftrightarrow> utf8_valid s \<and> CHR 0x00 \<notin> set s"

section \<open>Lemmas\<close>

lemma byte_nat: "byte c = int (of_char c)"
  by (simp add: byte_def of_nat_of_char)

text \<open>Go leaves a text alone exactly when it is valid.\<close>

lemma to_valid_id: "utf8_valid s \<Longrightarrow> to_valid_utf8 s = s"
  by (induction s rule: utf8_valid.induct) (simp_all add: Let_def)

lemma to_valid_fixed: "to_valid_utf8 s = s \<longleftrightarrow> utf8_valid s"
proof
  show "utf8_valid s" if "to_valid_utf8 s = s"
    using that
  proof (induction s rule: utf8_valid.induct)
    case (2 a s)
    have "rune_width (a # s) \<noteq> 0"
    proof
      assume z: "rune_width (a # s) = 0"
      with 2(2) have "replacement @ to_valid_utf8 s = a # s" by simp
      then have "a = CHR 0xEF" "s = CHR 0xBF # CHR 0xBD # to_valid_utf8 s" by (simp_all add: replacement_def)
      then obtain r where "a = CHR 0xEF" "s = CHR 0xBF # CHR 0xBD # r" by blast
      with z show False by (simp add: rune_width.simps(2) byte_def second_ok_def continuation_def)
    qed
    moreover from this 2(2) have "take (rune_width (a # s) - 1) s @ to_valid_utf8 (drop (rune_width (a # s) - 1) s) = s"
      by (simp add: Let_def)
    then have "to_valid_utf8 (drop (rune_width (a # s) - 1) s) = drop (rune_width (a # s) - 1) s"
      by (metis append_take_drop_id same_append_eq)
    ultimately show ?case using 2(1) [OF refl] by (simp add: Let_def)
  qed simp
qed (rule to_valid_id)

lemma to_valid_eq_Nil [simp]: "to_valid_utf8 s = [] \<longleftrightarrow> s = []" "[] = to_valid_utf8 s \<longleftrightarrow> s = []"
  by (cases s; simp add: Let_def replacement_def)+

text \<open>An ASCII byte ends whatever sequence precedes it.\<close>

lemma rune_width_ascii: "byte c < 0x80 \<Longrightarrow> rune_width (a # p @ c # x) = rune_width (a # p)"
  by (auto simp: rune_width.simps(2) second_ok_def continuation_def split: list.split)

lemma rune_width_le: "rune_width (a # s) - 1 \<le> length s"
  by (auto simp: rune_width.simps(2) split: list.split)

lemma utf8_append_ascii: "byte c < 0x80 \<Longrightarrow> utf8_valid (p @ c # x) \<longleftrightarrow> utf8_valid p \<and> utf8_valid x"
proof (induction p rule: utf8_valid.induct)
  case (2 a p)
  then show ?case
    using rune_width_le [of a p] by (simp add: Let_def rune_width_ascii)
qed (simp add: rune_width.simps(2))

lemma utf8_ascii: "list_all (\<lambda>c. byte c < 0x80) s \<Longrightarrow> utf8_valid s"
  by (induction s) (simp_all add: rune_width.simps(2))

lemma text_ok_ascii: "list_all (\<lambda>c. 0 < byte c \<and> byte c < 0x80) s \<Longrightarrow> text_ok s"
  using utf8_ascii [of s] by (auto simp: text_ok_def list_all_iff byte_def)

lemma text_ok_Nil [simp]: "text_ok []"
  by (simp add: text_ok_def)

lemma text_ok_append_ascii: "0 < byte c \<Longrightarrow> byte c < 0x80 \<Longrightarrow> text_ok (p @ c # x) \<longleftrightarrow> text_ok p \<and> text_ok x"
  by (auto simp: text_ok_def utf8_append_ascii byte_def)

declare to_valid_utf8.simps(2) [simp del] utf8_valid.simps(2) [simp del]

lemma text_ok_valid: "text_ok s \<Longrightarrow> to_valid_utf8 s = s"
  by (simp add: text_ok_def to_valid_id)

end
