(* ===== verification/Idempotency.thy ===== *)
theory Idempotency
  imports Money Wager Utf8
begin

text \<open>
  Commands and results of \<^verbatim>\<open>internal/application/financial\<close> with the codecs of
  \<^verbatim>\<open>idempotency.go\<close>: the canonical business payload that is hashed into the identity of a
  command, and the persisted form of a result that a replay reads back. The UUID package and SHA-256
  are parameters, collected in \<open>externals\<close>; \<open>externals_ok\<close> is what they document.
\<close>

section \<open>Code outside the repository\<close>

text \<open>
  \<open>uuid_String\<close> and \<open>uuid_Parse\<close> are \<^verbatim>\<open>google/uuid\<close>'s text form,
  \<open>sha256_hex\<close> the hexadecimal SHA-256 digest of the bytes \<^verbatim>\<open>encoding/json\<close>
  writes for a document, \<open>time_Format\<close> and \<open>time_Parse\<close> the RFC 3339 text of an instant,
  which is exact for the years 0 to 9999 (\<open>year_ok\<close>, in nanoseconds from Go's zero time), and
  \<open>json_Encode\<close> and \<open>json_Decode\<close> the text of a document, of which the round trip of a
  cursor is required, whose text is not empty. The texts of identifiers and digests are plain characters.
  \<open>index_fits\<close> is PostgreSQL's rule whether an index entry of two texts fits a third of an 8 kB page (2704
  bytes), possibly after compression: 2600 bytes of text always do.
\<close>

record externals =
  uuid_String :: "uuid \<Rightarrow> string"
  uuid_Parse :: "string \<Rightarrow> uuid option"
  sha256_hex :: "json \<Rightarrow> string"
  time_Format :: "time \<Rightarrow> string"
  time_Parse :: "string \<Rightarrow> time option"
  json_Encode :: "json \<Rightarrow> string"
  json_Decode :: "string \<Rightarrow> json option"
  index_fits :: "string \<Rightarrow> string \<Rightarrow> bool"

definition year_ok :: "time \<Rightarrow> bool" where
  "year_ok t \<longleftrightarrow> - 31622400000000000 \<le> t \<and> t < 315537897600000000000"

definition externals_ok :: "externals \<Rightarrow> bool" where
  "externals_ok E \<longleftrightarrow> (\<forall>u. uuid_Parse E (uuid_String E u) = Some u) \<and> (\<forall>u. uuid_String E u \<noteq> [])
     \<and> (\<forall>u. text_ok (uuid_String E u)) \<and> (\<forall>j. sha256_hex E j \<noteq> [] \<and> text_ok (sha256_hex E j))
     \<and> (\<forall>a b. length a + length b \<le> 2600 \<longrightarrow> index_fits E a b) \<and> (\<forall>t. year_ok t \<longrightarrow> time_Parse E (time_Format E t) = Some t)
     \<and> (\<forall>t u. let j = JObject [(''ts'', JString (time_Format E t)), (''id'', JString (uuid_String E u))]
        in json_Encode E j \<noteq> [] \<and> json_Decode E (json_Encode E j) = Some j)"

section \<open>Model\<close>

record Command =
  C_ID :: uuid
  C_WalletID :: uuid
  C_ExternalID :: string
  C_ProviderID :: string
  C_PlayerID :: string
  C_GameID :: string
  C_RoundID :: string
  C_IdempotencyKey :: string
  C_PayloadHash :: string
  C_ReferenceExternalID :: string
  C_Type :: Type
  C_Amount :: Money

record Result =
  R_TransactionID :: uuid
  R_State :: State
  R_Balance :: int64
  R_Amount :: Money
  R_FailureCode :: string

text \<open>A string as \<^verbatim>\<open>json.Marshal\<close> writes it, and \<^verbatim>\<open>json:"...,omitempty"\<close> on a string
  field. Texts that are ASCII by construction (identifiers, declared constants, amounts) are written as they
  are.\<close>

definition json_text :: "string \<Rightarrow> json" where
  "json_text v = JString (to_valid_utf8 v)"

definition omitempty :: "string \<Rightarrow> string \<Rightarrow> (string \<times> json) list" where
  "omitempty k v = (if v = [] then [] else [(k, json_text v)])"

definition canonicalPayload :: "externals \<Rightarrow> Command \<Rightarrow> json" where
  "canonicalPayload E cmd = JObject (
     [(''externalId'', json_text (C_ExternalID cmd)),
      (''providerId'', json_text (C_ProviderID cmd)),
      (''walletId'', JString (uuid_String E (C_WalletID cmd))),
      (''playerId'', json_text (C_PlayerID cmd)),
      (''gameId'', json_text (C_GameID cmd)),
      (''roundId'', json_text (C_RoundID cmd))] @
     omitempty ''referenceExternalId'' (C_ReferenceExternalID cmd) @
     [(''type'', json_text (Type_string (C_Type cmd))),
      (''amount'', money_MarshalJSON (C_Amount cmd))])"

definition canonicalPayloadHash :: "externals \<Rightarrow> Command \<Rightarrow> string result" where
  "canonicalPayloadHash E cmd = Inr (sha256_hex E (canonicalPayload E cmd))"

definition marshalResult :: "externals \<Rightarrow> Result \<Rightarrow> json" where
  "marshalResult E r = JObject (
     [(''transactionId'', JString (uuid_String E (R_TransactionID r))),
      (''state'', json_text (State_string (R_State r))),
      (''balance'', JInt (R_Balance r)),
      (''amount'', money_MarshalJSON (R_Amount r))] @
     omitempty ''failureCode'' (R_FailureCode r))"

text \<open>Decoding a member into a UUID (a text unmarshaler, which a null does not reach) or into an amount.\<close>

definition json_uuid :: "externals \<Rightarrow> json option \<Rightarrow> uuid result" where
  "json_uuid E v = (case v of None \<Rightarrow> Inr uuid_Nil | Some JNull \<Rightarrow> Inr uuid_Nil
     | Some (JString s) \<Rightarrow> someR ErrInvalidJSON (uuid_Parse E s) | _ \<Rightarrow> Inl ErrInvalidJSON)"

definition json_money :: "json option \<Rightarrow> Money result" where
  "json_money v = (case v of None \<Rightarrow> Inr zero_Money | Some j \<Rightarrow> money_UnmarshalJSON j)"

definition unmarshalResult :: "externals \<Rightarrow> json \<Rightarrow> Result result" where
  "unmarshalResult E data =
     (case data of
        JObject ms \<Rightarrow>
          bindR (json_uuid E (json_field ''transactionId'' ms)) (\<lambda>i.
          bindR (json_string (json_field ''state'' ms)) (\<lambda>st.
          bindR (json_int64 (json_field ''balance'' ms)) (\<lambda>balance.
          bindR (json_money (json_field ''amount'' ms)) (\<lambda>amount.
          bindR (json_string (json_field ''failureCode'' ms)) (\<lambda>failure.
            Inr \<lparr>R_TransactionID = i, R_State = State_of_string st, R_Balance = balance, R_Amount = amount,
                 R_FailureCode = failure\<rparr>)))))
      | JNull \<Rightarrow> Inr \<lparr>R_TransactionID = uuid_Nil, R_State = State_of_string [], R_Balance = 0,
                      R_Amount = zero_Money, R_FailureCode = []\<rparr>
      | _ \<Rightarrow> Inl ErrInvalidJSON)"

section \<open>Specification\<close>

text \<open>The fields that make two commands the same business request.\<close>

definition business_fields ::
  "Command \<Rightarrow> string \<times> string \<times> uuid \<times> string \<times> string \<times> string \<times> string \<times> Type \<times> Money" where
  "business_fields cmd = (C_ExternalID cmd, C_ProviderID cmd, C_WalletID cmd, C_PlayerID cmd, C_GameID cmd,
     C_RoundID cmd, C_ReferenceExternalID cmd, C_Type cmd, C_Amount cmd)"

definition payload_fields ::
  "(string \<Rightarrow> string) \<Rightarrow> Command \<Rightarrow> string \<times> string \<times> uuid \<times> string \<times> string \<times> string \<times> string \<times> Type \<times> Money" where
  "payload_fields f cmd = (f (C_ExternalID cmd), f (C_ProviderID cmd), C_WalletID cmd, f (C_PlayerID cmd), f (C_GameID cmd),
     f (C_RoundID cmd), f (C_ReferenceExternalID cmd), C_Type cmd, C_Amount cmd)"

definition payload_texts :: "Command \<Rightarrow> string list" where
  "payload_texts cmd = [C_ExternalID cmd, C_ProviderID cmd, C_PlayerID cmd, C_GameID cmd, C_RoundID cmd, C_ReferenceExternalID cmd]"

definition declared_type :: "Type \<Rightarrow> bool" where
  "declared_type k = (case k of OtherType _ \<Rightarrow> False | _ \<Rightarrow> True)"

definition declared_state :: "State \<Rightarrow> bool" where
  "declared_state s = (case s of OtherState _ \<Rightarrow> False | _ \<Rightarrow> True)"

definition result_wf :: "Result \<Rightarrow> bool" where
  "result_wf r \<longleftrightarrow> declared_state (R_State r) \<and> int64_ok (R_Balance r) \<and> money_valid (R_Amount r)"

section \<open>Lemmas\<close>

lemma externals_okD:
  assumes "externals_ok E"
  shows "uuid_Parse E (uuid_String E u) = Some u" "uuid_String E u \<noteq> []" "sha256_hex E j \<noteq> []"
    "year_ok t \<Longrightarrow> time_Parse E (time_Format E t) = Some t"
    "json_Encode E (JObject [(''ts'', JString (time_Format E t)), (''id'', JString (uuid_String E u))]) \<noteq> []"
    "json_Decode E (json_Encode E (JObject [(''ts'', JString (time_Format E t)), (''id'', JString (uuid_String E u))])) =
       Some (JObject [(''ts'', JString (time_Format E t)), (''id'', JString (uuid_String E u))])"
    "text_ok (uuid_String E u)" "text_ok (sha256_hex E j)" "length a + length b \<le> 2600 \<Longrightarrow> index_fits E a b"
  using assms by (auto simp: externals_ok_def Let_def)

lemma uuid_String_inj: "externals_ok E \<Longrightarrow> uuid_String E u = uuid_String E v \<longleftrightarrow> u = v"
  by (metis externals_okD(1) option.inject)

lemma declared_ascii:
  "declared_type k \<Longrightarrow> to_valid_utf8 (Type_string k) = Type_string k"
  "declared_state st \<Longrightarrow> to_valid_utf8 (State_string st) = State_string st"
proof -
  assume "declared_type k"
  then show "to_valid_utf8 (Type_string k) = Type_string k"
    by (intro to_valid_id utf8_ascii) (cases k; simp add: declared_type_def byte_def)
next
  assume "declared_state st"
  then show "to_valid_utf8 (State_string st) = State_string st"
    by (intro to_valid_id utf8_ascii) (cases st; simp add: declared_state_def byte_def)
qed

lemma Type_string_inj: "declared_type a \<Longrightarrow> declared_type b \<Longrightarrow> Type_string a = Type_string b \<longleftrightarrow> a = b"
  by (cases a; cases b) (simp_all add: declared_type_def)

lemma money_Marshal_inj: "money_valid a \<Longrightarrow> money_valid b \<Longrightarrow> money_MarshalJSON a = money_MarshalJSON b \<longleftrightarrow> a = b"
  by (metis money_json_roundtrip sum.inject(2))

lemma result_roundtrip:
  assumes "externals_ok E" "result_wf r"
  shows "unmarshalResult E (marshalResult E r) = Inr (r\<lparr>R_FailureCode := to_valid_utf8 (R_FailureCode r)\<rparr>)"
proof -
  have "State_of_string (State_string (R_State r)) = R_State r"
    using assms(2) by (intro State_roundtrip) (auto simp: result_wf_def declared_state_def)
  with assms show ?thesis
    by (simp add: unmarshalResult_def marshalResult_def omitempty_def json_text_def json_field_def json_uuid_def json_string_def
        json_int64_def json_money_def externals_okD money_json_roundtrip result_wf_def declared_ascii)
qed

lemma canonicalPayload_eq:
  assumes "externals_ok E" "declared_type (C_Type a)" "declared_type (C_Type b)"
    "money_valid (C_Amount a)" "money_valid (C_Amount b)"
  shows "canonicalPayload E a = canonicalPayload E b \<longleftrightarrow> payload_fields to_valid_utf8 a = payload_fields to_valid_utf8 b"
  using assms
  by (auto simp: canonicalPayload_def payload_fields_def omitempty_def json_text_def uuid_String_inj Type_string_inj
      money_Marshal_inj declared_ascii)

lemma payload_fields_valid:
  assumes "list_all utf8_valid (payload_texts cmd)"
  shows "payload_fields to_valid_utf8 cmd = business_fields cmd"
  using assms by (simp add: payload_texts_def payload_fields_def business_fields_def to_valid_id)

text \<open>
  A concrete instance of the external code: decimal UUIDs and times, a constant digest, and a text for
  cursors in which the length of the first member comes first.
\<close>

definition example_encode :: "json \<Rightarrow> string" where
  "example_encode j = (case j of JObject [(_, JString a), (_, JString b)] \<Rightarrow> replicate (length a) CHR ''.'' @ '' '' @ a @ b | _ \<Rightarrow> [])"

definition example_decode :: "string \<Rightarrow> json option" where
  "example_decode s = (let n = length (takeWhile (\<lambda>c. c = CHR ''.'') s); rest = drop (n + 1) s
     in if s = [] then None else Some (JObject [(''ts'', JString (take n rest)), (''id'', JString (drop n rest))]))"

definition example_externals :: externals where
  "example_externals = \<lparr>uuid_String = (\<lambda>u. fmt_d (uint u)),
     uuid_Parse = (\<lambda>s. Some (word_of_int (dec_value 0 s))), sha256_hex = (\<lambda>_. ''digest''),
     time_Format = (\<lambda>t. nat_digits (nat (t + 31622400000000000))),
     time_Parse = (\<lambda>s. Some (dec_value 0 s - 31622400000000000)),
     json_Encode = example_encode, json_Decode = example_decode,
     index_fits = (\<lambda>a b. int (length a) + int (length b) \<le> 2600)\<rparr>"

lemma example_cursor:
  "example_encode (JObject [(''ts'', JString a), (''id'', JString b)]) \<noteq> []"
  "example_decode (example_encode (JObject [(''ts'', JString a), (''id'', JString b)])) =
     Some (JObject [(''ts'', JString a), (''id'', JString b)])"
proof -
  have "takeWhile (\<lambda>c. c = CHR ''.'') (replicate n CHR ''.'' @ CHR '' '' # xs) = replicate n CHR ''.''" for n xs
    by (induction n) simp_all
  then show "example_decode (example_encode (JObject [(''ts'', JString a), (''id'', JString b)])) =
      Some (JObject [(''ts'', JString a), (''id'', JString b)])"
    by (simp add: example_decode_def example_encode_def Let_def)
  show "example_encode (JObject [(''ts'', JString a), (''id'', JString b)]) \<noteq> []" by (simp add: example_encode_def)
qed

lemma digits_text_ok: "text_ok (nat_digits n)"
proof (induction n rule: nat_digits.induct)
  case (1 n)
  have d: "k < 10 \<Longrightarrow> 0 < byte (digit_char k) \<and> byte (digit_char k) < 0x80" for k by (simp add: byte_nat digit_char_def)
  show ?case
  proof (cases "n < 10")
    case True
    with d [of n] text_ok_append_ascii [of "digit_char n" "[]" "[]"] show ?thesis by (simp add: nat_digits_small)
  next
    case False
    with 1 d [of "n mod 10"] text_ok_append_ascii [of "digit_char (n mod 10)" "nat_digits (n div 10)" "[]"] show ?thesis
      by (subst nat_digits.simps) simp
  qed
qed

lemma example_externals_ok: "externals_ok example_externals"
proof -
  have "fmt_d (uint u) = nat_digits (nat (uint u))" for u :: uuid
    by (simp add: fmt_d_def)
  moreover have "text_ok ''digest''" by (rule text_ok_ascii) (simp add: byte_def)
  ultimately show ?thesis
    by (simp add: externals_ok_def example_externals_def nat_digits_value year_ok_def example_cursor digits_text_ok)
qed

section \<open>Properties\<close>

text \<open>C36: A persisted result reads back as the result that was stored, for every declared state and
  every valid amount; only the bytes of a failure code that are not UTF-8 come back as U+FFFD, and the codes
  the service declares have none.\<close>

theorem persisted_result_roundtrip:
  assumes "externals_ok E" "result_wf r"
  shows "unmarshalResult E (marshalResult E r) = Inr (r\<lparr>R_FailureCode := to_valid_utf8 (R_FailureCode r)\<rparr>)
    \<and> (utf8_valid (R_FailureCode r) \<longrightarrow> unmarshalResult E (marshalResult E r) = Inr r)"
  using result_roundtrip [OF assms] by (simp add: to_valid_id)

theorem persisted_result_roundtrip_witness:
  "unmarshalResult example_externals (marshalResult example_externals \<lparr>R_TransactionID = 9, R_State = Rejected,
     R_Balance = 30, R_Amount = \<lparr>minor = 50, currency = ''BRL''\<rparr>, R_FailureCode = ''INSUFFICIENT_BALANCE''\<rparr>) =
   Inr \<lparr>R_TransactionID = 9, R_State = Rejected, R_Balance = 30, R_Amount = \<lparr>minor = 50, currency = ''BRL''\<rparr>,
     R_FailureCode = ''INSUFFICIENT_BALANCE''\<rparr>"
proof -
  have "utf8_valid ''INSUFFICIENT_BALANCE''" by (rule utf8_ascii) (simp add: byte_def)
  with persisted_result_roundtrip [OF example_externals_ok, of "\<lparr>R_TransactionID = 9, R_State = Rejected,
     R_Balance = 30, R_Amount = \<lparr>minor = 50, currency = ''BRL''\<rparr>, R_FailureCode = ''INSUFFICIENT_BALANCE''\<rparr>"]
  show ?thesis by (simp add: to_valid_id result_wf_def declared_state_def int64_defs money_valid_def currencyPattern_def)
qed

text \<open>C37: Two commands have the same canonical payload exactly when their business fields agree as JSON
  carries them: every field counts, an absent reference included, and nothing else (not the command
  identifier, the idempotency key or a hash supplied by the caller), but bytes that are not UTF-8 are all
  written as U+FFFD. For texts in UTF-8 the payload is the same exactly when the requests are.\<close>

theorem canonical_payload_identifies_request:
  assumes "externals_ok E" "declared_type (C_Type a)" "declared_type (C_Type b)"
    "money_valid (C_Amount a)" "money_valid (C_Amount b)"
  shows "(canonicalPayload E a = canonicalPayload E b \<longleftrightarrow> payload_fields to_valid_utf8 a = payload_fields to_valid_utf8 b)
    \<and> (list_all utf8_valid (payload_texts a) \<and> list_all utf8_valid (payload_texts b) \<longrightarrow>
        (canonicalPayload E a = canonicalPayload E b \<longleftrightarrow> business_fields a = business_fields b))"
  using canonicalPayload_eq [OF assms] by (simp add: payload_fields_valid)

text \<open>The same request with another identity, another request, and two requests that differ in a byte that is
  not UTF-8.\<close>

theorem canonical_payload_identifies_request_witness:
  "let a = \<lparr>C_ID = 1, C_WalletID = 7, C_ExternalID = ''x'', C_ProviderID = ''p'', C_PlayerID = ''u'', C_GameID = ''g'',
     C_RoundID = ''r'', C_IdempotencyKey = ''k'', C_PayloadHash = [], C_ReferenceExternalID = [], C_Type = Bet,
     C_Amount = \<lparr>minor = 50, currency = ''BRL''\<rparr>\<rparr>
   in canonicalPayload example_externals a = canonicalPayload example_externals (a\<lparr>C_ID := 2, C_IdempotencyKey := ''l''\<rparr>)
    \<and> canonicalPayload example_externals a \<noteq> canonicalPayload example_externals (a\<lparr>C_ReferenceExternalID := ''y''\<rparr>)
    \<and> canonicalPayload example_externals (a\<lparr>C_GameID := [CHR 0xFF]\<rparr>) = canonicalPayload example_externals (a\<lparr>C_GameID := [CHR 0xFE]\<rparr>)"
proof -
  let ?a = "\<lparr>C_ID = 1, C_WalletID = 7, C_ExternalID = ''x'', C_ProviderID = ''p'', C_PlayerID = ''u'', C_GameID = ''g'',
     C_RoundID = ''r'', C_IdempotencyKey = ''k'', C_PayloadHash = [], C_ReferenceExternalID = [], C_Type = Bet,
     C_Amount = \<lparr>minor = 50, currency = ''BRL''\<rparr>\<rparr>"
  have v: "list_all utf8_valid (payload_texts ?a)" "list_all utf8_valid (payload_texts (?a\<lparr>C_ReferenceExternalID := ''y''\<rparr>))"
    "list_all utf8_valid (payload_texts (?a\<lparr>C_ID := 2, C_IdempotencyKey := ''l''\<rparr>))"
    "to_valid_utf8 [CHR 0xFF] = to_valid_utf8 [CHR 0xFE]" by code_simp+
  note p = canonical_payload_identifies_request [OF example_externals_ok, of ?a]
  show ?thesis
    using p [of "?a\<lparr>C_ID := 2, C_IdempotencyKey := ''l''\<rparr>"] p [of "?a\<lparr>C_ReferenceExternalID := ''y''\<rparr>"]
      canonical_payload_identifies_request [OF example_externals_ok, of "?a\<lparr>C_GameID := [CHR 0xFF]\<rparr>" "?a\<lparr>C_GameID := [CHR 0xFE]\<rparr>"] v
    by (simp add: declared_type_def money_valid_def currencyPattern_def max_int64_def business_fields_def payload_fields_def)
qed

end
