(* ===== verification/Wallet.thy ===== *)
theory Wallet
  imports Money
begin

text \<open>
  The aggregate of \<^verbatim>\<open>internal/domain/wallet/wallet.go\<close>. The pointer methods
  \<^verbatim>\<open>Debit\<close> and \<^verbatim>\<open>Credit\<close> return the changed wallet or the error, in
  which case the wallet keeps its value. The locale \<open>account\<close> states what a client of the two
  methods relies on and derives the conservation of the balance over any sequence of attempts.
\<close>

section \<open>Model\<close>

record Wallet =
  wallet_id :: string
  wallet_playerID :: string
  wallet_balance :: Money
  wallet_version :: int

definition wallet_New :: "string \<Rightarrow> string \<Rightarrow> Money \<Rightarrow> Wallet result" where
  "wallet_New i playerID opening =
     (if i = [] \<or> playerID = [] \<or> minor opening < 0 \<or> currency opening = []
      then Inl ErrInvalidWallet
      else Inr \<lparr>wallet_id = i, wallet_playerID = playerID, wallet_balance = opening, wallet_version = 1\<rparr>)"

definition wallet_Debit :: "Wallet \<Rightarrow> Money \<Rightarrow> Wallet result" where
  "wallet_Debit w amount =
     (if minor amount < 0 then Inl ErrInvalidWallet
      else bindR (money_Compare (wallet_balance w) amount) (\<lambda>_.
        if minor amount = 0 then Inr w
        else if minor (wallet_balance w) < minor amount then Inl ErrInsufficientBalance
        else bindR (money_Sub (wallet_balance w) amount) (\<lambda>next.
          Inr (w\<lparr>wallet_balance := next, wallet_version := wrapu64 (wallet_version w + 1)\<rparr>))))"

definition wallet_Credit :: "Wallet \<Rightarrow> Money \<Rightarrow> Wallet result" where
  "wallet_Credit w amount =
     (if minor amount < 0 then Inl ErrInvalidWallet
      else bindR (money_Compare (wallet_balance w) amount) (\<lambda>_.
        if minor amount = 0 then Inr w
        else bindR (money_Add (wallet_balance w) amount) (\<lambda>next.
          Inr (w\<lparr>wallet_balance := next, wallet_version := wrapu64 (wallet_version w + 1)\<rparr>))))"

section \<open>Specification\<close>

definition wallet_inv :: "Wallet \<Rightarrow> bool" where
  "wallet_inv w \<longleftrightarrow> wallet_id w \<noteq> [] \<and> wallet_playerID w \<noteq> [] \<and> money_valid (wallet_balance w)"

text \<open>An attempt to move money, and a client that keeps its wallet when the attempt fails.\<close>

datatype 'm movement = MCredit 'm | MDebit 'm

fun signed_amount :: "('m \<Rightarrow> int) \<Rightarrow> 'm movement \<Rightarrow> int" where
  "signed_amount amt (MCredit m) = amt m"
| "signed_amount amt (MDebit m) = - amt m"

fun try_movement :: "('w \<Rightarrow> 'm \<Rightarrow> 'w result) \<Rightarrow> ('w \<Rightarrow> 'm \<Rightarrow> 'w result) \<Rightarrow> 'w \<Rightarrow> 'm movement \<Rightarrow> 'w result" where
  "try_movement credit debit w (MCredit m) = credit w m"
| "try_movement credit debit w (MDebit m) = debit w m"

text \<open>The movements that were accepted, and the wallet they leave.\<close>

fun run_movements :: "('w \<Rightarrow> 'm \<Rightarrow> 'w result) \<Rightarrow> ('w \<Rightarrow> 'm \<Rightarrow> 'w result) \<Rightarrow> 'w \<Rightarrow> 'm movement list
    \<Rightarrow> 'w \<times> 'm movement list" where
  "run_movements credit debit w [] = (w, [])"
| "run_movements credit debit w (x # xs) =
     (case try_movement credit debit w x of
        Inl e \<Rightarrow> run_movements credit debit w xs
      | Inr w' \<Rightarrow> (let (v, acc) = run_movements credit debit w' xs in (v, x # acc)))"

locale account =
  fixes bal :: "'w \<Rightarrow> int"
    and amt :: "'m \<Rightarrow> int"
    and credit :: "'w \<Rightarrow> 'm \<Rightarrow> 'w result"
    and debit :: "'w \<Rightarrow> 'm \<Rightarrow> 'w result"
    and inv :: "'w \<Rightarrow> bool"
    and wfm :: "'m \<Rightarrow> bool"
  assumes inv_nonneg: "inv w \<Longrightarrow> 0 \<le> bal w"
    and credit_law: "inv w \<Longrightarrow> wfm m \<Longrightarrow> credit w m = Inr w' \<Longrightarrow> inv w' \<and> bal w' = bal w + amt m"
    and debit_law: "inv w \<Longrightarrow> wfm m \<Longrightarrow> debit w m = Inr w' \<Longrightarrow> inv w' \<and> bal w' = bal w - amt m"
begin

lemma try_movement_law:
  assumes "inv w" "pred_movement wfm x" "try_movement credit debit w x = Inr w'"
  shows "inv w' \<and> bal w' = bal w + signed_amount amt x"
  using assms by (cases x) (auto dest: credit_law debit_law)

lemma run_movements_law:
  assumes "inv w" "list_all (pred_movement wfm) xs" "run_movements credit debit w xs = (v, acc)"
  shows "inv v \<and> bal v = bal w + (\<Sum>x \<leftarrow> acc. signed_amount amt x)"
  using assms
proof (induction xs arbitrary: w acc)
  case (Cons x xs)
  show ?case
  proof (cases "try_movement credit debit w x")
    case (Inl e)
    with Cons show ?thesis by auto
  next
    case (Inr w')
    with Cons.prems obtain ys where ys: "run_movements credit debit w' xs = (v, ys)" "acc = x # ys"
      by (auto split: prod.splits)
    from Cons.prems Inr have "inv w' \<and> bal w' = bal w + signed_amount amt x"
      by (intro try_movement_law) simp_all
    with Cons.IH [of w' ys] Cons.prems ys show ?thesis by auto
  qed
qed simp

lemma run_movements_nonneg:
  assumes "inv w" "list_all (pred_movement wfm) xs"
  shows "0 \<le> bal (fst (run_movements credit debit w xs))"
  using run_movements_law [OF assms, of "fst (run_movements credit debit w xs)" "snd (run_movements credit debit w xs)"]
  by (auto dest: inv_nonneg)

end

section \<open>Lemmas\<close>

lemma money_Compare_cases:
  "money_Compare m n = (case money_compatible m n of Inl e \<Rightarrow> Inl e
     | Inr _ \<Rightarrow> Inr (if minor m < minor n then - 1 else if minor m > minor n then 1 else 0))"
  by (simp add: money_Compare_def bindR_def split: sum.splits)

lemma wallet_Debit_spec:
  assumes "money_valid (wallet_balance w)" "int64_ok (minor a)"
  shows "wallet_Debit w a =
    (if minor a < 0 then Inl ErrInvalidWallet
     else bindR (money_compatible (wallet_balance w) a) (\<lambda>_.
       if minor a = 0 then Inr w
       else if minor (wallet_balance w) < minor a then Inl ErrInsufficientBalance
       else Inr (w\<lparr>wallet_balance := \<lparr>minor = minor (wallet_balance w) - minor a, currency = currency (wallet_balance w)\<rparr>,
                   wallet_version := wrapu64 (wallet_version w + 1)\<rparr>)))"
proof -
  have "int64_ok (minor (wallet_balance w))" using assms(1) by (rule money_validD)
  moreover have "0 \<le> minor (wallet_balance w)" using assms(1) by (rule money_validD)
  ultimately show ?thesis using assms(2)
    by (cases "money_compatible (wallet_balance w) a")
       (auto simp: wallet_Debit_def money_Compare_cases money_Sub_spec int64_defs)
qed

lemma wallet_Credit_spec:
  assumes "money_valid (wallet_balance w)" "int64_ok (minor a)"
  shows "wallet_Credit w a =
    (if minor a < 0 then Inl ErrInvalidWallet
     else bindR (money_compatible (wallet_balance w) a) (\<lambda>_.
       if minor a = 0 then Inr w
       else if minor (wallet_balance w) + minor a > max_int64 then Inl ErrOverflow
       else Inr (w\<lparr>wallet_balance := \<lparr>minor = minor (wallet_balance w) + minor a, currency = currency (wallet_balance w)\<rparr>,
                   wallet_version := wrapu64 (wallet_version w + 1)\<rparr>)))"
proof -
  have "int64_ok (minor (wallet_balance w))" using assms(1) by (rule money_validD)
  moreover have "0 \<le> minor (wallet_balance w)" using assms(1) by (rule money_validD)
  ultimately show ?thesis using assms(2)
    by (cases "money_compatible (wallet_balance w) a")
       (auto simp: wallet_Credit_def money_Compare_cases money_Add_spec int64_defs)
qed

lemma wallet_Debit_Inr:
  assumes "wallet_inv w" "int64_ok (minor a)" "wallet_Debit w a = Inr w'"
  shows "wallet_inv w' \<and> minor (wallet_balance w') = minor (wallet_balance w) - minor a
    \<and> 0 \<le> minor a \<and> wallet_version w' = (if minor a = 0 then wallet_version w else wrapu64 (wallet_version w + 1))"
  using assms
  by (auto simp: wallet_inv_def wallet_Debit_spec money_valid_def result_simps split: if_splits)

lemma wallet_Credit_Inr:
  assumes "wallet_inv w" "int64_ok (minor a)" "wallet_Credit w a = Inr w'"
  shows "wallet_inv w' \<and> minor (wallet_balance w') = minor (wallet_balance w) + minor a
    \<and> 0 \<le> minor a \<and> wallet_version w' = (if minor a = 0 then wallet_version w else wrapu64 (wallet_version w + 1))"
  using assms
  by (auto simp: wallet_inv_def wallet_Credit_spec money_valid_def result_simps split: if_splits)

interpretation wallet_account: account "\<lambda>w. minor (wallet_balance w)" minor wallet_Credit wallet_Debit
  wallet_inv "\<lambda>m. int64_ok (minor m)"
proof unfold_locales
  show "0 \<le> minor (wallet_balance w)" if "wallet_inv w" for w
    using that by (simp add: wallet_inv_def money_valid_def)
qed (use wallet_Credit_Inr wallet_Debit_Inr in blast)+

section \<open>Properties\<close>

text \<open>Debit and credit on every branch: a negative amount, an incompatible currency, an
  amount above the balance and an overflowing credit are reported and leave the wallet alone;
  otherwise the balance changes by exactly the amount, and the version grows by one exactly when
  the amount is not zero.\<close>

theorem wallet_operations_exact:
  assumes "money_valid (wallet_balance w)" "int64_ok (minor a)"
    "currency a = currency (wallet_balance w)"
  shows "wallet_Debit w a =
     (if minor a < 0 then Inl ErrInvalidWallet
      else if minor a = 0 then Inr w
      else if minor (wallet_balance w) < minor a then Inl ErrInsufficientBalance
      else Inr (w\<lparr>wallet_balance := \<lparr>minor = minor (wallet_balance w) - minor a, currency = currency a\<rparr>,
                  wallet_version := wrapu64 (wallet_version w + 1)\<rparr>))
   \<and> wallet_Credit w a =
     (if minor a < 0 then Inl ErrInvalidWallet
      else if minor a = 0 then Inr w
      else if minor (wallet_balance w) + minor a > max_int64 then Inl ErrOverflow
      else Inr (w\<lparr>wallet_balance := \<lparr>minor = minor (wallet_balance w) + minor a, currency = currency a\<rparr>,
                  wallet_version := wrapu64 (wallet_version w + 1)\<rparr>))"
  using assms money_validD(1) [OF assms(1)]
  by (simp add: wallet_Debit_spec wallet_Credit_spec money_compatible_same)

theorem wallet_operations_exact_witness:
  "wallet_Debit \<lparr>wallet_id = ''w'', wallet_playerID = ''p'', wallet_balance = \<lparr>minor = 100, currency = ''BRL''\<rparr>,
      wallet_version = 1\<rparr> \<lparr>minor = 80, currency = ''BRL''\<rparr>
   = Inr \<lparr>wallet_id = ''w'', wallet_playerID = ''p'', wallet_balance = \<lparr>minor = 20, currency = ''BRL''\<rparr>,
      wallet_version = 2\<rparr>"
  using wallet_operations_exact [of "\<lparr>wallet_id = ''w'', wallet_playerID = ''p'',
      wallet_balance = \<lparr>minor = 100, currency = ''BRL''\<rparr>, wallet_version = 1\<rparr>"
      "\<lparr>minor = 80, currency = ''BRL''\<rparr>"]
  by (simp add: money_valid_def currencyPattern_def int64_defs wrapu64_def)

text \<open>Whatever sequence of debits and credits is attempted on a wallet, its balance never
  becomes negative and always equals the opening balance plus the signed sum of exactly the
  movements that were accepted.\<close>

theorem wallet_balance_conserved:
  assumes "wallet_inv w" "list_all (pred_movement (\<lambda>m. int64_ok (minor m))) xs"
    "run_movements wallet_Credit wallet_Debit w xs = (v, acc)"
  shows "0 \<le> minor (wallet_balance v)
    \<and> minor (wallet_balance v) = minor (wallet_balance w) + (\<Sum>x \<leftarrow> acc. signed_amount minor x)"
  using wallet_account.run_movements_law [OF assms] wallet_account.inv_nonneg by blast

theorem wallet_balance_conserved_witness:
  "minor (wallet_balance (fst (run_movements wallet_Credit wallet_Debit
      \<lparr>wallet_id = ''w'', wallet_playerID = ''p'', wallet_balance = \<lparr>minor = 100, currency = ''BRL''\<rparr>, wallet_version = 1\<rparr>
      [MDebit \<lparr>minor = 80, currency = ''BRL''\<rparr>, MDebit \<lparr>minor = 80, currency = ''BRL''\<rparr>]))) = 20"
proof -
  let ?w = "\<lparr>wallet_id = ''w'', wallet_playerID = ''p'', wallet_balance = \<lparr>minor = 100, currency = ''BRL''\<rparr>,
    wallet_version = 1\<rparr>"
  let ?xs = "[MDebit \<lparr>minor = 80, currency = ''BRL''\<rparr>, MDebit \<lparr>minor = 80, currency = ''BRL''\<rparr>]"
  have w: "wallet_inv ?w" by (simp add: wallet_inv_def money_valid_def currencyPattern_def max_int64_def)
  have r: "run_movements wallet_Credit wallet_Debit ?w ?xs =
    (?w\<lparr>wallet_balance := \<lparr>minor = 20, currency = ''BRL''\<rparr>, wallet_version := 2\<rparr>, [MDebit \<lparr>minor = 80, currency = ''BRL''\<rparr>])"
    by (simp add: wallet_Debit_spec money_valid_def currencyPattern_def money_compatible_def int64_defs wrapu64_def)
  show ?thesis using wallet_balance_conserved [OF w _ r] r by (simp add: int64_defs)
qed

end
