(* ===== verification/Ledger.thy ===== *)
theory Ledger
  imports Money
begin

text \<open>
  The entry of \<^verbatim>\<open>internal/domain/ledger/ledger.go\<close>: an immutable record of one balance
  movement, built by a constructor that checks the movement's equation.
\<close>

section \<open>Model\<close>

datatype Direction = Credit | Debit | OtherDirection string

record Entry =
  entry_id :: string
  entry_walletID :: string
  entry_transactionID :: string
  entry_direction :: Direction
  entry_value :: Money
  entry_balanceBefore :: Money
  entry_balanceAfter :: Money
  entry_timestamp :: time

fun Direction_string :: "Direction \<Rightarrow> string" where
  "Direction_string Credit = ''CREDIT''"
| "Direction_string Debit = ''DEBIT''"
| "Direction_string (OtherDirection s) = s"

definition ledger_New :: "string \<Rightarrow> string \<Rightarrow> string \<Rightarrow> Direction \<Rightarrow> Money \<Rightarrow> Money \<Rightarrow> Money \<Rightarrow> time \<Rightarrow> Entry result" where
  "ledger_New i walletID transactionID direction val balanceBefore balanceAfter timestamp =
     (if i = [] \<or> walletID = [] \<or> transactionID = [] \<or> time_IsZero timestamp
         \<or> (direction \<noteq> Credit \<and> direction \<noteq> Debit) \<or> minor val \<le> 0
      then Inl ErrInvalidEntry
      else if currency val = [] \<or> currency balanceBefore = [] \<or> currency balanceAfter = []
         \<or> currency val \<noteq> currency balanceBefore \<or> currency val \<noteq> currency balanceAfter
      then Inl ErrLedgerCurrencyMismatch
      else if minor balanceBefore < 0 \<or> minor balanceAfter < 0 then Inl ErrInvalidBalance
      else bindR (if direction = Credit then money_Add balanceBefore val else money_Sub balanceBefore val)
        (\<lambda>expected.
          if minor expected \<noteq> minor balanceAfter then Inl ErrInvalidBalance
          else Inr \<lparr>entry_id = i, entry_walletID = walletID, entry_transactionID = transactionID,
                    entry_direction = direction, entry_value = val, entry_balanceBefore = balanceBefore,
                    entry_balanceAfter = balanceAfter, entry_timestamp = timestamp\<rparr>))"

section \<open>Specification\<close>

text \<open>The signed change of the balance that a direction and a value stand for.\<close>

fun signed_value :: "Direction \<Rightarrow> int \<Rightarrow> int" where
  "signed_value Credit v = v"
| "signed_value Debit v = - v"
| "signed_value (OtherDirection s) v = 0"

section \<open>Lemmas\<close>

lemma ledger_New_Inr:
  assumes "money_valid val" "money_valid b" "money_valid a"
  shows "ledger_New i w t d val b a ts = Inr e \<longleftrightarrow>
    i \<noteq> [] \<and> w \<noteq> [] \<and> t \<noteq> [] \<and> ts \<noteq> 0 \<and> d \<in> {Credit, Debit} \<and> 0 < minor val
    \<and> currency val = currency b \<and> currency val = currency a
    \<and> minor a = minor b + signed_value d (minor val)
    \<and> e = \<lparr>entry_id = i, entry_walletID = w, entry_transactionID = t, entry_direction = d, entry_value = val,
           entry_balanceBefore = b, entry_balanceAfter = a, entry_timestamp = ts\<rparr>"
proof -
  note v = money_validD [OF assms(1)] money_validD [OF assms(2)] money_validD [OF assms(3)]
  show ?thesis
    using v
    by (cases d) (auto simp: ledger_New_def money_Add_spec money_Sub_spec money_compatible_def int64_defs
        result_simps split: if_splits)
qed

section \<open>Properties\<close>

text \<open>A ledger entry over valid amounts can be built exactly when its identities and timestamp
  are present, its value is positive, the three amounts share one currency, and the balance after is
  the balance before plus the value (credit) or minus the value (debit).\<close>

theorem ledger_entry_equation:
  assumes "money_valid val" "money_valid b" "money_valid a"
  shows "(\<exists>e. ledger_New i w t d val b a ts = Inr e) \<longleftrightarrow>
    i \<noteq> [] \<and> w \<noteq> [] \<and> t \<noteq> [] \<and> ts \<noteq> 0 \<and> d \<in> {Credit, Debit} \<and> 0 < minor val
    \<and> currency val = currency b \<and> currency val = currency a
    \<and> minor a = minor b + signed_value d (minor val)"
  by (simp add: ledger_New_Inr [OF assms])

theorem ledger_entry_equation_witness:
  "\<not> (\<exists>e. ledger_New ''e'' ''w'' ''t'' Debit \<lparr>minor = 80, currency = ''BRL''\<rparr> \<lparr>minor = 100, currency = ''BRL''\<rparr>
      \<lparr>minor = 30, currency = ''BRL''\<rparr> 1 = Inr e)"
  using ledger_entry_equation [of "\<lparr>minor = 80, currency = ''BRL''\<rparr>" "\<lparr>minor = 100, currency = ''BRL''\<rparr>"
      "\<lparr>minor = 30, currency = ''BRL''\<rparr>" "''e''" "''w''" "''t''" Debit 1]
  by (simp add: money_valid_def currencyPattern_def max_int64_def)

end
