(* ===== verification/Postgres.thy ===== *)
theory Postgres
  imports Money Wager Ledger Utf8
begin

text \<open>
  The persistent state and the statements the repositories run on it. The tables of
  \<^verbatim>\<open>migrations/\<close> are lists of rows; an insert first evaluates the CHECK constraints, then the
  unique indexes in creation order, then the foreign keys, and reports the first violation as
  PostgreSQL does, with its SQLSTATE and constraint name. A nullable text column is a string whose
  empty value is NULL, as \<^verbatim>\<open>nullableString\<close> and the scan code translate it. A statement
  either fails or returns its value and the new database, and a failing transaction leaves the old
  one (\<open>WithTx\<close>). A read that finds no row is \<open>ErrNoRows\<close>.
\<close>

section \<open>Rows\<close>

record WalletRecord =
  W_ID :: uuid
  W_PlayerID :: string
  W_Currency :: string
  W_Balance :: int64
  W_Version :: int64
  W_CreatedAt :: time
  W_UpdatedAt :: time

record WagerTransactionRecord =
  T_ID :: uuid
  T_ExternalID :: string
  T_ProviderID :: string
  T_WalletID :: uuid
  T_PlayerID :: string
  T_GameID :: string
  T_RoundID :: string
  T_Type :: Type
  T_Amount :: int64
  T_Currency :: string
  T_State :: State
  T_IdempotencyKey :: string
  T_PayloadHash :: string
  T_ReferenceExternalID :: string
  T_ReferenceAttempts :: int
  T_ReferenceNextAttemptAt :: "time option"
  T_FailureCode :: string
  T_Result :: "json option"
  T_CreatedAt :: time
  T_UpdatedAt :: time

record LedgerRecord =
  L_ID :: uuid
  L_WalletID :: uuid
  L_TransactionID :: uuid
  L_Direction :: Direction
  L_Currency :: string
  L_Value :: int64
  L_BalanceBefore :: int64
  L_BalanceAfter :: int64
  L_Timestamp :: time

record InboxRecord =
  I_ConsumerName :: string
  I_MessageID :: string
  I_PayloadHash :: string
  I_ReceivedAt :: time
  I_CompletedAt :: "time option"

datatype OutboxStatus = PENDING | CLAIMED | PUBLISHED | FAILED

record OutboxRecord =
  O_EventID :: uuid
  O_OrderingID :: int64
  O_EventType :: string
  O_AggregateID :: uuid
  O_CorrelationID :: string
  O_CausationID :: string
  O_OccurredAt :: time
  O_Version :: int64
  O_Data :: json
  O_Status :: OutboxStatus
  O_Attempts :: int
  O_NextAttemptAt :: time
  O_ClaimedAt :: "time option"
  O_ClaimToken :: "uuid option"
  O_PublishedAt :: "time option"
  O_LastError :: string

record db =
  db_wallets :: "WalletRecord list"
  db_wagers :: "WagerTransactionRecord list"
  db_ledger :: "LedgerRecord list"
  db_inbox :: "InboxRecord list"
  db_outbox :: "OutboxRecord list"
  db_seq :: int

definition empty_db :: db where
  "empty_db = \<lparr>db_wallets = [], db_wagers = [], db_ledger = [], db_inbox = [], db_outbox = [], db_seq = 0\<rparr>"

section \<open>Transactions\<close>

text \<open>
  What the connection does around the function of a transaction: \<^verbatim>\<open>Begin\<close> may fail, and a
  commit may succeed, be lost, or report an error although it took effect.
\<close>

datatype commit_outcome = CommitOk | CommitLost error | CommitUnknown error

record tx_env =
  begin_error :: "error option"
  commit_result :: commit_outcome

definition tx_ok :: tx_env where
  "tx_ok = \<lparr>begin_error = None, commit_result = CommitOk\<rparr>"

definition WithTx :: "tx_env \<Rightarrow> (db \<Rightarrow> ('a \<times> db) result) \<Rightarrow> db \<Rightarrow> 'a result \<times> db" where
  "WithTx env fn d =
     (case begin_error env of
        Some e \<Rightarrow> (Inl e, d)
      | None \<Rightarrow>
          (case fn d of
             Inl e \<Rightarrow> (Inl e, d)
           | Inr (a, d') \<Rightarrow>
               (case commit_result env of
                  CommitOk \<Rightarrow> (Inr a, d')
                | CommitLost e \<Rightarrow> (Inl e, d)
                | CommitUnknown e \<Rightarrow> (Inl e, d'))))"

text \<open>A read outside a transaction either fails or sees its own snapshot of the database.\<close>

definition statement :: "error option \<Rightarrow> 'a result \<Rightarrow> 'a result" where
  "statement failure r = (case failure of Some e \<Rightarrow> Inl e | None \<Rightarrow> r)"

section \<open>Constraints\<close>

fun check_all :: "(bool \<times> error) list \<Rightarrow> unit result" where
  "check_all [] = Inr ()"
| "check_all ((ok, e) # cs) = (if ok then check_all cs else Inl e)"

text \<open>
  A text parameter with a byte 0 or with invalid UTF-8 is refused before the statement runs, and an index
  entry that does not fit a third of a page when it is inserted, after the uniqueness check of its index.
  Whether the two texts of an entry fit depends on the compression of the server: the rule is a parameter.
\<close>

type_synonym index_rule = "string \<Rightarrow> string \<Rightarrow> bool"

abbreviation invalid_text :: error where
  "invalid_text \<equiv> PgError ''22021'' []"

abbreviation oversized_entry :: "string \<Rightarrow> error" where
  "oversized_entry c \<equiv> PgError ''54000'' c"

definition with_texts :: "string list \<Rightarrow> 'a result \<Rightarrow> 'a result" where
  "with_texts texts r = (if list_all text_ok texts then r else Inl invalid_text)"

abbreviation check_violation :: "string \<Rightarrow> error" where
  "check_violation c \<equiv> PgError ''23514'' c"

abbreviation unique_violation :: "string \<Rightarrow> error" where
  "unique_violation c \<equiv> PgError ''23505'' c"

abbreviation foreign_key_violation :: "string \<Rightarrow> error" where
  "foreign_key_violation c \<equiv> PgError ''23503'' c"

definition wallets_constraints :: "index_rule \<Rightarrow> WalletRecord \<Rightarrow> db \<Rightarrow> (bool \<times> error) list" where
  "wallets_constraints fits w d =
    [(list_all text_ok [W_PlayerID w, W_Currency w], invalid_text),
     (W_Balance w \<ge> 0, check_violation ''wallets_balance_check''),
     (currencyPattern (W_Currency w), check_violation ''wallets_currency_check''),
     (W_PlayerID w \<noteq> [], check_violation ''wallets_player_id_check''),
     (W_Version w \<ge> 1, check_violation ''wallets_version_check''),
     (\<not> list_ex (\<lambda>r. W_ID r = W_ID w) (db_wallets d), unique_violation ''wallets_pkey''),
     (\<not> list_ex (\<lambda>r. W_PlayerID r = W_PlayerID w \<and> W_Currency r = W_Currency w) (db_wallets d),
      unique_violation ''wallets_player_id_currency_key''),
     (fits (W_PlayerID w) (W_Currency w), oversized_entry ''wallets_player_id_currency_key'')]"

definition reversal_clash :: "uuid \<Rightarrow> string \<Rightarrow> string \<Rightarrow> State \<Rightarrow> db \<Rightarrow> bool" where
  "reversal_clash i provider reference st d \<longleftrightarrow>
     reference \<noteq> [] \<and> st = Processed \<and>
     list_ex (\<lambda>r. T_ID r \<noteq> i \<and> T_ProviderID r = provider \<and> T_ReferenceExternalID r = reference
                  \<and> T_State r = Processed) (db_wagers d)"

definition reversal_entry_fits :: "index_rule \<Rightarrow> string \<Rightarrow> string \<Rightarrow> State \<Rightarrow> bool" where
  "reversal_entry_fits fits provider reference st \<longleftrightarrow> reference = [] \<or> st \<noteq> Processed \<or> fits provider reference"

text \<open>The text columns of a row; type and state are those of the declared constants.\<close>

definition row_texts :: "WagerTransactionRecord \<Rightarrow> string list" where
  "row_texts t = [T_ExternalID t, T_ProviderID t, T_PlayerID t, T_GameID t, T_RoundID t, T_Currency t, T_IdempotencyKey t,
     T_PayloadHash t, T_ReferenceExternalID t, T_FailureCode t]"

definition wager_transactions_checks :: "WagerTransactionRecord \<Rightarrow> (bool \<times> error) list" where
  "wager_transactions_checks t =
    [(T_ReferenceAttempts t \<le> 2147483647, ErrExternal ''int4''),
     (list_all text_ok (row_texts t), invalid_text),
     (T_Amount t \<ge> 0, check_violation ''wager_transactions_amount_check''),
     (if T_Type t = Loss then T_Amount t = 0 else T_Amount t > 0, check_violation ''wager_transactions_check''),
     (currencyPattern (T_Currency t), check_violation ''wager_transactions_currency_check''),
     (T_ExternalID t \<noteq> [], check_violation ''wager_transactions_external_id_check''),
     (T_GameID t \<noteq> [], check_violation ''wager_transactions_game_nonempty''),
     (T_IdempotencyKey t \<noteq> [], check_violation ''wager_transactions_idempotency_key_check''),
     (T_PayloadHash t \<noteq> [], check_violation ''wager_transactions_payload_hash_check''),
     (T_PlayerID t \<noteq> [], check_violation ''wager_transactions_player_nonempty''),
     (T_ProviderID t \<noteq> [], check_violation ''wager_transactions_provider_id_check''),
     (T_ReferenceAttempts t \<ge> 0, check_violation ''wager_transactions_reference_attempts_check''),
     (T_RoundID t \<noteq> [], check_violation ''wager_transactions_round_nonempty''),
     (T_State t \<in> {Pending, Processed, Rejected, Failed, PendingReference},
      check_violation ''wager_transactions_state_check''),
     (T_Type t \<in> {Opening, Bet, Win, Loss, Refund, Rollback}, check_violation ''wager_transactions_type_check'')]"

definition wager_transactions_constraints :: "index_rule \<Rightarrow> WagerTransactionRecord \<Rightarrow> db \<Rightarrow> (bool \<times> error) list" where
  "wager_transactions_constraints fits t d = wager_transactions_checks t @
    [(\<not> list_ex (\<lambda>r. T_ID r = T_ID t) (db_wagers d), unique_violation ''wager_transactions_pkey''),
     (\<not> list_ex (\<lambda>r. T_ProviderID r = T_ProviderID t \<and> T_ExternalID r = T_ExternalID t) (db_wagers d),
      unique_violation ''wager_transactions_provider_id_external_id_key''),
     (fits (T_ProviderID t) (T_ExternalID t), oversized_entry ''wager_transactions_provider_id_external_id_key''),
     (\<not> list_ex (\<lambda>r. T_ProviderID r = T_ProviderID t \<and> T_IdempotencyKey r = T_IdempotencyKey t) (db_wagers d),
      unique_violation ''wager_transactions_provider_id_idempotency_key_key''),
     (fits (T_ProviderID t) (T_IdempotencyKey t), oversized_entry ''wager_transactions_provider_id_idempotency_key_key''),
     (\<not> reversal_clash (T_ID t) (T_ProviderID t) (T_ReferenceExternalID t) (T_State t) d,
      unique_violation ''wager_transactions_reversal_idx''),
     (reversal_entry_fits fits (T_ProviderID t) (T_ReferenceExternalID t) (T_State t),
      oversized_entry ''wager_transactions_reversal_idx''),
     (list_ex (\<lambda>w. W_ID w = T_WalletID t) (db_wallets d),
      foreign_key_violation ''wager_transactions_wallet_id_fkey''),
     (list_ex (\<lambda>w. W_ID w = T_WalletID t \<and> W_Currency w = T_Currency t) (db_wallets d),
      foreign_key_violation ''wager_transactions_wallet_currency_fk'')]"

definition ledger_constraints :: "LedgerRecord \<Rightarrow> db \<Rightarrow> (bool \<times> error) list" where
  "ledger_constraints e d =
    [(L_BalanceAfter e \<ge> 0, check_violation ''wallet_ledger_entries_balance_after_check''),
     (L_BalanceBefore e \<ge> 0, check_violation ''wallet_ledger_entries_balance_before_check''),
     ((L_Direction e = Credit \<and> L_BalanceAfter e = L_BalanceBefore e + L_Value e) \<or>
      (L_Direction e = Debit \<and> L_BalanceAfter e = L_BalanceBefore e - L_Value e),
      check_violation ''wallet_ledger_entries_check''),
     (currencyPattern (L_Currency e), check_violation ''wallet_ledger_entries_currency_check''),
     (L_Direction e = Credit \<or> L_Direction e = Debit, check_violation ''wallet_ledger_entries_direction_check''),
     (L_Value e > 0, check_violation ''wallet_ledger_entries_value_check''),
     (\<not> list_ex (\<lambda>r. L_ID r = L_ID e) (db_ledger d), unique_violation ''wallet_ledger_entries_pkey''),
     (\<not> list_ex (\<lambda>r. L_WalletID r = L_WalletID e \<and> L_TransactionID r = L_TransactionID e) (db_ledger d),
      unique_violation ''wallet_ledger_entries_wallet_id_transaction_id_key''),
     (list_ex (\<lambda>w. W_ID w = L_WalletID e \<and> W_Currency w = L_Currency e) (db_wallets d),
      foreign_key_violation ''wallet_ledger_wallet_currency_fk''),
     (list_ex (\<lambda>t. T_ID t = L_TransactionID e \<and> T_Currency t = L_Currency e) (db_wagers d),
      foreign_key_violation ''wallet_ledger_transaction_currency_fk'')]"

definition inbox_checks :: "InboxRecord \<Rightarrow> (bool \<times> error) list" where
  "inbox_checks i =
    [(list_all text_ok [I_ConsumerName i, I_MessageID i, I_PayloadHash i], invalid_text),
     (I_ConsumerName i \<noteq> [], check_violation ''inbox_consumer_name_check''),
     (I_MessageID i \<noteq> [], check_violation ''inbox_message_id_check''),
     (I_PayloadHash i \<noteq> [], check_violation ''inbox_payload_hash_check'')]"

definition outbox_constraints :: "OutboxRecord \<Rightarrow> db \<Rightarrow> (bool \<times> error) list" where
  "outbox_constraints e d =
    [(list_all text_ok [O_EventType e, O_CorrelationID e, O_CausationID e], invalid_text),
     (O_Attempts e \<ge> 0, check_violation ''outbox_attempts_check''),
     (O_Version e \<ge> 1, check_violation ''outbox_version_check''),
     (\<not> list_ex (\<lambda>r. O_EventID r = O_EventID e) (db_outbox d), unique_violation ''outbox_pkey'')]"

section \<open>Wallets\<close>

definition walletRepo_Insert :: "index_rule \<Rightarrow> WalletRecord \<Rightarrow> db \<Rightarrow> db result" where
  "walletRepo_Insert fits w d =
     bindR (check_all (wallets_constraints fits w d)) (\<lambda>_. Inr (d\<lparr>db_wallets := db_wallets d @ [w]\<rparr>))"

definition walletRepo_Find :: "uuid \<Rightarrow> db \<Rightarrow> WalletRecord result" where
  "walletRepo_Find i d = someR ErrNoRows (find (\<lambda>w. W_ID w = i) (db_wallets d))"

definition walletRepo_FindForUpdate :: "uuid \<Rightarrow> db \<Rightarrow> WalletRecord result" where
  "walletRepo_FindForUpdate i d = someR ErrNoRows (find (\<lambda>w. W_ID w = i) (db_wallets d))"

definition walletRepo_UpdateBalance :: "uuid \<Rightarrow> int64 \<Rightarrow> int64 \<Rightarrow> time \<Rightarrow> db \<Rightarrow> db result" where
  "walletRepo_UpdateBalance i balance version updatedAt d =
     bindR (check_all (if list_ex (\<lambda>w. W_ID w = i) (db_wallets d)
        then [(balance \<ge> 0, check_violation ''wallets_balance_check''),
              (version \<ge> 1, check_violation ''wallets_version_check'')]
        else []))
       (\<lambda>_. Inr (d\<lparr>db_wallets := update_where (\<lambda>w. W_ID w = i)
           (\<lambda>w. w\<lparr>W_Balance := balance, W_Version := version, W_UpdatedAt := updatedAt\<rparr>) (db_wallets d)\<rparr>))"

section \<open>Wager transactions\<close>

definition wagerRepo_Insert :: "index_rule \<Rightarrow> WagerTransactionRecord \<Rightarrow> db \<Rightarrow> db result" where
  "wagerRepo_Insert fits t d =
     bindR (check_all (wager_transactions_constraints fits t d)) (\<lambda>_. Inr (d\<lparr>db_wagers := db_wagers d @ [t]\<rparr>))"

definition wagerRepo_FindByExternal :: "string \<Rightarrow> string \<Rightarrow> db \<Rightarrow> WagerTransactionRecord result" where
  "wagerRepo_FindByExternal provider external d = with_texts [provider, external]
     (someR ErrNoRows (find (\<lambda>t. T_ProviderID t = provider \<and> T_ExternalID t = external) (db_wagers d)))"

text \<open>
  The transaction-scoped advisory lock: it changes no row and is granted once the sessions that hold
  it have ended; the value is the text that is hashed into its key.
\<close>

definition wagerRepo_LockReferenceIdentity :: "string \<Rightarrow> string \<Rightarrow> db \<Rightarrow> string result" where
  "wagerRepo_LockReferenceIdentity provider external d =
     (let text = provider @ [CHR 0x1F] @ external in with_texts [text] (Inr text))"

definition wagerRepo_FindByID :: "uuid \<Rightarrow> db \<Rightarrow> WagerTransactionRecord result" where
  "wagerRepo_FindByID i d = someR ErrNoRows (find (\<lambda>t. T_ID t = i) (db_wagers d))"

definition wagerRepo_FindByIdempotency :: "string \<Rightarrow> string \<Rightarrow> db \<Rightarrow> WagerTransactionRecord result" where
  "wagerRepo_FindByIdempotency provider key d = with_texts [provider, key]
     (someR ErrNoRows (find (\<lambda>t. T_ProviderID t = provider \<and> T_IdempotencyKey t = key) (db_wagers d)))"

definition wagerRepo_CountByExternal :: "string \<Rightarrow> string \<Rightarrow> db \<Rightarrow> nat result" where
  "wagerRepo_CountByExternal provider external d = with_texts [provider, external]
     (Inr (length (filter (\<lambda>t. T_ProviderID t = provider \<and> T_ExternalID t = external) (db_wagers d))))"

definition wagerRepo_CountByIdempotency :: "string \<Rightarrow> string \<Rightarrow> db \<Rightarrow> nat result" where
  "wagerRepo_CountByIdempotency provider key d = with_texts [provider, key]
     (Inr (length (filter (\<lambda>t. T_ProviderID t = provider \<and> T_IdempotencyKey t = key) (db_wagers d))))"

text \<open>
  The due pending references in the order of the claim query; \<open>locked\<close> are the rows other
  sessions hold, which \<^verbatim>\<open>SKIP LOCKED\<close> leaves out.
\<close>

definition pending_due :: "uuid list \<Rightarrow> time \<Rightarrow> WagerTransactionRecord \<Rightarrow> bool" where
  "pending_due locked now t \<longleftrightarrow> T_State t = PendingReference \<and>
     (case T_ReferenceNextAttemptAt t of None \<Rightarrow> True | Some n \<Rightarrow> n \<le> now) \<and> T_ID t \<notin> set locked"

definition wagerRepo_FindNextPendingReferenceForUpdate ::
  "uuid list \<Rightarrow> time \<Rightarrow> db \<Rightarrow> WagerTransactionRecord result" where
  "wagerRepo_FindNextPendingReferenceForUpdate locked now d =
     someR ErrNoRows (min_by (\<lambda>t. (T_ReferenceNextAttemptAt t, T_ID t))
       (filter (pending_due locked now) (db_wagers d)))"

text \<open>The attempts are an \<^verbatim>\<open>INTEGER\<close> column: the driver refuses to encode a larger value.\<close>

definition wagerRepo_UpdatePendingReference :: "index_rule \<Rightarrow> WagerTransactionRecord \<Rightarrow> db \<Rightarrow> db result" where
  "wagerRepo_UpdatePendingReference fits rec d =
     bindR (check_all ((T_ReferenceAttempts rec \<le> 2147483647, ErrExternal ''int4'') #
       (text_ok (T_FailureCode rec), invalid_text) #
       (case find (\<lambda>t. T_ID t = T_ID rec) (db_wagers d) of
         None \<Rightarrow> []
       | Some old \<Rightarrow>
           [(T_ReferenceAttempts rec \<ge> 0, check_violation ''wager_transactions_reference_attempts_check''),
            (T_State rec \<in> {Pending, Processed, Rejected, Failed, PendingReference},
             check_violation ''wager_transactions_state_check''),
            (\<not> reversal_clash (T_ID rec) (T_ProviderID old) (T_ReferenceExternalID old) (T_State rec) d,
             unique_violation ''wager_transactions_reversal_idx''),
            (reversal_entry_fits fits (T_ProviderID old) (T_ReferenceExternalID old) (T_State rec),
             oversized_entry ''wager_transactions_reversal_idx'')])))
       (\<lambda>_. Inr (d\<lparr>db_wagers := update_where (\<lambda>t. T_ID t = T_ID rec)
           (\<lambda>t. t\<lparr>T_State := T_State rec, T_Result := T_Result rec,
                  T_ReferenceAttempts := T_ReferenceAttempts rec,
                  T_ReferenceNextAttemptAt := T_ReferenceNextAttemptAt rec,
                  T_FailureCode := T_FailureCode rec, T_UpdatedAt := T_UpdatedAt rec\<rparr>) (db_wagers d)\<rparr>))"

section \<open>Ledger entries and inbox\<close>

definition ledgerRepo_Insert :: "LedgerRecord \<Rightarrow> db \<Rightarrow> db result" where
  "ledgerRepo_Insert e d =
     bindR (check_all (ledger_constraints e d)) (\<lambda>_. Inr (d\<lparr>db_ledger := db_ledger d @ [e]\<rparr>))"

definition ledgerRepo_Count :: "uuid \<Rightarrow> db \<Rightarrow> nat" where
  "ledgerRepo_Count walletID d = length (filter (\<lambda>e. L_WalletID e = walletID) (db_ledger d))"

definition ledgerRepo_CountByTransaction :: "uuid \<Rightarrow> db \<Rightarrow> nat" where
  "ledgerRepo_CountByTransaction transactionID d =
     length (filter (\<lambda>e. L_TransactionID e = transactionID) (db_ledger d))"

definition inboxRepo_Find :: "string \<Rightarrow> string \<Rightarrow> db \<Rightarrow> InboxRecord result" where
  "inboxRepo_Find consumerName messageID d = with_texts [consumerName, messageID]
     (someR ErrNoRows (find (\<lambda>i. I_ConsumerName i = consumerName \<and> I_MessageID i = messageID) (db_inbox d)))"

definition inboxRepo_Insert :: "index_rule \<Rightarrow> InboxRecord \<Rightarrow> db \<Rightarrow> db result" where
  "inboxRepo_Insert fits i d =
     bindR (check_all (inbox_checks i @
         [(\<not> list_ex (\<lambda>r. I_ConsumerName r = I_ConsumerName i \<and> I_MessageID r = I_MessageID i) (db_inbox d),
           unique_violation ''inbox_pkey''),
          (fits (I_ConsumerName i) (I_MessageID i), oversized_entry ''inbox_pkey'')]))
       (\<lambda>_. Inr (d\<lparr>db_inbox := db_inbox d @ [i]\<rparr>))"

definition inboxRepo_InsertIfAbsent :: "index_rule \<Rightarrow> InboxRecord \<Rightarrow> db \<Rightarrow> (bool \<times> db) result" where
  "inboxRepo_InsertIfAbsent fits i d =
     bindR (check_all (inbox_checks i)) (\<lambda>_.
       if list_ex (\<lambda>r. I_ConsumerName r = I_ConsumerName i \<and> I_MessageID r = I_MessageID i) (db_inbox d)
       then Inr (False, d)
       else if \<not> fits (I_ConsumerName i) (I_MessageID i) then Inl (oversized_entry ''inbox_pkey'')
       else Inr (True, d\<lparr>db_inbox := db_inbox d @ [i]\<rparr>))"

definition inboxRepo_MarkCompleted :: "string \<Rightarrow> string \<Rightarrow> time \<Rightarrow> db \<Rightarrow> db result" where
  "inboxRepo_MarkCompleted consumerName messageID completedAt d = with_texts [consumerName, messageID]
     (Inr (d\<lparr>db_inbox := update_where (\<lambda>i. I_ConsumerName i = consumerName \<and> I_MessageID i = messageID)
       (\<lambda>i. i\<lparr>I_CompletedAt := Some completedAt\<rparr>) (db_inbox d)\<rparr>))"

text \<open>The statement that appends an event; the sequence gives its position.\<close>

definition outboxRepo_InsertWithMetadata ::
  "uuid \<Rightarrow> string \<Rightarrow> uuid \<Rightarrow> string \<Rightarrow> string \<Rightarrow> int64 \<Rightarrow> time \<Rightarrow> json \<Rightarrow> time \<Rightarrow> db \<Rightarrow> db result" where
  "outboxRepo_InsertWithMetadata eventID eventType aggregateID correlationID causationID version occurredAt
      data nextAttemptAt d =
     (let e = \<lparr>O_EventID = eventID, O_OrderingID = db_seq d + 1, O_EventType = eventType,
               O_AggregateID = aggregateID, O_CorrelationID = correlationID, O_CausationID = causationID,
               O_OccurredAt = occurredAt, O_Version = version, O_Data = data, O_Status = PENDING, O_Attempts = 0,
               O_NextAttemptAt = nextAttemptAt, O_ClaimedAt = None, O_ClaimToken = None,
               O_PublishedAt = None, O_LastError = []\<rparr>
      in bindR (check_all (outbox_constraints e d))
           (\<lambda>_. Inr (d\<lparr>db_outbox := db_outbox d @ [e], db_seq := db_seq d + 1\<rparr>)))"

section \<open>Lemmas\<close>

lemma check_all_Inr [result_simps]: "check_all cs = Inr u \<longleftrightarrow> list_all fst cs"
  by (induction cs rule: check_all.induct) auto

lemma check_all_Inl: "check_all cs = Inl e \<Longrightarrow> \<exists>c \<in> set cs. \<not> fst c \<and> snd c = e"
  by (induction cs rule: check_all.induct) (auto split: if_splits)

lemma check_all_append: "check_all (xs @ ys) = bindR (check_all xs) (\<lambda>_. check_all ys)"
  by (induction xs rule: check_all.induct) auto

declare check_all.simps [simp del]

lemma with_texts_conv [result_simps]:
  "with_texts ts r = Inr a \<longleftrightarrow> list_all text_ok ts \<and> r = Inr a"
  "with_texts ts r = Inl e \<longleftrightarrow> (if list_all text_ok ts then r = Inl e else e = invalid_text)"
  by (auto simp: with_texts_def)

lemma with_texts_ok: "list_all text_ok ts \<Longrightarrow> with_texts ts r = r"
  by (simp add: with_texts_def)

text \<open>A table with a unique key: what an insert promises to the lookups. A key whose texts the server
  refuses is never stored.\<close>

locale keyed_table =
  fixes rows :: "'d \<Rightarrow> 'r list"
    and key :: "'r \<Rightarrow> 'k"
    and ins :: "'r \<Rightarrow> 'd \<Rightarrow> 'd result"
    and lookup :: "'k \<Rightarrow> 'd \<Rightarrow> 'r result"
    and texts :: "'k \<Rightarrow> string list"
  assumes ins_law: "ins r d = Inr d' \<Longrightarrow> rows d' = rows d @ [r] \<and> key r \<notin> key ` set (rows d) \<and> list_all text_ok (texts (key r))"
    and lookup_law: "lookup k d = with_texts (texts k) (someR ErrNoRows (find (\<lambda>r. key r = k) (rows d)))"
begin

lemma distinct_ins: "distinct (map key (rows d)) \<Longrightarrow> ins r d = Inr d' \<Longrightarrow> distinct (map key (rows d'))"
  by (auto dest!: ins_law simp: image_iff)

lemma lookup_ins:
  assumes "ins r d = Inr d'"
  shows "lookup k d' = (if k = key r then Inr r else lookup k d)"
proof -
  have "find (\<lambda>q. key q = key r) (rows d) = None"
    using ins_law [OF assms] unfolding find_None_iff image_iff by metis
  with ins_law [OF assms] show ?thesis
    by (auto simp: lookup_law with_texts_def find_append split: option.splits)
qed

lemma ins_twice: "ins r d = Inr d' \<Longrightarrow> key r' = key r \<Longrightarrow> \<exists>e. ins r' d' = Inl e"
  by (cases "ins r' d'") (auto dest!: ins_law)

lemma lookup_Inr: "lookup k d = Inr r \<Longrightarrow> r \<in> set (rows d) \<and> key r = k"
  by (auto simp: lookup_law result_simps dest: find_SomeD)

lemma lookup_row:
  "distinct (map key (rows d)) \<Longrightarrow> r \<in> set (rows d) \<Longrightarrow> list_all text_ok (texts (key r)) \<Longrightarrow> lookup (key r) d = Inr r"
  by (simp add: lookup_law find_distinct_key with_texts_ok)

lemma lookup_Inl:
  "lookup k d = Inl e \<longleftrightarrow> (if list_all text_ok (texts k) then e = ErrNoRows \<and> k \<notin> key ` set (rows d) else e = invalid_text)"
  by (auto simp: lookup_law result_simps find_None_iff)

end

interpretation wallets_by_id: keyed_table db_wallets W_ID "walletRepo_Insert fits" walletRepo_FindForUpdate "\<lambda>_. []" for fits
  by unfold_locales
     (auto simp: walletRepo_Insert_def walletRepo_FindForUpdate_def wallets_constraints_def result_simps list_ex_iff with_texts_def)

interpretation wagers_by_id: keyed_table db_wagers T_ID "wagerRepo_Insert fits" wagerRepo_FindByID "\<lambda>_. []" for fits
  by unfold_locales
     (auto simp: wagerRepo_Insert_def wagerRepo_FindByID_def wager_transactions_constraints_def result_simps list_ex_iff
        with_texts_def)

interpretation wagers_by_external: keyed_table db_wagers "\<lambda>t. (T_ProviderID t, T_ExternalID t)" "wagerRepo_Insert fits"
  "\<lambda>(p, x). wagerRepo_FindByExternal p x" "\<lambda>(p, x). [p, x]" for fits
  by unfold_locales
     (auto simp: wagerRepo_Insert_def wagerRepo_FindByExternal_def wager_transactions_constraints_def
        wager_transactions_checks_def row_texts_def result_simps list_ex_iff)

interpretation wagers_by_key: keyed_table db_wagers "\<lambda>t. (T_ProviderID t, T_IdempotencyKey t)" "wagerRepo_Insert fits"
  "\<lambda>(p, x). wagerRepo_FindByIdempotency p x" "\<lambda>(p, x). [p, x]" for fits
  by unfold_locales
     (auto simp: wagerRepo_Insert_def wagerRepo_FindByIdempotency_def wager_transactions_constraints_def
        wager_transactions_checks_def row_texts_def result_simps list_ex_iff)

interpretation inbox_by_message: keyed_table db_inbox "\<lambda>i. (I_ConsumerName i, I_MessageID i)" "inboxRepo_Insert fits"
  "\<lambda>(c, m). inboxRepo_Find c m" "\<lambda>(c, m). [c, m]" for fits
  by unfold_locales
     (auto simp: inboxRepo_Insert_def inboxRepo_Find_def inbox_checks_def result_simps list_ex_iff)

text \<open>The text that is hashed into the key of the lock is refused exactly when one of its parts is.\<close>

lemma lock_identity:
  "wagerRepo_LockReferenceIdentity p x d = with_texts [p, x] (Inr (p @ [CHR 0x1F] @ x))"
proof -
  have "text_ok (p @ CHR 0x1F # x) \<longleftrightarrow> text_ok p \<and> text_ok x" by (rule text_ok_append_ascii) (simp_all add: byte_def)
  then show ?thesis by (simp add: wagerRepo_LockReferenceIdentity_def with_texts_def Let_def)
qed

text \<open>A transaction either leaves the database alone or leaves it as its function does.\<close>

lemma WithTx_cases:
  obtains (unchanged) r where "WithTx env fn d = (r, d)" "\<And>a. r \<noteq> Inr a"
  | (committed) a d' where "fn d = Inr (a, d')" "WithTx env fn d = (Inr a, d')"
  | (unknown) a d' e where "fn d = Inr (a, d')" "WithTx env fn d = (Inl e, d')"
  by (cases "begin_error env"; cases "fn d"; cases "commit_result env")
     (auto simp: WithTx_def split: prod.splits)

lemma WithTx_Inr:
  "WithTx env fn d = (Inr a, d') \<longleftrightarrow>
     begin_error env = None \<and> fn d = Inr (a, d') \<and> commit_result env = CommitOk"
  by (auto simp: WithTx_def split: option.splits sum.splits commit_outcome.splits)

lemma WithTx_ok:
  "WithTx tx_ok fn d = (case fn d of Inl e \<Rightarrow> (Inl e, d) | Inr (a, d') \<Rightarrow> (Inr a, d'))"
  by (simp add: WithTx_def tx_ok_def split: sum.splits)

end
