(* ===== verification/Reconstruct.thy ===== *)
theory Reconstruct
  imports Postgres "HOL-Library.Multiset"
begin

text \<open>
  The ledger replay of \<^verbatim>\<open>LedgerRepository.Reconstruct\<close>
  (\<^verbatim>\<open>internal/infrastructure/postgres/repositories.go\<close>): it reads the entries of a wallet,
  checks each one, and rebuilds the balance by looking, from balance zero, for the one remaining entry
  that starts at the current balance. The lemmas relate the search to chains of entries and show
  exactly on which ledgers it succeeds.
\<close>

section \<open>Model\<close>

text \<open>The rows of the query, in the order of its \<^verbatim>\<open>ORDER BY timestamp,id\<close>.\<close>

definition ledger_rows :: "uuid \<Rightarrow> db \<Rightarrow> LedgerRecord list" where
  "ledger_rows walletID d =
     sort_key (\<lambda>e. (L_Timestamp e, L_ID e)) (filter (\<lambda>e. L_WalletID e = walletID) (db_ledger d))"

text \<open>The checks of the scan loop; the differences cannot wrap, as both sides are not negative.\<close>

definition scan_ok :: "string \<Rightarrow> LedgerRecord \<Rightarrow> bool" where
  "scan_ok cur e \<longleftrightarrow>
     \<not> (L_Value e \<le> 0 \<or> L_BalanceBefore e < 0 \<or> L_BalanceAfter e < 0 \<or> L_Currency e \<noteq> cur) \<and>
     (case L_Direction e of
        Credit \<Rightarrow> \<not> (L_BalanceAfter e < L_BalanceBefore e \<or> L_BalanceAfter e - L_BalanceBefore e \<noteq> L_Value e)
      | Debit \<Rightarrow> \<not> (L_BalanceBefore e < L_BalanceAfter e \<or> L_BalanceBefore e - L_BalanceAfter e \<noteq> L_Value e)
      | OtherDirection _ \<Rightarrow> False)"

fun scan_entries :: "string \<Rightarrow> LedgerRecord list \<Rightarrow> LedgerRecord list \<Rightarrow> LedgerRecord list result" where
  "scan_entries cur acc [] = Inr acc"
| "scan_entries cur acc (e # es) =
     (if scan_ok cur e then scan_entries cur (acc @ [e]) es else Inl ErrLedgerInconsistent)"

text \<open>The inner loop: the index of the only entry that starts at the balance.\<close>

fun find_candidate :: "int64 \<Rightarrow> nat \<Rightarrow> nat option \<Rightarrow> LedgerRecord list \<Rightarrow> nat option result" where
  "find_candidate balance i candidate [] = Inr candidate"
| "find_candidate balance i candidate (e # es) =
     (if L_BalanceBefore e = balance then
        if candidate \<noteq> None then Inl ErrLedgerInconsistent
        else find_candidate balance (i + 1) (Some i) es
      else find_candidate balance (i + 1) candidate es)"

lemma find_candidate_bound:
  "find_candidate b i c es = Inr (Some j) \<Longrightarrow> c = Some j \<or> i \<le> j \<and> j < i + length es"
proof (induction es arbitrary: i c)
  case (Cons e es)
  then show ?case by (fastforce split: if_splits)
qed simp

text \<open>The outer loop.\<close>

function replay :: "int64 \<Rightarrow> LedgerRecord list \<Rightarrow> int64 result" where
  "replay balance entries =
     (if entries = [] then Inr balance
      else bindR (find_candidate balance 0 None entries) (\<lambda>candidate.
        case candidate of
          None \<Rightarrow> Inl ErrLedgerInconsistent
        | Some i \<Rightarrow> replay (L_BalanceAfter (entries ! i)) (take i entries @ drop (i + 1) entries)))"
  by pat_completeness auto
termination
  by (relation "measure (\<lambda>(b, es). length es)") (auto dest: find_candidate_bound)

declare replay.simps [simp del]

definition ledgerRepo_Reconstruct :: "(uuid \<Rightarrow> string) \<Rightarrow> uuid \<Rightarrow> db \<Rightarrow> int64 result" where
  "ledgerRepo_Reconstruct uuidString walletID d =
     bindR (walletRepo_Find walletID d) (\<lambda>w.
     bindR (scan_entries (W_Currency w) [] (ledger_rows walletID d)) (\<lambda>entries.
       replay 0 (sort_key (\<lambda>e. (L_Timestamp e, uuidString (L_ID e))) entries)))"

section \<open>Specification\<close>

text \<open>The balance a sequence of entries leads to when each one starts where the previous one ends.\<close>

fun ledger_chain :: "int \<Rightarrow> LedgerRecord list \<Rightarrow> int option" where
  "ledger_chain b [] = Some b"
| "ledger_chain b (e # es) =
     (if L_BalanceBefore e = b \<and> L_BalanceAfter e = b + signed_value (L_Direction e) (L_Value e)
      then ledger_chain (L_BalanceAfter e) es else None)"

abbreviation signed_entry :: "LedgerRecord \<Rightarrow> int" where
  "signed_entry e \<equiv> signed_value (L_Direction e) (L_Value e)"

text \<open>Concrete ledgers of one wallet, for the examples.\<close>

definition example_entry :: "uuid \<times> Direction \<times> int64 \<times> int64 \<times> int64 \<Rightarrow> LedgerRecord" where
  "example_entry = (\<lambda>(i, dir, v, before, after). \<lparr>L_ID = i, L_WalletID = 7, L_TransactionID = i, L_Direction = dir,
     L_Currency = ''BRL'', L_Value = v, L_BalanceBefore = before, L_BalanceAfter = after, L_Timestamp = 1\<rparr>)"

definition example_ledger :: "(uuid \<times> Direction \<times> int64 \<times> int64 \<times> int64) list \<Rightarrow> db" where
  "example_ledger es = empty_db\<lparr>db_wallets := [\<lparr>W_ID = 7, W_PlayerID = ''p'', W_Currency = ''BRL'',
     W_Balance = 0, W_Version = 1, W_CreatedAt = 1, W_UpdatedAt = 1\<rparr>], db_ledger := map example_entry es\<rparr>"

section \<open>Lemmas\<close>

lemma ledger_chain_append:
  "ledger_chain b (xs @ ys) = (case ledger_chain b xs of None \<Rightarrow> None | Some b' \<Rightarrow> ledger_chain b' ys)"
  by (induction xs arbitrary: b) auto

lemma ledger_chain_sum: "ledger_chain b es = Some b' \<Longrightarrow> b' = b + (\<Sum>e \<leftarrow> es. signed_entry e)"
  by (induction es arbitrary: b) (fastforce split: if_splits)+

lemma scan_ok_after: "scan_ok cur e \<Longrightarrow> L_BalanceAfter e = L_BalanceBefore e + signed_entry e"
  by (auto simp: scan_ok_def split: Direction.splits)

lemma scan_entries_eq:
  "scan_entries cur acc es = (if list_all (scan_ok cur) es then Inr (acc @ es) else Inl ErrLedgerInconsistent)"
  by (induction es arbitrary: acc) auto

abbreviation starts_at :: "int \<Rightarrow> LedgerRecord \<Rightarrow> bool" where
  "starts_at b e \<equiv> L_BalanceBefore e = b"

lemma find_candidate_found:
  "find_candidate b i (Some j) es = (if list_ex (starts_at b) es then Inl ErrLedgerInconsistent else Inr (Some j))"
  by (induction es arbitrary: i) auto

lemma find_candidate_split:
  assumes "\<not> list_ex (starts_at b) xs" "starts_at b e"
  shows "find_candidate b i None (xs @ e # ys) =
    (if list_ex (starts_at b) ys then Inl ErrLedgerInconsistent else Inr (Some (i + length xs)))"
  using assms by (induction xs arbitrary: i) (auto simp: find_candidate_found)

lemma first_start:
  assumes "list_ex (starts_at b) xs"
  obtains us e vs where "xs = us @ e # vs" "starts_at b e" "\<not> list_ex (starts_at b) us"
  using assms split_list_first_prop [of xs "starts_at b"] by (auto simp: list_ex_iff)

lemma replay_step:
  assumes "\<not> list_ex (starts_at b) us" "starts_at b e"
  shows "replay b (us @ e # vs) =
    (if list_ex (starts_at b) vs then Inl ErrLedgerInconsistent else replay (L_BalanceAfter e) (us @ vs))"
  by (subst replay.simps) (simp add: find_candidate_split [OF assms])

text \<open>On any arrangement of a chain the search succeeds exactly when no balance recurs.\<close>

lemma replay_chain:
  assumes "ledger_chain b es = Some b'" "mset xs = mset es"
  shows "replay b xs = (if distinct (map L_BalanceBefore es) then Inr b' else Inl ErrLedgerInconsistent)"
  using assms
proof (induction es arbitrary: b xs)
  case Nil
  then show ?case by (subst replay.simps) simp
next
  case (Cons e es)
  then have e: "starts_at b e" and chain: "ledger_chain (L_BalanceAfter e) es = Some b'"
    by (auto split: if_splits)
  have sets: "set xs = insert e (set es)" using Cons.prems(2) by (metis set_mset_mset list.simps(15))
  then have "list_ex (starts_at b) xs" using e by (simp add: list_ex_iff)
  then obtain us f vs where xs: "xs = us @ f # vs" and f: "starts_at b f" "\<not> list_ex (starts_at b) us"
    by (rule first_start)
  have eq: "mset (us @ vs) + {#f#} = mset es + {#e#}" using Cons.prems(2) xs by simp
  show ?case
  proof (cases "list_ex (starts_at b) vs")
    case True
    have "\<exists>g \<in> set es. starts_at b g"
    proof (cases "f = e")
      case True
      with eq have "set (us @ vs) = set es" by (metis add_right_cancel set_mset_mset)
      with \<open>list_ex (starts_at b) vs\<close> show ?thesis by (auto simp: list_ex_iff)
    next
      case False
      with sets xs f show ?thesis by auto
    qed
    then have "\<not> distinct (map L_BalanceBefore (e # es))" using e unfolding list.map distinct.simps set_map image_iff by metis
    with True xs replay_step [OF f(2,1)] show ?thesis by simp
  next
    case False
    have none: "g \<in> set (us @ vs) \<Longrightarrow> \<not> starts_at b g" for g
      using f False by (auto simp: list_ex_iff)
    have "f = e"
    proof (rule ccontr)
      assume "f \<noteq> e"
      then have "e \<in># mset (us @ vs)" using eq by (metis add_mset_add_single insert_iff set_mset_add_mset_insert)
      with none e show False by auto
    qed
    with eq have m: "mset (us @ vs) = mset es" by simp
    then have "b \<notin> L_BalanceBefore ` set es" using none by (metis image_iff set_mset_mset)
    with Cons.IH [OF chain m] False xs replay_step [OF f(2,1)] \<open>f = e\<close> e show ?thesis by simp
  qed
qed

lemma sum_list_mset_eq:
  fixes f :: "'a \<Rightarrow> int"
  assumes "mset xs = mset ys"
  shows "(\<Sum>x \<leftarrow> xs. f x) = (\<Sum>x \<leftarrow> ys. f x)"
proof -
  have "mset (map f xs) = mset (map f ys)" using assms by simp
  then show ?thesis by (metis sum_mset_sum_list)
qed

text \<open>What a successful search means, for any rows that passed the scan.\<close>

lemma replay_sound:
  assumes "replay b xs = Inr b'" "list_all (scan_ok cur) xs"
  shows "\<exists>es. mset es = mset xs \<and> ledger_chain b es = Some b'"
  using assms
proof (induction xs arbitrary: b rule: length_induct)
  case (1 xs)
  show ?case
  proof (cases "xs = []")
    case True
    with 1 show ?thesis by (simp add: replay.simps [of b "[]"])
  next
    case False
    have "list_ex (starts_at b) xs"
    proof (rule ccontr)
      assume n: "\<not> list_ex (starts_at b) xs"
      have "find_candidate b i None xs = Inr None" for i
        using n by (induction xs arbitrary: i) auto
      with 1 False show False by (simp add: replay.simps [of b xs])
    qed
    then obtain us e vs where xs: "xs = us @ e # vs" and e: "starts_at b e" "\<not> list_ex (starts_at b) us"
      by (rule first_start)
    from 1(2) xs replay_step [OF e(2,1)] have r: "replay (L_BalanceAfter e) (us @ vs) = Inr b'"
      by (auto split: if_splits)
    moreover have "length (us @ vs) < length xs" "list_all (scan_ok cur) (us @ vs)" using 1(3) xs by auto
    ultimately obtain es where es: "mset es = mset (us @ vs)" "ledger_chain (L_BalanceAfter e) es = Some b'"
      using 1(1) by blast
    from 1(3) xs have "scan_ok cur e" by simp
    with es e xs have "mset (e # es) = mset xs" "ledger_chain b (e # es) = Some b'"
      by (auto dest: scan_ok_after)
    then show ?thesis by blast
  qed
qed

lemma mset_ledger_rows:
  "mset (ledger_rows walletID d) = mset (filter (\<lambda>e. L_WalletID e = walletID) (db_ledger d))"
  by (simp add: ledger_rows_def)

lemma reconstruct_chain:
  assumes "walletRepo_Find walletID d = Inr w"
    and "mset es = mset (filter (\<lambda>e. L_WalletID e = walletID) (db_ledger d))"
    and "ledger_chain 0 es = Some b" and "\<forall>e \<in> set es. scan_ok (W_Currency w) e"
  shows "ledgerRepo_Reconstruct uuidString walletID d =
    (if distinct (map L_BalanceBefore es) then Inr b else Inl ErrLedgerInconsistent)"
proof -
  have "set (ledger_rows walletID d) = set es"
    using assms(2) mset_ledger_rows [of walletID d] by (metis set_mset_mset)
  with assms(4) have "list_all (scan_ok (W_Currency w)) (ledger_rows walletID d)" by (simp add: list_all_iff)
  with assms(1) have "ledgerRepo_Reconstruct uuidString walletID d =
      replay 0 (sort_key (\<lambda>e. (L_Timestamp e, uuidString (L_ID e))) (ledger_rows walletID d))"
    by (simp add: ledgerRepo_Reconstruct_def scan_entries_eq)
  also have "\<dots> = (if distinct (map L_BalanceBefore es) then Inr b else Inl ErrLedgerInconsistent)"
    using assms(2,3) by (intro replay_chain) (simp_all add: mset_ledger_rows)
  finally show ?thesis .
qed

section \<open>Properties\<close>

text \<open>C34: Whatever \<^verbatim>\<open>Reconstruct\<close> returns is the sum of the credits minus the
  debits of the wallet's entries, and these entries can be arranged into a gapless chain from zero to
  that balance, all of them in the currency of the wallet.\<close>

theorem reconstruct_sound:
  assumes "ledgerRepo_Reconstruct uuidString walletID d = Inr b"
  defines "es \<equiv> filter (\<lambda>e. L_WalletID e = walletID) (db_ledger d)"
  shows "b = (\<Sum>e \<leftarrow> es. signed_entry e) \<and> (\<exists>cs. mset cs = mset es \<and> ledger_chain 0 cs = Some b)
    \<and> (\<exists>w. walletRepo_Find walletID d = Inr w \<and> (\<forall>e \<in> set es. scan_ok (W_Currency w) e))"
proof -
  let ?sorted = "sort_key (\<lambda>e. (L_Timestamp e, uuidString (L_ID e))) (ledger_rows walletID d)"
  from assms(1) obtain w where w: "walletRepo_Find walletID d = Inr w"
    and ok: "list_all (scan_ok (W_Currency w)) (ledger_rows walletID d)" and r: "replay 0 ?sorted = Inr b"
    by (auto simp: ledgerRepo_Reconstruct_def result_simps scan_entries_eq split: if_splits)
  have "list_all (scan_ok (W_Currency w)) ?sorted" using ok by (simp add: list_all_iff)
  from replay_sound [OF r this] obtain cs where cs: "mset cs = mset es" "ledger_chain 0 cs = Some b"
    by (auto simp: mset_ledger_rows es_def)
  have "(\<Sum>e \<leftarrow> es. signed_entry e) = (\<Sum>e \<leftarrow> cs. signed_entry e)"
    by (rule sum_list_mset_eq) (simp add: cs(1))
  with cs ledger_chain_sum [OF cs(2)] w ok show ?thesis
    by (auto simp: list_all_iff ledger_rows_def es_def)
qed

theorem reconstruct_sound_witness:
  "(60::int) = (\<Sum>e \<leftarrow> db_ledger (example_ledger [(1, Credit, 100, 0, 100), (2, Debit, 40, 100, 60)]). signed_entry e)"
proof -
  let ?d = "example_ledger [(1, Credit, 100, 0, 100), (2, Debit, 40, 100, 60)]"
  have "ledgerRepo_Reconstruct (\<lambda>_. []) 7 ?d = Inr 60"
    by (subst reconstruct_chain [where es = "db_ledger ?d" and b = 60])
       (auto simp: example_ledger_def example_entry_def walletRepo_Find_def scan_ok_def)
  from reconstruct_sound [OF this] show ?thesis by (simp add: example_ledger_def example_entry_def)
qed

text \<open>C35: On a ledger whose entries form, in some order, a gapless chain from zero to \<open>b\<close>,
  \<^verbatim>\<open>Reconstruct\<close> returns \<open>b\<close> exactly when no two entries start at the same
  balance; when the balance returns to an earlier value before a further movement, it reports the
  consistent ledger as inconsistent. The result does not depend on the timestamps, the identifiers or
  the order of the rows.\<close>

theorem reconstruct_chain_exact:
  assumes "walletRepo_Find walletID d = Inr w"
    and "mset es = mset (filter (\<lambda>e. L_WalletID e = walletID) (db_ledger d))"
    and "ledger_chain 0 es = Some b" and "\<forall>e \<in> set es. scan_ok (W_Currency w) e"
  shows "ledgerRepo_Reconstruct uuidString walletID d =
    (if distinct (map L_BalanceBefore es) then Inr b else Inl ErrLedgerInconsistent)"
  using assms by (rule reconstruct_chain)

text \<open>
  The witness is a wallet opened with 100 on which a bet of 50, a win of 50 and a bet of 30 were
  processed: the second bet starts again at 100.
\<close>

theorem reconstruct_chain_exact_witness:
  "ledgerRepo_Reconstruct (\<lambda>_. []) 7 (example_ledger [(1, Credit, 100, 0, 100), (2, Debit, 50, 100, 50),
     (3, Credit, 50, 50, 100), (4, Debit, 30, 100, 70)]) = Inl ErrLedgerInconsistent"
  by (subst reconstruct_chain_exact [where es = "db_ledger (example_ledger [(1, Credit, 100, 0, 100),
        (2, Debit, 50, 100, 50), (3, Credit, 50, 50, 100), (4, Debit, 30, 100, 70)])" and b = 70])
     (auto simp: example_ledger_def example_entry_def walletRepo_Find_def scan_ok_def)

end
