(* ===== verification/Metrics.thy ===== *)
theory Metrics
  imports Prelude
begin

text \<open>
  The process-local instruments of \<^verbatim>\<open>internal/observability/metrics.go\<close>: counters kept
  per label in association lists and plain counters, all of them Go \<^verbatim>\<open>uint64\<close> values. A
  component holds a pointer that may be nil, so every operation works on an optional value and a nil
  pointer is left alone.
\<close>

section \<open>Model\<close>

type_synonym counters = "(string \<times> int) list"

record Metrics =
  m_status :: counters
  m_retries :: counters
  m_duplicates :: counters
  m_latencyN :: int
  m_latencyNS :: int
  m_redrive :: int
  m_idempotency :: int
  m_conflicts :: int
  m_divergence :: int
  m_outboxLagNS :: int

definition NewMetrics :: Metrics where
  "NewMetrics = \<lparr>m_status = [], m_retries = [], m_duplicates = [], m_latencyN = 0, m_latencyNS = 0,
     m_redrive = 0, m_idempotency = 0, m_conflicts = 0, m_divergence = 0, m_outboxLagNS = 0\<rparr>"

text \<open>\<^verbatim>\<open>values[key]++\<close> on a Go map.\<close>

fun counter_inc :: "string \<Rightarrow> counters \<Rightarrow> counters" where
  "counter_inc k [] = [(k, 1)]"
| "counter_inc k ((k', v) # cs) = (if k' = k then (k', wrapu64 (v + 1)) # cs else (k', v) # counter_inc k cs)"

definition counter_get :: "string \<Rightarrow> counters \<Rightarrow> int" where
  "counter_get k cs = (case map_of cs k of None \<Rightarrow> 0 | Some v \<Rightarrow> v)"

definition ObserveProcessing :: "string \<Rightarrow> duration \<Rightarrow> Metrics option \<Rightarrow> Metrics option" where
  "ObserveProcessing status d mo = (case mo of None \<Rightarrow> None | Some m \<Rightarrow>
     let s = (if status = [] then ''error'' else status);
         m1 = m\<lparr>m_status := counter_inc s (m_status m), m_latencyN := wrapu64 (m_latencyN m + 1)\<rparr>
     in Some (if d > 0 then m1\<lparr>m_latencyNS := wrapu64 (m_latencyNS m1 + wrapu64 d)\<rparr> else m1))"

definition ObserveDuplicate :: "string \<Rightarrow> Metrics option \<Rightarrow> Metrics option" where
  "ObserveDuplicate kind mo = (case mo of None \<Rightarrow> None | Some m \<Rightarrow>
     let k = (if kind = ''sqs_inbox'' \<or> kind = ''http_idempotency'' then kind else ''unknown'')
     in Some (m\<lparr>m_duplicates := counter_inc k (m_duplicates m)\<rparr>))"

definition ObserveRetry :: "string \<Rightarrow> Metrics option \<Rightarrow> Metrics option" where
  "ObserveRetry component mo = (case mo of None \<Rightarrow> None | Some m \<Rightarrow>
     let k = (if component = ''sqs'' \<or> component = ''pending_reference'' \<or> component = ''outbox''
              then component else ''unknown'')
     in Some (m\<lparr>m_retries := counter_inc k (m_retries m)\<rparr>))"

definition ObserveRedriveCandidate :: "Metrics option \<Rightarrow> Metrics option" where
  "ObserveRedriveCandidate mo = map_option (\<lambda>m. m\<lparr>m_redrive := wrapu64 (m_redrive m + 1)\<rparr>) mo"

definition ObserveIdempotencyConflict :: "Metrics option \<Rightarrow> Metrics option" where
  "ObserveIdempotencyConflict mo = map_option (\<lambda>m. m\<lparr>m_idempotency := wrapu64 (m_idempotency m + 1)\<rparr>) mo"

definition ObserveConcurrencyConflict :: "Metrics option \<Rightarrow> Metrics option" where
  "ObserveConcurrencyConflict mo = map_option (\<lambda>m. m\<lparr>m_conflicts := wrapu64 (m_conflicts m + 1)\<rparr>) mo"

definition ObserveReconciliationDivergence :: "Metrics option \<Rightarrow> Metrics option" where
  "ObserveReconciliationDivergence mo = map_option (\<lambda>m. m\<lparr>m_divergence := wrapu64 (m_divergence m + 1)\<rparr>) mo"

definition SetOutboxLag :: "duration \<Rightarrow> Metrics option \<Rightarrow> Metrics option" where
  "SetOutboxLag d mo = map_option (\<lambda>m. m\<lparr>m_outboxLagNS := d\<rparr>) mo"

section \<open>Lemmas\<close>

lemma counter_get_inc:
  "counter_get k (counter_inc j cs) = (if k = j then wrapu64 (counter_get k cs + 1) else counter_get k cs)"
  by (induction cs) (auto simp: counter_get_def wrapu64_def)

text \<open>The label sets are bounded whatever the caller passes.\<close>

lemma counter_inc_labels: "fst ` set (counter_inc k cs) = insert k (fst ` set cs)"
  by (induction k cs rule: counter_inc.induct) (auto simp: image_iff)

definition labels_bounded :: "Metrics \<Rightarrow> bool" where
  "labels_bounded m \<longleftrightarrow>
     fst ` set (m_retries m) \<subseteq> {''sqs'', ''pending_reference'', ''outbox'', ''unknown''} \<and>
     fst ` set (m_duplicates m) \<subseteq> {''sqs_inbox'', ''http_idempotency'', ''unknown''}"

lemma observe_labels_bounded:
  assumes "labels_bounded m"
  shows "pred_option labels_bounded (ObserveRetry c (Some m))"
    "pred_option labels_bounded (ObserveDuplicate k (Some m))"
  using assms counter_inc_labels
  by (auto simp: labels_bounded_def ObserveRetry_def ObserveDuplicate_def Let_def)

end
