(* ===== verification/Financial.thy ===== *)
theory Financial
  imports Idempotency Wallet Postgres Reconstruct Metrics
begin

text \<open>
  The operations of \<^verbatim>\<open>internal/application/financial/service.go\<close> that transports call:
  opening a wallet, processing a command (directly or from the inbox) and reconciling a wallet.

  An operation runs against the database and the metrics of the service. Values that
  \<^verbatim>\<open>uuid.New\<close> draws, the clock and the elapsed time are arguments. A command transaction
  runs at READ COMMITTED while other sessions commit: its lookups may see an earlier database than
  the one its locks are granted on, so \<open>processInTx\<close> takes the two earlier views as arguments;
  without concurrent sessions all views are the same database. A statement that fails because the
  connection breaks rolls the transaction back, like a lost commit of \<open>WithTx\<close>.
\<close>

section \<open>Data\<close>

definition FailureCodeInsufficientBalance :: string where
  "FailureCodeInsufficientBalance = ''INSUFFICIENT_BALANCE''"
definition FailureCodeReversalInsufficientBalance :: string where
  "FailureCodeReversalInsufficientBalance = ''REVERSAL_INSUFFICIENT_BALANCE''"
definition FailureCodePlayerWalletMismatch :: string where
  "FailureCodePlayerWalletMismatch = ''PLAYER_WALLET_MISMATCH''"
definition FailureCodeReferenceRequired :: string where
  "FailureCodeReferenceRequired = ''REFERENCE_REQUIRED''"
definition FailureCodeReferenceInvalid :: string where
  "FailureCodeReferenceInvalid = ''REFERENCE_INVALID''"
definition FailureCodeReferenceNotFound :: string where
  "FailureCodeReferenceNotFound = ''REFERENCE_NOT_FOUND''"
definition FailureCodeReferenceNotResolved :: string where
  "FailureCodeReferenceNotResolved = ''REFERENCE_NOT_RESOLVED''"
definition FailureCodeReferenceNotSuccessful :: string where
  "FailureCodeReferenceNotSuccessful = ''REFERENCE_NOT_SUCCESSFUL''"

lemma failure_code_texts [simp]:
  "text_ok FailureCodeInsufficientBalance" "text_ok FailureCodeReversalInsufficientBalance" "text_ok FailureCodePlayerWalletMismatch"
  "text_ok FailureCodeReferenceRequired" "text_ok FailureCodeReferenceInvalid" "text_ok FailureCodeReferenceNotFound"
  "text_ok FailureCodeReferenceNotResolved" "text_ok FailureCodeReferenceNotSuccessful"
  by code_simp+

definition legacyIdentity :: string where
  "legacyIdentity = ''legacy''"

record Reconciliation =
  WalletBalance :: int64
  LedgerBalance :: int64
  Consistent :: bool

record eventPayload =
  EP_TransactionID :: uuid
  EP_WalletID :: uuid
  EP_Type :: Type
  EP_State :: State
  EP_Amount :: Money
  EP_Balance :: int64
  EP_FailureCode :: string

record walletBalanceChangedPayload =
  BP_TransactionID :: uuid
  BP_WalletID :: uuid
  BP_Direction :: string
  BP_Money :: Money
  BP_BalanceBefore :: Money
  BP_BalanceAfter :: Money
  BP_WalletVersion :: int64
  BP_Type :: Type
  BP_State :: State

record balanceChange =
  BC_Direction :: Direction
  BC_BalanceBefore :: Money
  BC_BalanceAfter :: Money
  BC_WalletVersion :: int64

text \<open>\<^verbatim>\<open>json.Marshal\<close> of the two event payloads.\<close>

definition marshal_eventPayload :: "externals \<Rightarrow> eventPayload \<Rightarrow> json" where
  "marshal_eventPayload E p = JObject (
     [(''transactionId'', JString (uuid_String E (EP_TransactionID p))),
      (''walletId'', JString (uuid_String E (EP_WalletID p))),
      (''type'', JString (Type_string (EP_Type p))),
      (''state'', JString (State_string (EP_State p))),
      (''amount'', money_MarshalJSON (EP_Amount p)),
      (''balance'', JInt (EP_Balance p))] @
     omitempty ''failureCode'' (EP_FailureCode p))"

definition marshal_walletBalanceChangedPayload :: "externals \<Rightarrow> walletBalanceChangedPayload \<Rightarrow> json" where
  "marshal_walletBalanceChangedPayload E p = JObject
     [(''transactionId'', JString (uuid_String E (BP_TransactionID p))),
      (''walletId'', JString (uuid_String E (BP_WalletID p))),
      (''direction'', JString (BP_Direction p)),
      (''money'', money_MarshalJSON (BP_Money p)),
      (''balanceBefore'', money_MarshalJSON (BP_BalanceBefore p)),
      (''balanceAfter'', money_MarshalJSON (BP_BalanceAfter p)),
      (''walletVersion'', JInt (BP_WalletVersion p)),
      (''type'', JString (Type_string (BP_Type p))),
      (''state'', JString (State_string (BP_State p)))]"

text \<open>The values \<^verbatim>\<open>uuid.New\<close> draws in one operation.\<close>

record draws =
  draw_opening :: uuid
  draw_entry :: uuid
  draw_event :: uuid
  draw_change :: uuid

text \<open>The views of the lookups before the wallet lock and between that lock and the writes.\<close>

record views =
  view_first :: db
  view_second :: db

definition serial_views :: "db \<Rightarrow> views" where
  "serial_views d = \<lparr>view_first = d, view_second = d\<rparr>"

record Service =
  svc_db :: db
  svc_metrics :: "Metrics option"

section \<open>Helpers\<close>

definition moneyFromMinor :: "int64 \<Rightarrow> string \<Rightarrow> Money result" where
  "moneyFromMinor m cur = money_New (fmt_minor m) cur"

definition walletFromRecord :: "externals \<Rightarrow> WalletRecord \<Rightarrow> Wallet result" where
  "walletFromRecord E w = bindR (moneyFromMinor (W_Balance w) (W_Currency w)) (\<lambda>m.
     wallet_New (uuid_String E (W_ID w)) (W_PlayerID w) m)"

definition uuid_MustParse :: "externals \<Rightarrow> string \<Rightarrow> uuid result" where
  "uuid_MustParse E s = someR (Panic ''uuid: Parse'') (uuid_Parse E s)"

definition ledgerRecord :: "externals \<Rightarrow> Entry \<Rightarrow> LedgerRecord result" where
  "ledgerRecord E entry =
     bindR (uuid_MustParse E (entry_id entry)) (\<lambda>i.
     bindR (uuid_MustParse E (entry_walletID entry)) (\<lambda>wid.
     bindR (uuid_MustParse E (entry_transactionID entry)) (\<lambda>tid.
       Inr \<lparr>L_ID = i, L_WalletID = wid, L_TransactionID = tid, L_Direction = entry_direction entry,
            L_Currency = currency (entry_value entry), L_Value = minor (entry_value entry),
            L_BalanceBefore = minor (entry_balanceBefore entry), L_BalanceAfter = minor (entry_balanceAfter entry),
            L_Timestamp = entry_timestamp entry\<rparr>)))"

definition validReference :: "Command \<Rightarrow> WagerTransactionRecord \<Rightarrow> bool" where
  "validReference cmd reference =
     (if T_State reference \<noteq> Processed \<or> T_PlayerID reference = legacyIdentity \<or> T_GameID reference = legacyIdentity
         \<or> T_RoundID reference = legacyIdentity \<or> T_WalletID reference \<noteq> C_WalletID cmd
         \<or> T_PlayerID reference \<noteq> C_PlayerID cmd \<or> T_GameID reference \<noteq> C_GameID cmd
         \<or> T_RoundID reference \<noteq> C_RoundID cmd \<or> T_Currency reference \<noteq> currency (C_Amount cmd)
         \<or> T_Amount reference \<noteq> minor (C_Amount cmd)
      then False
      else if C_Type cmd = Refund then T_Type reference = Bet
      else T_Type reference = Bet \<or> T_Type reference = Win \<or> T_Type reference = Refund)"

text \<open>\<^verbatim>\<open>changes\<close> is the variadic argument; only its first element is used.\<close>

definition insertEvent ::
  "externals \<Rightarrow> uuid \<Rightarrow> string \<Rightarrow> Type \<Rightarrow> uuid \<Rightarrow> uuid \<Rightarrow> Result \<Rightarrow> int64 \<Rightarrow> time \<Rightarrow> string \<Rightarrow> balanceChange list \<Rightarrow>
   db \<Rightarrow> db result" where
  "insertEvent E eventID eventType k aggregateID walletID result version now correlation changes d =
     (case changes of
        change # _ \<Rightarrow>
          let data = marshal_walletBalanceChangedPayload E
            \<lparr>BP_TransactionID = R_TransactionID result, BP_WalletID = walletID,
             BP_Direction = Direction_string (BC_Direction change), BP_Money = R_Amount result,
             BP_BalanceBefore = BC_BalanceBefore change, BP_BalanceAfter = BC_BalanceAfter change,
             BP_WalletVersion = BC_WalletVersion change, BP_Type = k, BP_State = R_State result\<rparr>
          in outboxRepo_InsertWithMetadata eventID eventType aggregateID correlation
               (uuid_String E (R_TransactionID result)) version now data now d
      | [] \<Rightarrow>
          let data = marshal_eventPayload E
            \<lparr>EP_TransactionID = R_TransactionID result, EP_WalletID = walletID, EP_Type = k, EP_State = R_State result,
             EP_Amount = R_Amount result, EP_Balance = R_Balance result, EP_FailureCode = R_FailureCode result\<rparr>
          in outboxRepo_InsertWithMetadata eventID eventType aggregateID correlation
               (uuid_String E (R_TransactionID result)) version now data now d)"

definition insertFinancialEvents ::
  "externals \<Rightarrow> draws \<Rightarrow> Type \<Rightarrow> uuid \<Rightarrow> Result \<Rightarrow> int64 \<Rightarrow> time \<Rightarrow> string \<Rightarrow> bool \<Rightarrow> balanceChange \<Rightarrow> db \<Rightarrow> db result" where
  "insertFinancialEvents E dr k walletID result version now correlation balanceChanged change d =
     bindR (insertEvent E (draw_event dr) ''WagerTransactionProcessed'' k (R_TransactionID result) walletID result
              version now correlation [] d) (\<lambda>d1.
       if \<not> balanceChanged then Inr d1
       else insertEvent E (draw_change dr) ''WalletBalanceChanged'' k walletID walletID result version now
              correlation [change] d1)"

definition pendingReferenceNextAttempt :: "State \<Rightarrow> time \<Rightarrow> time option" where
  "pendingReferenceNextAttempt st now = (if st \<noteq> PendingReference then None else Some now)"

definition transaction_row :: "externals \<Rightarrow> Command \<Rightarrow> Result \<Rightarrow> time \<Rightarrow> WagerTransactionRecord" where
  "transaction_row E cmd result now =
     \<lparr>T_ID = C_ID cmd, T_ExternalID = C_ExternalID cmd, T_ProviderID = C_ProviderID cmd, T_WalletID = C_WalletID cmd,
      T_PlayerID = C_PlayerID cmd, T_GameID = C_GameID cmd, T_RoundID = C_RoundID cmd, T_Type = C_Type cmd,
      T_Amount = minor (C_Amount cmd), T_Currency = currency (C_Amount cmd), T_State = R_State result,
      T_IdempotencyKey = C_IdempotencyKey cmd, T_PayloadHash = C_PayloadHash cmd,
      T_ReferenceExternalID = C_ReferenceExternalID cmd, T_ReferenceAttempts = 0,
      T_ReferenceNextAttemptAt = pendingReferenceNextAttempt (R_State result) now,
      T_FailureCode = R_FailureCode result, T_Result = Some (marshalResult E result),
      T_CreatedAt = now, T_UpdatedAt = now\<rparr>"

definition insertTransaction :: "externals \<Rightarrow> Command \<Rightarrow> Result \<Rightarrow> time \<Rightarrow> db \<Rightarrow> db result" where
  "insertTransaction E cmd result now d = wagerRepo_Insert (index_fits E) (transaction_row E cmd result now) d"

section \<open>Identity of a command\<close>

definition validateCommand :: "Command \<Rightarrow> unit result" where
  "validateCommand cmd =
     (if C_ID cmd = uuid_Nil \<or> C_WalletID cmd = uuid_Nil \<or> C_ExternalID cmd = [] \<or> C_ProviderID cmd = []
         \<or> C_PlayerID cmd = [] \<or> C_GameID cmd = [] \<or> C_RoundID cmd = [] \<or> C_IdempotencyKey cmd = []
      then Inl ErrInvalidCommand
      else if C_PlayerID cmd = legacyIdentity \<or> C_GameID cmd = legacyIdentity \<or> C_RoundID cmd = legacyIdentity
      then Inl ErrInvalidCommand
      else Inr ())"

definition prepareCommand :: "externals \<Rightarrow> Command \<Rightarrow> Command result" where
  "prepareCommand E cmd =
     bindR (validateCommand cmd) (\<lambda>_.
     bindR (canonicalPayloadHash E cmd) (\<lambda>payloadHash.
       Inr (cmd\<lparr>C_PayloadHash := payloadHash\<rparr>)))"

definition sameBusinessPayload :: "WagerTransactionRecord \<Rightarrow> Command \<Rightarrow> bool" where
  "sameBusinessPayload record cmd \<longleftrightarrow>
     T_ProviderID record = C_ProviderID cmd \<and> T_ExternalID record = C_ExternalID cmd
     \<and> T_WalletID record = C_WalletID cmd \<and> T_PlayerID record = C_PlayerID cmd \<and> T_GameID record = C_GameID cmd
     \<and> T_RoundID record = C_RoundID cmd \<and> T_Type record = C_Type cmd \<and> T_Amount record = minor (C_Amount cmd)
     \<and> T_Currency record = currency (C_Amount cmd) \<and> T_ReferenceExternalID record = C_ReferenceExternalID cmd"

text \<open>The result is \<open>None\<close> when the code returns found = false.\<close>

definition findExistingTransaction :: "Command \<Rightarrow> db \<Rightarrow> WagerTransactionRecord option result" where
  "findExistingTransaction cmd d =
     (case wagerRepo_FindByID (C_ID cmd) d of
        Inr byID \<Rightarrow>
          if T_IdempotencyKey byID \<noteq> C_IdempotencyKey cmd \<or> \<not> sameBusinessPayload byID cmd
          then Inl ErrIdempotencyConflict
          else if T_PayloadHash byID \<noteq> C_PayloadHash cmd then Inl ErrReplayUnavailable
          else Inr (Some byID)
      | Inl e \<Rightarrow>
      if e \<noteq> ErrNoRows then Inl e
      else case wagerRepo_FindByIdempotency (C_ProviderID cmd) (C_IdempotencyKey cmd) d of
        Inr byKey \<Rightarrow>
          if \<not> sameBusinessPayload byKey cmd then Inl ErrIdempotencyConflict
          else if T_PayloadHash byKey \<noteq> C_PayloadHash cmd then Inl ErrReplayUnavailable
          else Inr (Some byKey)
      | Inl e \<Rightarrow>
      if e \<noteq> ErrNoRows then Inl e
      else case wagerRepo_FindByExternal (C_ProviderID cmd) (C_ExternalID cmd) d of
        Inr byExternal \<Rightarrow>
          if T_IdempotencyKey byExternal \<noteq> C_IdempotencyKey cmd \<or> \<not> sameBusinessPayload byExternal cmd
          then Inl ErrIdempotencyConflict
          else if T_PayloadHash byExternal \<noteq> C_PayloadHash cmd then Inl ErrReplayUnavailable
          else Inr (Some byExternal)
      | Inl e \<Rightarrow> if e \<noteq> ErrNoRows then Inl e else Inr None)"

definition replayResult :: "externals \<Rightarrow> WagerTransactionRecord \<Rightarrow> Result result" where
  "replayResult E record =
     (case T_Result record of
        None \<Rightarrow> Inl ErrReplayUnavailable
      | Some data \<Rightarrow>
          (case unmarshalResult E data of
             Inl _ \<Rightarrow> Inl ErrReplayUnavailable
           | Inr result \<Rightarrow>
               if R_TransactionID result \<noteq> T_ID record \<or> R_State result \<noteq> T_State record \<or> R_Balance result < 0
                  \<or> minor (R_Amount result) \<noteq> T_Amount record \<or> currency (R_Amount result) \<noteq> T_Currency record
               then Inl ErrReplayUnavailable
               else Inr result))"

definition isKnownIdentityViolation :: "error \<Rightarrow> bool" where
  "isKnownIdentityViolation err =
     (case err of
        PgError code constraint \<Rightarrow>
          code = ''23505'' \<and>
          (constraint = ''wager_transactions_pkey'' \<or> constraint = ''wager_transactions_provider_id_external_id_key''
           \<or> constraint = ''wager_transactions_provider_id_idempotency_key_key''
           \<or> constraint = ''wager_transactions_reversal_idx'')
      | _ \<Rightarrow> False)"

definition isReversalIdentityViolation :: "error \<Rightarrow> bool" where
  "isReversalIdentityViolation err =
     (case err of PgError code constraint \<Rightarrow> code = ''23505'' \<and> constraint = ''wager_transactions_reversal_idx''
      | _ \<Rightarrow> False)"

section \<open>Processing a command in a transaction\<close>

definition persistPendingReference ::
  "externals \<Rightarrow> draws \<Rightarrow> Command \<Rightarrow> WalletRecord \<Rightarrow> time \<Rightarrow> Transaction \<Rightarrow> db \<Rightarrow> (Result \<times> db) result" where
  "persistPendingReference E dr cmd w now txDomain d =
     bindR (wager_Transition txDomain PendingReference) (\<lambda>_.
       let result = \<lparr>R_TransactionID = C_ID cmd, R_State = PendingReference, R_Balance = W_Balance w,
                     R_Amount = C_Amount cmd, R_FailureCode = []\<rparr>
       in bindR (insertTransaction E cmd result now d) (\<lambda>d1.
          bindR (insertEvent E (draw_event dr) ''WagerTransactionPendingReference'' (C_Type cmd) (C_ID cmd)
                   (C_WalletID cmd) result (W_Version w) now (C_IdempotencyKey cmd) [] d1) (\<lambda>d2.
            Inr (result, d2))))"

definition persistRejected ::
  "externals \<Rightarrow> draws \<Rightarrow> Command \<Rightarrow> WalletRecord \<Rightarrow> time \<Rightarrow> Transaction \<Rightarrow> string \<Rightarrow> db \<Rightarrow> (Result \<times> db) result" where
  "persistRejected E dr cmd w now txDomain failureCode d =
     bindR (wager_Transition txDomain Rejected) (\<lambda>_.
       let result = \<lparr>R_TransactionID = C_ID cmd, R_State = Rejected, R_Balance = W_Balance w,
                     R_Amount = C_Amount cmd, R_FailureCode = failureCode\<rparr>
       in bindR (insertTransaction E cmd result now d) (\<lambda>d1.
          bindR (insertEvent E (draw_event dr) ''WagerTransactionRejected'' (C_Type cmd) (C_ID cmd)
                   (C_WalletID cmd) result (W_Version w) now (C_IdempotencyKey cmd) [] d1) (\<lambda>d2.
            Inr (result, d2))))"

text \<open>
  The switch over the command type: the movement, its direction, and the outcome of the domain
  operation (\<^verbatim>\<open>operationErr\<close> is its left side).
\<close>

definition operate ::
  "Command \<Rightarrow> Wallet \<Rightarrow> WagerTransactionRecord option \<Rightarrow> (int64 \<times> Direction \<times> Wallet result) result" where
  "operate cmd domainWallet reference =
     (case C_Type cmd of
        Bet \<Rightarrow> Inr (minor (C_Amount cmd), Debit, wallet_Debit domainWallet (C_Amount cmd))
      | Win \<Rightarrow> Inr (minor (C_Amount cmd), Credit, wallet_Credit domainWallet (C_Amount cmd))
      | Refund \<Rightarrow> Inr (minor (C_Amount cmd), Credit, wallet_Credit domainWallet (C_Amount cmd))
      | Rollback \<Rightarrow>
          (case reference of
             None \<Rightarrow> Inl ErrReferenceInvalid
           | Some r \<Rightarrow>
               if T_Type r = Bet then Inr (minor (C_Amount cmd), Credit, wallet_Credit domainWallet (C_Amount cmd))
               else Inr (minor (C_Amount cmd), Debit, wallet_Debit domainWallet (C_Amount cmd)))
      | Loss \<Rightarrow> Inr (0, Debit, Inr domainWallet)
      | _ \<Rightarrow> Inl ErrReferenceInvalid)"

text \<open>The new balance, the ledger entry and their writes.\<close>

definition moveBalance ::
  "externals \<Rightarrow> draws \<Rightarrow> Command \<Rightarrow> WalletRecord \<Rightarrow> Direction \<Rightarrow> int64 \<Rightarrow> int64 \<Rightarrow> time \<Rightarrow> db \<Rightarrow> db result" where
  "moveBalance E dr cmd w direction movement after now d =
     bindR (walletRepo_UpdateBalance (C_WalletID cmd) after (wrap64 (W_Version w + 1)) now d) (\<lambda>d1.
     bindR (moneyFromMinor movement (currency (C_Amount cmd))) (\<lambda>val.
     bindR (moneyFromMinor (W_Balance w) (currency (C_Amount cmd))) (\<lambda>beforeMoney.
     bindR (moneyFromMinor after (currency (C_Amount cmd))) (\<lambda>afterMoney.
     bindR (ledger_New (uuid_String E (draw_entry dr)) (uuid_String E (C_WalletID cmd)) (uuid_String E (C_ID cmd))
              direction val beforeMoney afterMoney now) (\<lambda>entry.
     bindR (ledgerRecord E entry) (\<lambda>record.
       ledgerRepo_Insert record d1))))))"

text \<open>The row is written first: inserted, or updated when it was pending.\<close>

definition writeRow ::
  "externals \<Rightarrow> Command \<Rightarrow> Result \<Rightarrow> WagerTransactionRecord option \<Rightarrow> time \<Rightarrow> db \<Rightarrow> db result" where
  "writeRow E cmd result existing now d =
     (case existing of
        None \<Rightarrow> insertTransaction E cmd result now d
      | Some ex \<Rightarrow> wagerRepo_UpdatePendingReference (index_fits E)
          (ex\<lparr>T_State := R_State result, T_Result := Some (marshalResult E result),
              T_ReferenceNextAttemptAt := None, T_FailureCode := R_FailureCode result, T_UpdatedAt := now\<rparr>) d)"

definition applyOperationInTx ::
  "externals \<Rightarrow> draws \<Rightarrow> Command \<Rightarrow> WalletRecord \<Rightarrow> Transaction \<Rightarrow> WagerTransactionRecord option \<Rightarrow>
   WagerTransactionRecord option \<Rightarrow> time \<Rightarrow> db \<Rightarrow> (Result \<times> db) result" where
  "applyOperationInTx E dr cmd w txDomain reference existing now d =
     bindR (walletFromRecord E w) (\<lambda>domainWallet.
     bindR (operate cmd domainWallet reference) (\<lambda>(movement, direction, outcome).
       let balance0 = W_Balance w;
           state = (case outcome of Inl _ \<Rightarrow> Rejected | Inr _ \<Rightarrow> Processed);
           failureCode = (case outcome of
               Inl _ \<Rightarrow> if C_Type cmd = Bet then FailureCodeInsufficientBalance
                        else FailureCodeReversalInsufficientBalance
             | Inr _ \<Rightarrow> []);
           after = (case outcome of Inl _ \<Rightarrow> balance0
                    | Inr wallet \<Rightarrow> if movement > 0 then minor (wallet_balance wallet) else balance0)
       in bindR (wager_Transition txDomain state) (\<lambda>_.
          let result = \<lparr>R_TransactionID = C_ID cmd, R_State = state, R_Balance = after, R_Amount = C_Amount cmd,
                        R_FailureCode = failureCode\<rparr>
          in bindR (writeRow E cmd result existing now d) (\<lambda>d1.
             bindR (if state = Processed \<and> movement > 0 then moveBalance E dr cmd w direction movement after now d1
                    else Inr d1) (\<lambda>d2.
             let version = (if state = Processed \<and> movement > 0 then wrap64 (W_Version w + 1) else W_Version w)
             in if state = Processed
                then bindR (moneyFromMinor balance0 (currency (C_Amount cmd))) (\<lambda>beforeMoney.
                     bindR (moneyFromMinor after (currency (C_Amount cmd))) (\<lambda>afterMoney.
                     bindR (insertFinancialEvents E dr (C_Type cmd) (C_WalletID cmd) result version now
                              (C_IdempotencyKey cmd) (movement > 0)
                              \<lparr>BC_Direction = direction, BC_BalanceBefore = beforeMoney, BC_BalanceAfter = afterMoney,
                               BC_WalletVersion = version\<rparr> d2) (\<lambda>d3.
                       Inr (result, d3))))
                else bindR (insertEvent E (draw_event dr) ''WagerTransactionRejected'' (C_Type cmd) (C_ID cmd)
                              (C_WalletID cmd) result version now (C_IdempotencyKey cmd) [] d2) (\<lambda>d3.
                       Inr (result, d3)))))))"

text \<open>Whether a stored result answers the command; \<open>None\<close> lets the command proceed.\<close>

definition replayExisting :: "externals \<Rightarrow> Command \<Rightarrow> db \<Rightarrow> Result option result" where
  "replayExisting E cmd d =
     bindR (findExistingTransaction cmd d) (\<lambda>existing.
       case existing of None \<Rightarrow> Inr None
       | Some record \<Rightarrow> bindR (replayResult E record) (\<lambda>result. Inr (Some result)))"

definition executeInTx ::
  "externals \<Rightarrow> draws \<Rightarrow> db \<Rightarrow> Command \<Rightarrow> time \<Rightarrow> WalletRecord \<Rightarrow> db \<Rightarrow> (Result \<times> db) result" where
  "executeInTx E dr view cmd now w d =
     bindR (wager_New (uuid_String E (C_ID cmd)) (C_ExternalID cmd) (C_ProviderID cmd)
              (uuid_String E (C_WalletID cmd)) (C_Type cmd) (C_Amount cmd)) (\<lambda>txDomain.
       if C_PlayerID cmd \<noteq> W_PlayerID w
       then persistRejected E dr cmd w now txDomain FailureCodePlayerWalletMismatch d
       else if C_Type cmd = Refund \<or> C_Type cmd = Rollback then
         if C_ReferenceExternalID cmd = []
         then persistRejected E dr cmd w now txDomain FailureCodeReferenceRequired d
         else (case wagerRepo_FindByExternal (C_ProviderID cmd) (C_ReferenceExternalID cmd) view of
             Inl findErr \<Rightarrow>
               if findErr = ErrNoRows then persistPendingReference E dr cmd w now txDomain d else Inl findErr
           | Inr foundReference \<Rightarrow>
               if \<not> validReference cmd foundReference
               then persistRejected E dr cmd w now txDomain FailureCodeReferenceInvalid d
               else applyOperationInTx E dr cmd w txDomain (Some foundReference) None now d)
       else applyOperationInTx E dr cmd w txDomain None None now d)"

definition processInTx ::
  "externals \<Rightarrow> draws \<Rightarrow> views \<Rightarrow> Command \<Rightarrow> time \<Rightarrow> db \<Rightarrow> (Result \<times> db) result" where
  "processInTx E dr vs cmd now d =
     bindR (wagerRepo_LockReferenceIdentity (C_ProviderID cmd) (C_ExternalID cmd) d) (\<lambda>_.
     bindR (replayExisting E cmd (view_first vs)) (\<lambda>replayed.
       case replayed of
         Some result \<Rightarrow> Inr (result, d)
       | None \<Rightarrow>
           bindR (walletRepo_FindForUpdate (C_WalletID cmd) d) (\<lambda>w.
           bindR (replayExisting E cmd (view_second vs)) (\<lambda>replayed.
             case replayed of
               Some result \<Rightarrow> Inr (result, d)
             | None \<Rightarrow> executeInTx E dr (view_second vs) cmd now w d))))"

section \<open>The operations of the service\<close>

definition observeResult :: "Result \<Rightarrow> duration \<Rightarrow> Metrics option \<Rightarrow> Metrics option" where
  "observeResult result elapsed m = ObserveProcessing (State_string (R_State result)) elapsed m"

definition observeError :: "error \<Rightarrow> duration \<Rightarrow> Metrics option \<Rightarrow> Metrics option" where
  "observeError err elapsed m =
     (case m of None \<Rightarrow> None
      | Some _ \<Rightarrow> ObserveProcessing ''error'' elapsed
          (if err = ErrIdempotencyConflict then ObserveIdempotencyConflict m else m))"

definition openWalletInTx ::
  "externals \<Rightarrow> draws \<Rightarrow> uuid \<Rightarrow> string \<Rightarrow> Money \<Rightarrow> time \<Rightarrow> db \<Rightarrow> (unit \<times> db) result" where
  "openWalletInTx E dr i playerID opening now d =
     bindR (wallet_New (uuid_String E i) playerID opening) (\<lambda>_.
     bindR (walletRepo_Insert (index_fits E) \<lparr>W_ID = i, W_PlayerID = playerID, W_Currency = currency opening,
              W_Balance = minor opening, W_Version = 1, W_CreatedAt = now, W_UpdatedAt = now\<rparr> d) (\<lambda>d1.
       if minor opening = 0 then Inr ((), d1)
       else
         let openingID = draw_opening dr in
         bindR (wager_NewOpening (uuid_String E openingID) (uuid_String E i) opening) (\<lambda>openingTx.
         bindR (wager_Transition openingTx Processed) (\<lambda>_.
         let externalID = ''opening-'' @ uuid_String E i;
             openingResult = \<lparr>R_TransactionID = openingID, R_State = Processed, R_Balance = minor opening,
                              R_Amount = opening, R_FailureCode = []\<rparr>;
             before1 = (case money_Zero (currency opening) of Inr m \<Rightarrow> m | Inl _ \<Rightarrow> zero_Money)
         in bindR (wagerRepo_Insert (index_fits E)
              \<lparr>T_ID = openingID, T_ExternalID = externalID, T_ProviderID = ''internal'', T_WalletID = i,
               T_PlayerID = playerID, T_GameID = ''internal'', T_RoundID = ''opening'', T_Type = Opening,
               T_Amount = minor opening, T_Currency = currency opening, T_State = Processed,
               T_IdempotencyKey = externalID, T_PayloadHash = externalID, T_ReferenceExternalID = [],
               T_ReferenceAttempts = 0, T_ReferenceNextAttemptAt = None, T_FailureCode = [],
               T_Result = Some (marshalResult E openingResult), T_CreatedAt = now, T_UpdatedAt = now\<rparr> d1) (\<lambda>d2.
            bindR (ledger_New (uuid_String E (draw_entry dr)) (uuid_String E i) (uuid_String E openingID) Credit
                     opening before1 opening now) (\<lambda>entry.
            bindR (ledgerRecord E entry) (\<lambda>record.
            bindR (ledgerRepo_Insert record d2) (\<lambda>d3.
            bindR (insertFinancialEvents E dr Opening i openingResult 1 now externalID True
                     \<lparr>BC_Direction = Credit, BC_BalanceBefore = before1, BC_BalanceAfter = opening,
                      BC_WalletVersion = 1\<rparr> d3) (\<lambda>d4.
              Inr ((), d4))))))))))"

definition OpenWallet ::
  "externals \<Rightarrow> tx_env \<Rightarrow> draws \<Rightarrow> uuid \<Rightarrow> string \<Rightarrow> Money \<Rightarrow> time \<Rightarrow> Service \<Rightarrow> unit result \<times> Service" where
  "OpenWallet E env dr i playerID opening now s =
     (let (r, d) = WithTx env (openWalletInTx E dr i playerID opening now) (svc_db s) in (r, s\<lparr>svc_db := d\<rparr>))"

definition resolveIdentityConflict :: "externals \<Rightarrow> tx_env \<Rightarrow> Command \<Rightarrow> db \<Rightarrow> Result result \<times> db" where
  "resolveIdentityConflict E env cmd d =
     WithTx env (\<lambda>d. bindR (findExistingTransaction cmd d) (\<lambda>existing.
       case existing of
         None \<Rightarrow> Inl ErrIdempotencyConflict
       | Some record \<Rightarrow> bindR (replayResult E record) (\<lambda>result. Inr (result, d)))) d"

text \<open>\<open>env\<close> is the connection of the command transaction, \<open>env2\<close> that of the second
  transaction, which reads the outcome of an identity race.\<close>

definition Process ::
  "externals \<Rightarrow> tx_env \<Rightarrow> tx_env \<Rightarrow> draws \<Rightarrow> views \<Rightarrow> Command \<Rightarrow> time \<Rightarrow> duration \<Rightarrow> Service \<Rightarrow> Result result \<times> Service" where
  "Process E env env2 dr vs cmd now elapsed s =
     (case prepareCommand E cmd of
        Inl e \<Rightarrow> (Inl e, s)
      | Inr prepared \<Rightarrow>
          (case WithTx env (processInTx E dr vs prepared now) (svc_db s) of
             (Inr result, d) \<Rightarrow>
               (Inr result, s\<lparr>svc_db := d, svc_metrics := observeResult result elapsed
                  (if R_TransactionID result \<noteq> C_ID prepared then ObserveDuplicate ''http_idempotency'' (svc_metrics s)
                   else svc_metrics s)\<rparr>)
           | (Inl err, d) \<Rightarrow>
               if \<not> isKnownIdentityViolation err
               then (Inl err, s\<lparr>svc_db := d, svc_metrics := observeError err elapsed (svc_metrics s)\<rparr>)
               else if isReversalIdentityViolation err
               then (Inl ErrIdempotencyConflict,
                     s\<lparr>svc_db := d, svc_metrics := observeError ErrIdempotencyConflict elapsed (svc_metrics s)\<rparr>)
               else (case resolveIdentityConflict E env2 prepared d of
                   (Inl err2, d2) \<Rightarrow>
                     (Inl err2, s\<lparr>svc_db := d2, svc_metrics := observeError err2 elapsed (svc_metrics s)\<rparr>)
                 | (Inr result, d2) \<Rightarrow>
                     (Inr result, s\<lparr>svc_db := d2, svc_metrics := observeResult result elapsed
                        (ObserveDuplicate ''http_idempotency'' (svc_metrics s))\<rparr>))))"

definition processMessageInTx ::
  "externals \<Rightarrow> draws \<Rightarrow> views \<Rightarrow> string \<Rightarrow> string \<Rightarrow> string \<Rightarrow> Command \<Rightarrow> time \<Rightarrow> db \<Rightarrow> ((Result \<times> bool) \<times> db) result" where
  "processMessageInTx E dr vs consumerName messageID payloadHash cmd now d =
     bindR (inboxRepo_InsertIfAbsent (index_fits E) \<lparr>I_ConsumerName = consumerName, I_MessageID = messageID,
              I_PayloadHash = payloadHash, I_ReceivedAt = now, I_CompletedAt = None\<rparr> d) (\<lambda>(inserted, d1).
     bindR (if inserted then Inr False
            else bindR (inboxRepo_Find consumerName messageID d1) (\<lambda>existing.
              if I_PayloadHash existing \<noteq> payloadHash then Inl ErrInboxPayloadMismatch
              else Inr (I_CompletedAt existing \<noteq> None))) (\<lambda>duplicate.
     bindR (processInTx E dr vs cmd now d1) (\<lambda>(result, d2).
     bindR (inboxRepo_MarkCompleted consumerName messageID now d2) (\<lambda>d3.
       Inr ((result, duplicate), d3)))))"

definition ProcessMessage ::
  "externals \<Rightarrow> tx_env \<Rightarrow> draws \<Rightarrow> views \<Rightarrow> string \<Rightarrow> string \<Rightarrow> string \<Rightarrow> Command \<Rightarrow> time \<Rightarrow> duration \<Rightarrow> Service \<Rightarrow>
   (Result \<times> bool) result \<times> Service" where
  "ProcessMessage E env dr vs consumerName messageID payloadHash cmd now elapsed s =
     (case prepareCommand E cmd of
        Inl e \<Rightarrow> (Inl e, s)
      | Inr prepared \<Rightarrow>
          if C_PayloadHash prepared \<noteq> payloadHash then (Inl ErrInboxPayloadMismatch, s)
          else (case WithTx env (processMessageInTx E dr vs consumerName messageID payloadHash prepared now) (svc_db s) of
              (Inr (result, duplicate), d) \<Rightarrow>
                (Inr (result, duplicate), s\<lparr>svc_db := d, svc_metrics := observeResult result elapsed
                   (if duplicate then ObserveDuplicate ''sqs_inbox'' (svc_metrics s) else svc_metrics s)\<rparr>)
            | (Inl err, d) \<Rightarrow>
                (let err' = (if isKnownIdentityViolation err then ErrIdempotencyConflict else err)
                 in (Inl err', s\<lparr>svc_db := d, svc_metrics := observeError err' elapsed (svc_metrics s)\<rparr>))))"

text \<open>The two reads are separate statements: each fails or sees its own snapshot.\<close>

definition Reconcile ::
  "externals \<Rightarrow> error option \<times> db \<Rightarrow> error option \<times> db \<Rightarrow> uuid \<Rightarrow> Service \<Rightarrow> Reconciliation result \<times> Service" where
  "Reconcile E read1 read2 walletID s =
     (case statement (fst read1) (walletRepo_Find walletID (snd read1)) of
        Inl e \<Rightarrow> (Inl e, s)
      | Inr w \<Rightarrow>
          (case statement (fst read2) (ledgerRepo_Reconstruct (uuid_String E) walletID (snd read2)) of
             Inl e \<Rightarrow> (Inl e, s)
           | Inr ledgerBalance \<Rightarrow>
               let consistent = (W_Balance w = ledgerBalance)
               in (Inr \<lparr>WalletBalance = W_Balance w, LedgerBalance = ledgerBalance, Consistent = consistent\<rparr>,
                   if \<not> consistent then s\<lparr>svc_metrics := ObserveReconciliationDivergence (svc_metrics s)\<rparr> else s)))"

end
