(* ===== verification/Backoff.thy ===== *)
theory Backoff
  imports Prelude
begin

text \<open>
  The exponential delay that \<^verbatim>\<open>nextReferenceAttempt\<close> (financial service) and
  \<^verbatim>\<open>nextAttempt\<close> (outbox worker) both compute. The locale states the arithmetic the two
  functions share and derives when the delay is exact and when the multiplication wraps.
\<close>

definition clamp_shift :: "int \<Rightarrow> int" where
  "clamp_shift attempt = max 0 (min 30 (attempt - 1))"

definition day_ns :: int where
  "day_ns = 86400000000000"

locale backoff =
  fixes nxt :: "time \<Rightarrow> duration \<Rightarrow> int \<Rightarrow> time"
  assumes nxt_zero: "b \<le> 0 \<Longrightarrow> nxt n b k = n"
    and nxt_pos: "0 < b \<Longrightarrow> nxt n b k =
      n + (let delay = wrap64 (b * 2 ^ nat (clamp_shift k)) in if delay < 0 then day_ns else delay)"
begin

text \<open>An attempt is never scheduled in the past.\<close>

lemma not_before: "n \<le> nxt n b k"
  by (cases "b \<le> 0") (auto simp: nxt_zero nxt_pos Let_def day_ns_def)

lemma delay_bound: "b * 2 ^ nat (clamp_shift k) \<le> max_int64 \<Longrightarrow> 0 < b \<Longrightarrow>
  wrap64 (b * 2 ^ nat (clamp_shift k)) = b * 2 ^ nat (clamp_shift k)"
  by (rule wrap64_id) (simp add: int64_defs, smt (verit) zero_less_power mult_pos_pos)

lemma exact:
  assumes "0 < b" "b * 2 ^ nat (clamp_shift k) \<le> max_int64"
  shows "nxt n b k = n + b * 2 ^ nat (clamp_shift k)"
proof -
  have "\<not> b * 2 ^ nat (clamp_shift k) < 0" using assms(1) by (simp add: not_less)
  with assms show ?thesis by (simp add: nxt_pos delay_bound Let_def del: mult_less_0_iff)
qed

lemma clamp_mono: "j \<le> k \<Longrightarrow> clamp_shift j \<le> clamp_shift k"
  by (auto simp: clamp_shift_def)

lemma power_clamp: "0 < b \<Longrightarrow> b * 2 ^ nat (clamp_shift k) \<le> (b::int) * 2 ^ 30"
proof -
  assume "0 < b"
  have "nat (clamp_shift k) \<le> 30" by (simp add: clamp_shift_def)
  then have "(2::int) ^ nat (clamp_shift k) \<le> 2 ^ 30" by (intro power_increasing) simp_all
  with \<open>0 < b\<close> show ?thesis by (simp only: mult_le_cancel_left_pos)
qed

lemma mono:
  assumes "0 < b" "b * 2 ^ 30 \<le> max_int64" "j \<le> k"
  shows "nxt n b j \<le> nxt n b k \<and> nxt n b k \<le> n + b * 2 ^ 30"
proof -
  have fits: "b * 2 ^ nat (clamp_shift i) \<le> max_int64" for i
    using power_clamp [OF assms(1), of i] assms(2) by linarith
  have "(2::int) ^ nat (clamp_shift j) \<le> 2 ^ nat (clamp_shift k)"
    using clamp_mono [OF assms(3)] by (intro power_increasing) auto
  with assms(1) have "b * 2 ^ nat (clamp_shift j) \<le> b * 2 ^ nat (clamp_shift k)" by simp
  with power_clamp [OF assms(1), of k] show ?thesis by (simp add: exact [OF assms(1) fits])
qed

end

end
