(* ===== verification/Sqs.thy ===== *)
theory Sqs
  imports Prelude
begin

text \<open>
  The SQS client of \<^verbatim>\<open>internal/infrastructure/sqs/client.go\<close>: the cached queue URLs, the
  readiness check and the publication of an event. The AWS API is outside the repository: its answer to
  each call is an argument, an error being the text of the AWS error. An answer to
  \<^verbatim>\<open>GetQueueUrl\<close> may lack the URL.
\<close>

section \<open>Model\<close>

record Client =
  cl_queueName :: string
  cl_eventQueueName :: string
  cl_queueURL :: string
  cl_eventQueueURL :: string

type_synonym url_answer = "string + string option"

definition resolve_url :: "string \<Rightarrow> url_answer \<Rightarrow> string + string" where
  "resolve_url name answer =
     (case answer of
        Inl e \<Rightarrow> Inl e
      | Inr None \<Rightarrow> Inl (''SQS returned an empty URL for queue '' @ [CHR 0x22] @ name @ [CHR 0x22])
      | Inr (Some url) \<Rightarrow> if url = [] then Inl (''SQS returned an empty URL for queue '' @ [CHR 0x22] @ name @ [CHR 0x22]) else Inr url)"

definition Client_QueueURL :: "url_answer \<Rightarrow> Client \<Rightarrow> (string + string) \<times> Client" where
  "Client_QueueURL answer c =
     (if cl_queueURL c \<noteq> [] then (Inr (cl_queueURL c), c)
      else case resolve_url (cl_queueName c) answer of
        Inl e \<Rightarrow> (Inl e, c)
      | Inr url \<Rightarrow>
          let c1 = (if cl_queueURL c = [] then c\<lparr>cl_queueURL := url\<rparr> else c)
          in (Inr (cl_queueURL c1), c1))"

definition Client_EventQueueURL :: "url_answer \<Rightarrow> Client \<Rightarrow> (string + string) \<times> Client" where
  "Client_EventQueueURL answer c =
     (if cl_eventQueueURL c \<noteq> [] then (Inr (cl_eventQueueURL c), c)
      else case resolve_url (cl_eventQueueName c) answer of
        Inl e \<Rightarrow> (Inl e, c)
      | Inr url \<Rightarrow>
          let c1 = (if cl_eventQueueURL c = [] then c\<lparr>cl_eventQueueURL := url\<rparr> else c)
          in (Inr (cl_eventQueueURL c1), c1))"

definition Client_Name :: string where
  "Client_Name = ''sqs''"

definition Client_Check :: "url_answer \<Rightarrow> string option \<Rightarrow> Client \<Rightarrow> string option \<times> Client" where
  "Client_Check answer attributesErr c =
     (case Client_QueueURL answer c of
        (Inl e, c1) \<Rightarrow> (Some e, c1)
      | (Inr _, c1) \<Rightarrow> (attributesErr, c1))"

text \<open>A message as it is handed to the broker, and the ways a send can end: accepted, refused, or
  accepted although the caller sees an error.\<close>

record sent_message =
  sm_queue :: string
  sm_body :: json
  sm_group :: string
  sm_deduplication :: string

datatype send_outcome = SendOk | SendFailed string | SendUnknown string

definition Client_SendEvent ::
  "url_answer \<Rightarrow> send_outcome \<Rightarrow> json \<Rightarrow> string \<Rightarrow> string \<Rightarrow> Client \<Rightarrow> string option \<times> sent_message list \<times> Client" where
  "Client_SendEvent answer outcome body groupID deduplicationID c =
     (case Client_EventQueueURL answer c of
        (Inl e, c1) \<Rightarrow> (Some e, [], c1)
      | (Inr url, c1) \<Rightarrow>
          let m = \<lparr>sm_queue = url, sm_body = body, sm_group = groupID, sm_deduplication = deduplicationID\<rparr>
          in case outcome of
               SendOk \<Rightarrow> (None, [m], c1)
             | SendFailed e \<Rightarrow> (Some e, [], c1)
             | SendUnknown e \<Rightarrow> (Some e, [m], c1))"

section \<open>Lemmas\<close>

text \<open>Once an URL is known, later answers of the lookup are irrelevant.\<close>

lemma QueueURL_cached:
  assumes "Client_QueueURL answer c = (Inr url, c1)"
  shows "url \<noteq> [] \<and> cl_queueURL c1 = url \<and> Client_QueueURL answer' c1 = (Inr url, c1)"
  using assms
  by (auto simp: Client_QueueURL_def resolve_url_def Let_def split: if_splits sum.splits option.splits)

lemma EventQueueURL_cached:
  assumes "Client_EventQueueURL answer c = (Inr url, c1)"
  shows "url \<noteq> [] \<and> cl_eventQueueURL c1 = url \<and> Client_EventQueueURL answer' c1 = (Inr url, c1)"
  using assms
  by (auto simp: Client_EventQueueURL_def resolve_url_def Let_def split: if_splits sum.splits option.splits)

text \<open>A send that reports success has handed over exactly the given message.\<close>

lemma SendEvent_ok:
  assumes "Client_SendEvent answer outcome body g x c = (None, ms, c1)"
  shows "\<exists>url. url \<noteq> [] \<and> ms = [\<lparr>sm_queue = url, sm_body = body, sm_group = g, sm_deduplication = x\<rparr>] \<and> outcome = SendOk"
proof (cases "Client_EventQueueURL answer c")
  case (Pair r c2)
  with assms obtain url where url: "r = Inr url" by (cases r) (auto simp: Client_SendEvent_def)
  with Pair EventQueueURL_cached [of answer c url c2] have "url \<noteq> []" by simp
  with Pair url assms show ?thesis by (cases outcome) (auto simp: Client_SendEvent_def Let_def)
qed

end
