(* ===== verification/Outbox.thy ===== *)
theory Outbox
  imports Financial Backoff Sqs
begin

text \<open>
  The transactional outbox: the statements of \<^verbatim>\<open>OutboxRepository\<close>
  (\<^verbatim>\<open>internal/infrastructure/postgres/repositories.go\<close>) and the worker of
  \<^verbatim>\<open>internal/application/outbox/worker.go\<close> that claims an event, publishes it and records
  the outcome. Each statement of the worker is a transaction of its own, so other sessions may commit
  between the claim and the mark: \<open>tick_interfere\<close> is what they do to the database.
\<close>

section \<open>Statements\<close>

definition outboxRepo_Insert ::
  "uuid \<Rightarrow> string \<Rightarrow> uuid \<Rightarrow> time \<Rightarrow> json \<Rightarrow> time \<Rightarrow> db \<Rightarrow> db result" where
  "outboxRepo_Insert eventID eventType aggregateID occurredAt data nextAttemptAt d =
     outboxRepo_InsertWithMetadata eventID eventType aggregateID [] [] 1 occurredAt data nextAttemptAt d"

definition outboxRepo_CountByTypeAndAggregate :: "string \<Rightarrow> uuid \<Rightarrow> db \<Rightarrow> nat" where
  "outboxRepo_CountByTypeAndAggregate eventType aggregateID d =
     length (filter (\<lambda>e. O_EventType e = eventType \<and> O_AggregateID e = aggregateID) (db_outbox d))"

definition outboxRepo_CountByTypeAndCausation :: "string \<Rightarrow> string \<Rightarrow> db \<Rightarrow> nat" where
  "outboxRepo_CountByTypeAndCausation eventType causationID d =
     length (filter (\<lambda>e. O_EventType e = eventType \<and> O_CausationID e = causationID \<and> causationID \<noteq> []) (db_outbox d))"

text \<open>\<^verbatim>\<open>Time.Sub\<close> saturates at the bounds of a duration.\<close>

definition time_Sub :: "time \<Rightarrow> time \<Rightarrow> duration" where
  "time_Sub a b = max min_int64 (min max_int64 (a - b))"

definition outboxRepo_PendingLag :: "time \<Rightarrow> db \<Rightarrow> duration" where
  "outboxRepo_PendingLag now d =
     (case min_by O_OccurredAt (filter (\<lambda>e. O_Status e = PENDING \<or> O_Status e = CLAIMED) (db_outbox d)) of
        None \<Rightarrow> 0
      | Some e \<Rightarrow> let lag = time_Sub now (O_OccurredAt e) in if lag < 0 then 0 else lag)"

definition outboxRepo_FindFirstByTypeAndAggregate :: "string \<Rightarrow> uuid \<Rightarrow> db \<Rightarrow> OutboxRecord result" where
  "outboxRepo_FindFirstByTypeAndAggregate eventType aggregateID d =
     someR ErrNoRows (min_by O_OrderingID
       (filter (\<lambda>e. O_EventType e = eventType \<and> O_AggregateID e = aggregateID) (db_outbox d)))"

definition outboxRepo_FindByID :: "uuid \<Rightarrow> db \<Rightarrow> OutboxRecord result" where
  "outboxRepo_FindByID eventID d = someR ErrNoRows (find (\<lambda>e. O_EventID e = eventID) (db_outbox d))"

text \<open>
  The condition of the claim: a pending event that is due, or a claimed one whose lease has expired, with
  every earlier event of its aggregate published.
\<close>

definition predecessors_published :: "db \<Rightarrow> OutboxRecord \<Rightarrow> bool" where
  "predecessors_published d e \<longleftrightarrow> \<not> list_ex (\<lambda>p. O_AggregateID p = O_AggregateID e \<and> O_OrderingID p < O_OrderingID e
     \<and> O_Status p \<noteq> PUBLISHED) (db_outbox d)"

definition claimable :: "time \<Rightarrow> duration \<Rightarrow> db \<Rightarrow> OutboxRecord \<Rightarrow> bool" where
  "claimable now lease d e \<longleftrightarrow>
     ((O_Status e = PENDING \<and> O_NextAttemptAt e \<le> now) \<or>
      (O_Status e = CLAIMED \<and> (case O_ClaimedAt e of None \<Rightarrow> False | Some c \<Rightarrow> c \<le> now + wrap64 (- lease))))
     \<and> predecessors_published d e"

definition claimed_event :: "time \<Rightarrow> uuid \<Rightarrow> OutboxRecord \<Rightarrow> OutboxRecord" where
  "claimed_event now token e = e\<lparr>O_Status := CLAIMED, O_ClaimedAt := Some now, O_ClaimToken := Some token,
     O_Attempts := O_Attempts e + 1\<rparr>"

text \<open>The update of a claim; the attempts are an \<^verbatim>\<open>INTEGER\<close> column.\<close>

definition claim_event :: "uuid \<Rightarrow> time \<Rightarrow> OutboxRecord \<Rightarrow> db \<Rightarrow> (OutboxRecord \<times> db) result" where
  "claim_event token now e d =
     (if O_Attempts e + 1 > 2147483647 then Inl (PgError ''22003'' [])
      else Inr (claimed_event now token e,
        d\<lparr>db_outbox := update_where (\<lambda>x. O_EventID x = O_EventID e) (claimed_event now token) (db_outbox d)\<rparr>))"

definition outboxRepo_ClaimOneRecord ::
  "uuid \<Rightarrow> uuid list \<Rightarrow> time \<Rightarrow> duration \<Rightarrow> db \<Rightarrow> (OutboxRecord \<times> db) result" where
  "outboxRepo_ClaimOneRecord claimToken locked now lease d =
     (case min_by (\<lambda>e. (O_NextAttemptAt e, O_EventID e))
             (filter (\<lambda>e. claimable now lease d e \<and> O_EventID e \<notin> set locked) (db_outbox d)) of
        None \<Rightarrow> Inl ErrNoRows
      | Some e \<Rightarrow> claim_event claimToken now e d)"

definition outboxRepo_ClaimOne :: "uuid \<Rightarrow> uuid list \<Rightarrow> time \<Rightarrow> db \<Rightarrow> (uuid \<times> db) result" where
  "outboxRepo_ClaimOne claimToken locked now d =
     bindR (outboxRepo_ClaimOneRecord claimToken locked now (30 * 1000000000) d) (\<lambda>(record, d1).
       Inr (O_EventID record, d1))"

definition outboxRepo_ClaimRecordByID ::
  "uuid \<Rightarrow> uuid \<Rightarrow> time \<Rightarrow> duration \<Rightarrow> db \<Rightarrow> (OutboxRecord \<times> db) result" where
  "outboxRepo_ClaimRecordByID claimToken eventID now lease d =
     (case find (\<lambda>e. O_EventID e = eventID \<and> claimable now lease d e) (db_outbox d) of
        None \<Rightarrow> Inl ErrNoRows
      | Some e \<Rightarrow> claim_event claimToken now e d)"

text \<open>A mark tells from the number of updated rows whether the claim is still held.\<close>

definition holds_claim :: "uuid \<Rightarrow> uuid \<Rightarrow> OutboxRecord \<Rightarrow> bool" where
  "holds_claim eventID claimToken e \<longleftrightarrow>
     O_EventID e = eventID \<and> O_ClaimToken e = Some claimToken \<and> O_Status e = CLAIMED"

definition mark_rows ::
  "tx_env \<Rightarrow> uuid \<Rightarrow> uuid \<Rightarrow> (OutboxRecord \<Rightarrow> OutboxRecord) \<Rightarrow> db \<Rightarrow> unit result \<times> db" where
  "mark_rows env eventID claimToken f d =
     (case WithTx env (\<lambda>d. Inr (length (filter (holds_claim eventID claimToken) (db_outbox d)),
             d\<lparr>db_outbox := update_where (holds_claim eventID claimToken) f (db_outbox d)\<rparr>)) d of
        (Inl e, d1) \<Rightarrow> (Inl e, d1)
      | (Inr n, d1) \<Rightarrow> (if n \<noteq> 1 then Inl ErrOutboxClaimLost else Inr (), d1))"

definition published_event :: "time \<Rightarrow> OutboxRecord \<Rightarrow> OutboxRecord" where
  "published_event now e = e\<lparr>O_Status := PUBLISHED, O_PublishedAt := Some now, O_ClaimedAt := None,
     O_ClaimToken := None, O_LastError := []\<rparr>"

definition outboxRepo_MarkPublished :: "tx_env \<Rightarrow> uuid \<Rightarrow> uuid \<Rightarrow> time \<Rightarrow> db \<Rightarrow> unit result \<times> db" where
  "outboxRepo_MarkPublished env eventID claimToken publishedAt d =
     mark_rows env eventID claimToken (published_event publishedAt) d"

definition retried_event :: "OutboxStatus \<Rightarrow> time \<Rightarrow> string \<Rightarrow> OutboxRecord \<Rightarrow> OutboxRecord" where
  "retried_event status nextAttemptAt lastError e = e\<lparr>O_Status := status, O_NextAttemptAt := nextAttemptAt,
     O_ClaimedAt := None, O_ClaimToken := None, O_LastError := lastError\<rparr>"

definition outboxRepo_MarkRetry ::
  "tx_env \<Rightarrow> uuid \<Rightarrow> uuid \<Rightarrow> int \<Rightarrow> time \<Rightarrow> string \<Rightarrow> int \<Rightarrow> db \<Rightarrow> unit result \<times> db" where
  "outboxRepo_MarkRetry env eventID claimToken attempts nextAttemptAt lastError maxAttempts d =
     (let status = (if attempts \<ge> maxAttempts then FAILED else PENDING)
      in mark_rows env eventID claimToken (retried_event status nextAttemptAt lastError) d)"

section \<open>The worker\<close>

record OutboxConfig =
  ob_PollInterval :: duration
  ob_BatchSize :: int
  ob_MaxAttempts :: int
  ob_Backoff :: duration
  ob_ClaimLease :: duration

datatype worker_run = OutboxRunning | OutboxCancelled

record OutboxWorker =
  ob_config :: OutboxConfig
  ob_active :: "worker_run option"

definition NewWorker :: "OutboxConfig \<Rightarrow> OutboxWorker" where
  "NewWorker config =
     (let c1 = (if ob_PollInterval config \<le> 0 then config\<lparr>ob_PollInterval := 1000000000\<rparr> else config);
          c2 = (if ob_BatchSize c1 < 1 then c1\<lparr>ob_BatchSize := 20\<rparr> else c1);
          c3 = (if ob_MaxAttempts c2 < 1 then c2\<lparr>ob_MaxAttempts := 10\<rparr> else c2);
          c4 = (if ob_Backoff c3 < 0 then c3\<lparr>ob_Backoff := 0\<rparr> else c3);
          c5 = (if ob_ClaimLease c4 \<le> 0 then c4\<lparr>ob_ClaimLease := 30 * 1000000000\<rparr> else c4)
      in \<lparr>ob_config = c5, ob_active = None\<rparr>)"

definition OutboxWorker_Start :: "error option \<Rightarrow> OutboxWorker \<Rightarrow> error option \<times> OutboxWorker" where
  "OutboxWorker_Start ctxErr w =
     (case ctxErr of
        Some e \<Rightarrow> (Some e, w)
      | None \<Rightarrow> if ob_active w \<noteq> None then (None, w) else (None, w\<lparr>ob_active := Some OutboxRunning\<rparr>))"

definition OutboxWorker_Stop :: "bool \<Rightarrow> error \<Rightarrow> OutboxWorker \<Rightarrow> error option \<times> OutboxWorker" where
  "OutboxWorker_Stop finished ctxErr w =
     (case ob_active w of
        None \<Rightarrow> (None, w)
      | Some r \<Rightarrow> if finished then (None, w\<lparr>ob_active := None\<rparr>)
                 else (Some ctxErr, w\<lparr>ob_active := Some OutboxCancelled\<rparr>))"

definition nextAttempt :: "time \<Rightarrow> duration \<Rightarrow> int \<Rightarrow> time" where
  "nextAttempt now base attempts =
     (if base \<le> 0 then now
      else
        let shift0 = attempts - 1;
            shift1 = (if shift0 < 0 then 0 else shift0);
            shift = (if shift1 > 30 then 30 else shift1);
            delay0 = wrap64 (base * 2 ^ nat shift);
            delay = (if delay0 < 0 then 24 * 3600000000000 else delay0)
        in now + delay)"

text \<open>
  The envelope; a JSONB column always holds valid JSON, and \<^verbatim>\<open>Time.MarshalJSON\<close> refuses years
  outside 0 to 9999.
\<close>

definition marshalEnvelope :: "externals \<Rightarrow> OutboxRecord \<Rightarrow> string + json" where
  "marshalEnvelope E record =
     (if \<not> year_ok (O_OccurredAt record) then Inl ''json: error calling MarshalJSON for type time.Time''
      else Inr (JObject (
        [(''eventId'', JString (uuid_String E (O_EventID record))),
         (''eventType'', JString (O_EventType record)),
         (''aggregateId'', JString (uuid_String E (O_AggregateID record)))] @
        omitempty ''correlationId'' (O_CorrelationID record) @
        omitempty ''causationId'' (O_CausationID record) @
        [(''occurredAt'', JString (time_Format E (O_OccurredAt record))),
         (''version'', JInt (O_Version record)),
         (''data'', O_Data record)])))"

text \<open>What the worker shares with the rest of the process, and what one event meets.\<close>

record Relay =
  rl_service :: Service
  rl_client :: Client
  rl_sent :: "sent_message list"

record outbox_tick =
  tick_claim :: tx_env
  tick_token :: uuid
  tick_skip :: "uuid list"
  tick_time :: time
  tick_url :: url_answer
  tick_send :: send_outcome
  tick_interfere :: "db \<Rightarrow> db"
  tick_mark :: tx_env

abbreviation relay_db :: "Relay \<Rightarrow> db" where
  "relay_db r \<equiv> svc_db (rl_service r)"

definition set_relay_db :: "db \<Rightarrow> Relay \<Rightarrow> Relay" where
  "set_relay_db d r = r\<lparr>rl_service := (rl_service r)\<lparr>svc_db := d\<rparr>\<rparr>"

definition retry ::
  "OutboxConfig \<Rightarrow> tx_env \<Rightarrow> OutboxRecord \<Rightarrow> uuid \<Rightarrow> time \<Rightarrow> string \<Rightarrow> db \<Rightarrow> unit result \<times> db" where
  "retry config env record token now processingErr d =
     outboxRepo_MarkRetry env (O_EventID record) token (O_Attempts record)
       (nextAttempt now (ob_Backoff config) (O_Attempts record)) processingErr (ob_MaxAttempts config) d"

definition processOne :: "externals \<Rightarrow> OutboxConfig \<Rightarrow> outbox_tick \<Rightarrow> Relay \<Rightarrow> (bool \<times> error option) \<times> Relay" where
  "processOne E config k r =
     (case WithTx (tick_claim k)
             (outboxRepo_ClaimOneRecord (tick_token k) (tick_skip k) (tick_time k) (ob_ClaimLease config)) (relay_db r) of
        (Inl err, d1) \<Rightarrow> ((False, Some err), set_relay_db d1 r)
      | (Inr record, d1) \<Rightarrow>
          let finish = (\<lambda>(res, d2) r. ((True, case res of Inl e \<Rightarrow> Some e | Inr _ \<Rightarrow> None), set_relay_db d2 r));
              d2 = tick_interfere k d1
          in case marshalEnvelope E record of
               Inl err \<Rightarrow> finish (retry config (tick_mark k) record (tick_token k) (tick_time k) err d2) r
             | Inr body \<Rightarrow>
                 (case Client_SendEvent (tick_url k) (tick_send k) body (uuid_String E (O_AggregateID record))
                         (uuid_String E (O_EventID record)) (rl_client r) of
                    (sendErr, ms, c) \<Rightarrow>
                      let r1 = r\<lparr>rl_client := c, rl_sent := rl_sent r @ ms\<rparr>
                      in case sendErr of
                           Some err \<Rightarrow>
                             finish (retry config (tick_mark k) record (tick_token k) (tick_time k) err d2)
                               (r1\<lparr>rl_service := (rl_service r1)\<lparr>svc_metrics :=
                                  ObserveRetry ''outbox'' (svc_metrics (rl_service r1))\<rparr>\<rparr>)
                         | None \<Rightarrow>
                             finish (outboxRepo_MarkPublished (tick_mark k) (O_EventID record) (tick_token k) (tick_time k) d2) r1))"

definition observeLag :: "error option \<Rightarrow> time \<Rightarrow> Relay \<Rightarrow> Relay" where
  "observeLag queryErr now r =
     (case queryErr of
        Some _ \<Rightarrow> r
      | None \<Rightarrow> r\<lparr>rl_service := (rl_service r)\<lparr>svc_metrics :=
          SetOutboxLag (outboxRepo_PendingLag now (relay_db r)) (svc_metrics (rl_service r))\<rparr>\<rparr>)"

text \<open>The inner loop over a batch: it counts the handled events and ends at the first error.\<close>

fun process_batch :: "externals \<Rightarrow> OutboxConfig \<Rightarrow> outbox_tick list \<Rightarrow> Relay \<Rightarrow> nat \<times> Relay" where
  "process_batch E config [] r = (0, r)"
| "process_batch E config (k # ks) r =
     (case processOne E config k r of
        ((handled, Some err), r1) \<Rightarrow> (0, r1)
      | ((handled, None), r1) \<Rightarrow>
          if \<not> handled then (0, r1)
          else let (n, r2) = process_batch E config ks r1 in (n + 1, r2))"

record outbox_round =
  round_lag :: "error option"
  round_now :: time
  round_ticks :: "nat \<Rightarrow> outbox_tick"
  round_cancelled :: bool

text \<open>One round of the loop runs a batch of the configured size, then goes on at once or waits.\<close>

fun outbox_loop :: "externals \<Rightarrow> OutboxConfig \<Rightarrow> outbox_round list \<Rightarrow> Relay \<Rightarrow> Relay" where
  "outbox_loop E config [] r = r"
| "outbox_loop E config (b # bs) r =
     (let (n, r1) = process_batch E config (map (round_ticks b) [0..<nat (ob_BatchSize config)])
                      (observeLag (round_lag b) (round_now b) r)
      in if n > 0 then outbox_loop E config bs r1
         else if round_cancelled b then r1
         else outbox_loop E config bs r1)"

section \<open>Backoff\<close>

lemma nextAttempt_eq: "nextAttempt n b k = n + (if b \<le> 0 then 0 else
    let delay = wrap64 (b * 2 ^ nat (clamp_shift k)) in if delay < 0 then day_ns else delay)"
proof -
  have "(let shift0 = k - 1; shift1 = (if shift0 < 0 then 0 else shift0) in
      if shift1 > 30 then 30 else shift1) = clamp_shift k"
    by (auto simp: clamp_shift_def Let_def)
  then show ?thesis by (simp add: nextAttempt_def Let_def day_ns_def)
qed

interpretation outbox_backoff: backoff nextAttempt
  by unfold_locales (simp_all add: nextAttempt_eq Let_def)

end
