(* ===== verification/Bank.thy ===== *)
theory Bank
  imports Outbox
begin

text \<open>
  An abstract specification of what the financial service promises about the database, stated without
  its control flow: a step opens a wallet, records or settles a transaction without moving money,
  moves the balance of one wallet together with one ledger entry and the events that announce it,
  reschedules a pending reference, or relays one event of the outbox. The invariant collects what the tables then satisfy, and every
  step preserves it. The theory \<open>Financial_Refinement\<close> shows that the operations of the service
  perform only such steps.
\<close>

section \<open>Rows and their relations\<close>

definition entries_of :: "uuid \<Rightarrow> db \<Rightarrow> LedgerRecord list" where
  "entries_of walletID d = filter (\<lambda>e. L_WalletID e = walletID) (db_ledger d)"

definition entries_for :: "uuid \<Rightarrow> db \<Rightarrow> LedgerRecord list" where
  "entries_for transactionID d = filter (\<lambda>e. L_TransactionID e = transactionID) (db_ledger d)"

text \<open>A transaction row that changed a balance.\<close>

definition moves :: "WagerTransactionRecord \<Rightarrow> bool" where
  "moves t \<longleftrightarrow> T_State t = Processed \<and> 0 < T_Amount t"

definition is_reversal :: "WagerTransactionRecord \<Rightarrow> bool" where
  "is_reversal t \<longleftrightarrow> T_Type t = Refund \<or> T_Type t = Rollback"

text \<open>The transaction that a reversal undoes.\<close>

definition reverses :: "WagerTransactionRecord \<Rightarrow> WagerTransactionRecord \<Rightarrow> bool" where
  "reverses t r \<longleftrightarrow> T_ProviderID r = T_ProviderID t \<and> T_ExternalID r = T_ReferenceExternalID t
     \<and> T_ReferenceExternalID t \<noteq> [] \<and> T_State r = Processed \<and> T_WalletID r = T_WalletID t
     \<and> T_PlayerID r = T_PlayerID t \<and> T_GameID r = T_GameID t \<and> T_RoundID r = T_RoundID t
     \<and> T_Amount r = T_Amount t \<and> T_Currency r = T_Currency t
     \<and> (T_Type r = Bet \<or> T_Type t = Rollback \<and> (T_Type r = Win \<or> T_Type r = Refund))"

text \<open>The direction in which a processed transaction moves its wallet; \<open>r\<close> is its reference.\<close>

definition movement_direction :: "Type \<Rightarrow> Type option \<Rightarrow> Direction" where
  "movement_direction k r =
     (if k = Bet then Debit
      else if k = Rollback then (if r = Some Bet then Credit else Debit)
      else Credit)"

definition entry_of :: "db \<Rightarrow> WagerTransactionRecord \<Rightarrow> LedgerRecord \<Rightarrow> bool" where
  "entry_of d t e \<longleftrightarrow> L_WalletID e = T_WalletID t \<and> L_TransactionID e = T_ID t \<and> L_Value e = T_Amount t
     \<and> L_Currency e = T_Currency t \<and>
     (if is_reversal t
      then \<exists>r \<in> set (db_wagers d). reverses t r \<and> L_Direction e = movement_direction (T_Type t) (Some (T_Type r))
      else L_Direction e = movement_direction (T_Type t) None)"

text \<open>The events a transaction announces when it reaches its state: type, aggregate and cause.\<close>

definition announced :: "externals \<Rightarrow> WagerTransactionRecord \<Rightarrow> (string \<times> uuid \<times> string) list" where
  "announced E t =
     (let c = uuid_String E (T_ID t) in
      if T_State t = Processed then
        (''WagerTransactionProcessed'', T_ID t, c) #
        (if 0 < T_Amount t then [(''WalletBalanceChanged'', T_WalletID t, c)] else [])
      else if T_State t = Rejected then [(''WagerTransactionRejected'', T_ID t, c)]
      else [(''WagerTransactionPendingReference'', T_ID t, c)])"

definition event_summary :: "OutboxRecord \<Rightarrow> string \<times> uuid \<times> string" where
  "event_summary o1 = (O_EventType o1, O_AggregateID o1, O_CausationID o1)"

text \<open>New rows of the outbox: numbered from the sequence, unpublished and unclaimed.\<close>

definition new_event :: "OutboxRecord \<Rightarrow> bool" where
  "new_event o1 \<longleftrightarrow> O_Status o1 = PENDING \<and> O_Attempts o1 = 0 \<and> O_ClaimToken o1 = None \<and> O_ClaimedAt o1 = None
     \<and> O_PublishedAt o1 = None"

definition emits :: "(string \<times> uuid \<times> string) list \<Rightarrow> db \<Rightarrow> db \<Rightarrow> bool" where
  "emits ss d d' \<longleftrightarrow> (\<exists>evs. db_outbox d' = db_outbox d @ evs \<and> map event_summary evs = ss \<and> list_all new_event evs
     \<and> map O_OrderingID evs = map (\<lambda>i. db_seq d + 1 + int i) [0..<length evs]
     \<and> distinct (map O_EventID evs) \<and> O_EventID ` set evs \<inter> O_EventID ` set (db_outbox d) = {}
     \<and> db_seq d' = db_seq d + int (length evs))"

definition wallet_row_ok :: "WalletRecord \<Rightarrow> bool" where
  "wallet_row_ok w \<longleftrightarrow> currencyPattern (W_Currency w) \<and> 0 \<le> W_Balance w \<and> W_Balance w \<le> max_int64
     \<and> 1 \<le> W_Version w \<and> W_Version w \<le> max_int64 \<and> W_PlayerID w \<noteq> []"

text \<open>What PostgreSQL has accepted of the texts of a row.\<close>

definition row_storable :: "externals \<Rightarrow> WagerTransactionRecord \<Rightarrow> bool" where
  "row_storable E t \<longleftrightarrow> list_all text_ok (row_texts t) \<and> index_fits E (T_ProviderID t) (T_ExternalID t)
     \<and> index_fits E (T_ProviderID t) (T_IdempotencyKey t)"

definition tx_row_ok :: "externals \<Rightarrow> WagerTransactionRecord \<Rightarrow> bool" where
  "tx_row_ok E t \<longleftrightarrow> T_State t \<in> {Processed, Rejected, PendingReference}
     \<and> T_Type t \<in> {Opening, Bet, Win, Loss, Refund, Rollback} \<and> (T_Type t = Loss \<longleftrightarrow> T_Amount t = 0)
     \<and> 0 \<le> T_Amount t \<and> T_Amount t \<le> max_int64 \<and> currencyPattern (T_Currency t)
     \<and> T_ExternalID t \<noteq> [] \<and> T_ProviderID t \<noteq> []
     \<and> (T_State t = PendingReference \<longrightarrow> is_reversal t \<and> T_ReferenceExternalID t \<noteq> []
        \<and> 0 \<le> T_ReferenceAttempts t \<and> T_ReferenceAttempts t \<le> 2147483647)
     \<and> (\<exists>r. replayResult E t = Inr r) \<and> row_storable E t"

text \<open>Writing a row: a fresh one is appended, a pending one is replaced in place.\<close>

definition fresh_tx :: "WagerTransactionRecord \<Rightarrow> db \<Rightarrow> bool" where
  "fresh_tx t d \<longleftrightarrow> (\<forall>r \<in> set (db_wagers d). T_ID r \<noteq> T_ID t
     \<and> \<not> (T_ProviderID r = T_ProviderID t \<and> T_ExternalID r = T_ExternalID t)
     \<and> \<not> (T_ProviderID r = T_ProviderID t \<and> T_IdempotencyKey r = T_IdempotencyKey t))"

definition same_identity :: "WagerTransactionRecord \<Rightarrow> WagerTransactionRecord \<Rightarrow> bool" where
  "same_identity t t' \<longleftrightarrow> T_ID t' = T_ID t \<and> T_ExternalID t' = T_ExternalID t \<and> T_ProviderID t' = T_ProviderID t
     \<and> T_WalletID t' = T_WalletID t \<and> T_PlayerID t' = T_PlayerID t \<and> T_GameID t' = T_GameID t
     \<and> T_RoundID t' = T_RoundID t \<and> T_Type t' = T_Type t \<and> T_Amount t' = T_Amount t \<and> T_Currency t' = T_Currency t
     \<and> T_IdempotencyKey t' = T_IdempotencyKey t \<and> T_PayloadHash t' = T_PayloadHash t
     \<and> T_ReferenceExternalID t' = T_ReferenceExternalID t"

inductive tx_write :: "WagerTransactionRecord \<Rightarrow> db \<Rightarrow> WagerTransactionRecord list \<Rightarrow> bool" where
  tx_append: "fresh_tx t d \<Longrightarrow> tx_write t d (db_wagers d @ [t])"
| tx_settle: "db_wagers d = xs @ old # ys \<Longrightarrow> T_State old = PendingReference \<Longrightarrow> same_identity old t \<Longrightarrow>
    tx_write t d (xs @ t # ys)"

inductive_cases tx_writeE: "tx_write t d ts"

text \<open>The movement of one wallet: its row before and after, and the entry between them.\<close>

definition movement :: "WalletRecord \<Rightarrow> WalletRecord \<Rightarrow> WagerTransactionRecord \<Rightarrow> LedgerRecord \<Rightarrow> bool" where
  "movement w w' t e \<longleftrightarrow> W_ID w' = W_ID w \<and> W_PlayerID w' = W_PlayerID w \<and> W_Currency w' = W_Currency w
     \<and> wallet_row_ok w' \<and> T_WalletID t = W_ID w \<and> T_Currency t = W_Currency w
     \<and> L_BalanceBefore e = W_Balance w \<and> L_BalanceAfter e = W_Balance w'
     \<and> W_Balance w' = W_Balance w + signed_entry e
     \<and> W_Version w' = (if T_Type t = Opening then W_Version w else W_Version w + 1)"

section \<open>Relaying events\<close>

text \<open>
  What the outbox protocol may do to one event: claim it once the earlier events of its aggregate are
  published, and publish, postpone or give up a claimed one.
\<close>

inductive relay_row :: "db \<Rightarrow> OutboxRecord \<Rightarrow> OutboxRecord \<Rightarrow> bool" where
  relay_claim: "O_Status e = PENDING \<or> O_Status e = CLAIMED \<Longrightarrow> predecessors_published d e \<Longrightarrow>
    relay_row d e (claimed_event now token e)"
| relay_publish: "O_Status e = CLAIMED \<Longrightarrow> relay_row d e (published_event now e)"
| relay_retry: "O_Status e = CLAIMED \<Longrightarrow> status = PENDING \<or> status = FAILED \<Longrightarrow>
    relay_row d e (retried_event status nextAttemptAt lastError e)"

definition event_key :: "OutboxRecord \<Rightarrow> uuid \<times> int \<times> string \<times> uuid \<times> string" where
  "event_key e = (O_EventID e, O_OrderingID e, O_EventType e, O_AggregateID e, O_CausationID e)"

definition same_events :: "db \<Rightarrow> db \<Rightarrow> bool" where
  "same_events d d' \<longleftrightarrow> map event_key (db_outbox d') = map event_key (db_outbox d) \<and> db_seq d' = db_seq d"

section \<open>Steps\<close>

inductive bank_step :: "externals \<Rightarrow> db \<Rightarrow> db \<Rightarrow> bool" for E where
  bank_skip: "db_wallets d' = db_wallets d \<Longrightarrow> db_wagers d' = db_wagers d \<Longrightarrow> db_ledger d' = db_ledger d \<Longrightarrow>
    emits [] d d' \<Longrightarrow> bank_step E d d'"
| bank_open: "wallet_row_ok w \<Longrightarrow> W_Balance w = 0 \<Longrightarrow> W_Version w = 1 \<Longrightarrow> W_ID w \<notin> W_ID ` set (db_wallets d) \<Longrightarrow>
    db_wallets d' = db_wallets d @ [w] \<Longrightarrow> db_wagers d' = db_wagers d \<Longrightarrow> db_ledger d' = db_ledger d \<Longrightarrow>
    emits [] d d' \<Longrightarrow> bank_step E d d'"
| bank_record: "tx_write t d (db_wagers d') \<Longrightarrow> tx_row_ok E t \<Longrightarrow> \<not> moves t \<Longrightarrow>
    w \<in> set (db_wallets d) \<Longrightarrow> T_WalletID t = W_ID w \<Longrightarrow> T_Currency t = W_Currency w \<Longrightarrow>
    T_State t = Processed \<longrightarrow> \<not> reversal_clash (T_ID t) (T_ProviderID t) (T_ReferenceExternalID t) (T_State t) d \<Longrightarrow>
    db_wallets d' = db_wallets d \<Longrightarrow> db_ledger d' = db_ledger d \<Longrightarrow> emits (announced E t) d d' \<Longrightarrow> bank_step E d d'"
| bank_retry: "db_wagers d = xs @ old # ys \<Longrightarrow> T_State old = PendingReference \<Longrightarrow> same_identity old t \<Longrightarrow>
    T_State t = PendingReference \<Longrightarrow> T_Result t = T_Result old \<Longrightarrow> T_FailureCode t = T_FailureCode old \<Longrightarrow>
    T_ReferenceAttempts t = T_ReferenceAttempts old + 1 \<Longrightarrow> T_ReferenceAttempts t \<le> 2147483647 \<Longrightarrow> db_wagers d' = xs @ t # ys \<Longrightarrow>
    db_wallets d' = db_wallets d \<Longrightarrow> db_ledger d' = db_ledger d \<Longrightarrow> emits [] d d' \<Longrightarrow> bank_step E d d'"
| bank_move: "tx_write t d (db_wagers d') \<Longrightarrow> tx_row_ok E t \<Longrightarrow> moves t \<Longrightarrow>
    db_wallets d = us @ w # vs \<Longrightarrow> db_wallets d' = us @ w' # vs \<Longrightarrow> movement w w' t e \<Longrightarrow> entry_of d t e \<Longrightarrow>
    db_ledger d' = db_ledger d @ [e] \<Longrightarrow>
    \<not> reversal_clash (T_ID t) (T_ProviderID t) (T_ReferenceExternalID t) (T_State t) d \<Longrightarrow>
    emits (announced E t) d d' \<Longrightarrow> bank_step E d d'"
| bank_relay: "db_outbox d = us @ e # vs \<Longrightarrow> relay_row d e e' \<Longrightarrow> db_outbox d' = us @ e' # vs \<Longrightarrow>
    db_wallets d' = db_wallets d \<Longrightarrow> db_wagers d' = db_wagers d \<Longrightarrow> db_ledger d' = db_ledger d \<Longrightarrow> db_seq d' = db_seq d \<Longrightarrow>
    bank_step E d d'"

inductive_cases bank_stepE: "bank_step E d d'"

section \<open>Invariant\<close>

definition wallets_ok :: "db \<Rightarrow> bool" where
  "wallets_ok d \<longleftrightarrow> distinct (map W_ID (db_wallets d)) \<and> (\<forall>w \<in> set (db_wallets d). wallet_row_ok w)"

definition balances_ok :: "db \<Rightarrow> bool" where
  "balances_ok d \<longleftrightarrow> (\<forall>w \<in> set (db_wallets d). ledger_chain 0 (entries_of (W_ID w) d) = Some (W_Balance w))"

definition entries_ok :: "db \<Rightarrow> bool" where
  "entries_ok d \<longleftrightarrow> (\<forall>e \<in> set (db_ledger d). L_TransactionID e \<in> T_ID ` set (db_wagers d) \<and>
     (\<exists>w \<in> set (db_wallets d). W_ID w = L_WalletID e \<and> scan_ok (W_Currency w) e))"

definition wagers_ok :: "externals \<Rightarrow> db \<Rightarrow> bool" where
  "wagers_ok E d \<longleftrightarrow> distinct (map T_ID (db_wagers d))
     \<and> distinct (map (\<lambda>t. (T_ProviderID t, T_ExternalID t)) (db_wagers d))
     \<and> distinct (map (\<lambda>t. (T_ProviderID t, T_IdempotencyKey t)) (db_wagers d))
     \<and> (\<forall>t \<in> set (db_wagers d). tx_row_ok E t \<and>
          (\<exists>w \<in> set (db_wallets d). W_ID w = T_WalletID t \<and> W_Currency w = T_Currency t))"

definition moves_ok :: "db \<Rightarrow> bool" where
  "moves_ok d \<longleftrightarrow> (\<forall>t \<in> set (db_wagers d).
     if moves t then \<exists>e. entries_for (T_ID t) d = [e] \<and> entry_of d t e else entries_for (T_ID t) d = [])"

definition reversals_ok :: "db \<Rightarrow> bool" where
  "reversals_ok d \<longleftrightarrow> (\<forall>t \<in> set (db_wagers d). \<forall>r \<in> set (db_wagers d). T_State t = Processed \<longrightarrow> T_State r = Processed \<longrightarrow>
     T_ReferenceExternalID t \<noteq> [] \<longrightarrow> T_ProviderID t = T_ProviderID r \<longrightarrow>
     T_ReferenceExternalID t = T_ReferenceExternalID r \<longrightarrow> T_ID t = T_ID r)"

definition versions_ok :: "db \<Rightarrow> bool" where
  "versions_ok d \<longleftrightarrow> (\<forall>w \<in> set (db_wallets d). W_Version w = 1 + int (length (filter
     (\<lambda>t. moves t \<and> T_WalletID t = W_ID w \<and> T_Type t \<noteq> Opening) (db_wagers d))))"

text \<open>How often an event of a kind was written for a transaction.\<close>

definition event_count :: "string \<Rightarrow> string \<Rightarrow> db \<Rightarrow> nat" where
  "event_count eventType causation d =
     length (filter (\<lambda>o1. O_EventType o1 = eventType \<and> O_CausationID o1 = causation) (db_outbox d))"

definition events_ok :: "externals \<Rightarrow> db \<Rightarrow> bool" where
  "events_ok E d \<longleftrightarrow> (\<forall>o1 \<in> set (db_outbox d). O_CausationID o1 \<in> (\<lambda>t. uuid_String E (T_ID t)) ` set (db_wagers d)) \<and>
     (\<forall>t \<in> set (db_wagers d). let c = uuid_String E (T_ID t) in
        event_count ''WagerTransactionProcessed'' c d = (if T_State t = Processed then 1 else 0) \<and>
        event_count ''WalletBalanceChanged'' c d = (if moves t then 1 else 0) \<and>
        event_count ''WagerTransactionRejected'' c d = (if T_State t = Rejected then 1 else 0))"

definition outbox_ok :: "db \<Rightarrow> bool" where
  "outbox_ok d \<longleftrightarrow> distinct (map O_EventID (db_outbox d)) \<and> sorted_wrt (<) (map O_OrderingID (db_outbox d))
     \<and> (\<forall>o1 \<in> set (db_outbox d). O_OrderingID o1 \<le> db_seq d)"

text \<open>An event that has left the pending state has only published predecessors, and the claim columns
  match the status.\<close>

definition event_ok :: "OutboxRecord \<Rightarrow> bool" where
  "event_ok e \<longleftrightarrow> (O_ClaimToken e = None \<longleftrightarrow> O_Status e \<noteq> CLAIMED) \<and> (O_ClaimedAt e = None \<longleftrightarrow> O_Status e \<noteq> CLAIMED)
     \<and> (O_PublishedAt e = None \<longleftrightarrow> O_Status e \<noteq> PUBLISHED)"

definition relay_ok :: "db \<Rightarrow> bool" where
  "relay_ok d \<longleftrightarrow> (\<forall>e \<in> set (db_outbox d). event_ok e \<and> (O_Status e \<noteq> PENDING \<longrightarrow> predecessors_published d e))"

definition bank_inv :: "externals \<Rightarrow> db \<Rightarrow> bool" where
  "bank_inv E d \<longleftrightarrow> wallets_ok d \<and> balances_ok d \<and> entries_ok d \<and> wagers_ok E d \<and> moves_ok d \<and> reversals_ok d
     \<and> versions_ok d \<and> events_ok E d \<and> outbox_ok d \<and> relay_ok d"

section \<open>Writing transaction rows\<close>

lemma tx_write_rows:
  assumes "tx_write t d ts" "distinct (map T_ID (db_wagers d))"
  shows "set ts = insert t {r \<in> set (db_wagers d). T_ID r \<noteq> T_ID t}"
    and "\<And>r. r \<in> set (db_wagers d) \<Longrightarrow> T_ID r = T_ID t \<Longrightarrow> T_State r = PendingReference \<and> same_identity r t"
proof -
  have "set ts = insert t {r \<in> set (db_wagers d). T_ID r \<noteq> T_ID t} \<and>
    (\<forall>r \<in> set (db_wagers d). T_ID r = T_ID t \<longrightarrow> T_State r = PendingReference \<and> same_identity r t)"
    using assms(1)
  proof cases
    case tx_append
    then show ?thesis by (auto simp: fresh_tx_def)
  next
    case (tx_settle xs old ys)
    then have i: "T_ID old = T_ID t" by (simp add: same_identity_def)
    have "T_ID t \<notin> T_ID ` set (xs @ ys)" using assms(2) tx_settle(2) i by auto
    then have "r \<in> set (xs @ ys) \<Longrightarrow> T_ID r \<noteq> T_ID t" for r by (metis image_eqI)
    with tx_settle i show ?thesis by auto
  qed
  then show "set ts = insert t {r \<in> set (db_wagers d). T_ID r \<noteq> T_ID t}"
    and "\<And>r. r \<in> set (db_wagers d) \<Longrightarrow> T_ID r = T_ID t \<Longrightarrow> T_State r = PendingReference \<and> same_identity r t"
    by auto
qed

lemma tx_write_distinct:
  assumes "tx_write t d ts" "distinct (map key (db_wagers d))"
    "fresh_tx t d \<Longrightarrow> key t \<notin> key ` set (db_wagers d)" "\<And>r. same_identity r t \<Longrightarrow> key r = key t"
  shows "distinct (map key ts)"
  using assms(1)
proof cases
  case tx_append
  with assms(2,3) show ?thesis by auto
next
  case (tx_settle xs old ys)
  with assms(2) assms(4) [of old] show ?thesis by auto
qed

lemma tx_write_count:
  assumes "tx_write t d ts" "\<And>r. T_State r = PendingReference \<Longrightarrow> \<not> P r"
  shows "length (filter P ts) = length (filter P (db_wagers d)) + (if P t then 1 else 0)"
  using assms by (auto elim!: tx_writeE)

lemma retry_write:
  "db_wagers d = xs @ old # ys \<Longrightarrow> T_State old = PendingReference \<Longrightarrow> same_identity old t \<Longrightarrow>
   db_wagers d' = xs @ t # ys \<Longrightarrow> tx_write t d (db_wagers d')"
  by (simp add: tx_settle)

text \<open>A processed row stays, whatever is written.\<close>

lemma tx_write_keeps:
  assumes "tx_write t d ts" "distinct (map T_ID (db_wagers d))" "r \<in> set (db_wagers d)" "T_State r \<noteq> PendingReference"
  shows "r \<in> set ts \<and> T_ID r \<noteq> T_ID t"
  using tx_write_rows [OF assms(1,2)] assms(3,4) by auto

lemma replay_same_row:
  assumes "same_identity old t" "T_State t = T_State old" "T_Result t = T_Result old"
  shows "replayResult E t = replayResult E old"
  using assms by (auto simp: replayResult_def same_identity_def split: option.split sum.split)

lemma retry_row_ok:
  assumes "tx_row_ok E old" "same_identity old t" "T_State old = PendingReference" "T_State t = PendingReference"
    "T_Result t = T_Result old" "T_FailureCode t = T_FailureCode old" "T_ReferenceAttempts t = T_ReferenceAttempts old + 1"
    "T_ReferenceAttempts t \<le> 2147483647"
  shows "tx_row_ok E t"
  using assms replay_same_row [of old t E]
  by (simp add: tx_row_ok_def same_identity_def is_reversal_def row_storable_def row_texts_def)

section \<open>Writing events\<close>

lemma emits_count:
  assumes "emits ss d d'"
  shows "event_count k c d' = event_count k c d + length (filter (\<lambda>(k', _, c'). k' = k \<and> c' = c) ss)"
proof -
  from assms obtain evs where evs: "db_outbox d' = db_outbox d @ evs" "ss = map event_summary evs"
    by (auto simp: emits_def)
  then show ?thesis
    by (simp add: event_count_def filter_map comp_def event_summary_def)
qed

lemma emits_causes:
  assumes "emits ss d d'"
  shows "O_CausationID ` set (db_outbox d') = O_CausationID ` set (db_outbox d) \<union> (snd \<circ> snd) ` set ss"
  using assms by (force simp: emits_def event_summary_def)

lemma emits_outbox_ok:
  assumes "emits ss d d'" "outbox_ok d"
  shows "outbox_ok d'"
proof -
  from assms(1) obtain evs where evs: "db_outbox d' = db_outbox d @ evs"
    "map O_OrderingID evs = map (\<lambda>i. db_seq d + 1 + int i) [0..<length evs]"
    "distinct (map O_EventID evs)" "O_EventID ` set evs \<inter> O_EventID ` set (db_outbox d) = {}"
    "db_seq d' = db_seq d + int (length evs)"
    by (auto simp: emits_def)
  have new: "x \<in> O_OrderingID ` set evs \<Longrightarrow> db_seq d < x \<and> x \<le> db_seq d'" for x
    using arg_cong [OF evs(2), of set] evs(5) by auto
  have "sorted_wrt (<) (map O_OrderingID evs)"
    unfolding evs(2) by (simp add: sorted_wrt_map sorted_wrt_iff_nth_less)
  moreover have "\<forall>x \<in> O_OrderingID ` set (db_outbox d). \<forall>y \<in> O_OrderingID ` set evs. x < y"
    using new assms(2) by (fastforce simp: outbox_ok_def)
  ultimately have "sorted_wrt (<) (map O_OrderingID (db_outbox d'))"
    using assms(2) by (auto simp: evs(1) outbox_ok_def sorted_wrt_append)
  moreover have "\<forall>o1 \<in> set (db_outbox d'). O_OrderingID o1 \<le> db_seq d'"
    using assms(2) new evs(1,5) by (fastforce simp: outbox_ok_def)
  moreover have "distinct (map O_EventID (db_outbox d'))"
    using assms(2) evs(1,3,4) by (auto simp: outbox_ok_def)
  ultimately show ?thesis by (simp add: outbox_ok_def)
qed

lemma emits_same: "emits [] d d' \<Longrightarrow> same_events d d'"
  by (simp add: emits_def same_events_def)

lemma relay_key: "relay_row d e e' \<Longrightarrow> event_key e' = event_key e"
  by (erule relay_row.cases) (auto simp: event_key_def claimed_event_def published_event_def retried_event_def)

lemma relay_same: "db_outbox d = us @ e # vs \<Longrightarrow> relay_row d e e' \<Longrightarrow> db_outbox d' = us @ e' # vs \<Longrightarrow> db_seq d' = db_seq d \<Longrightarrow>
    same_events d d'"
  by (auto simp: same_events_def dest: relay_key)

lemma same_events_map:
  assumes "same_events d d'" "\<And>e. f e = g (event_key e)"
  shows "map f (db_outbox d') = map f (db_outbox d)"
proof -
  have "f = g \<circ> event_key" by (rule ext) (simp add: assms(2))
  then have "map f xs = map g (map event_key xs)" for xs by simp
  moreover have "map event_key (db_outbox d') = map event_key (db_outbox d)" using assms(1) by (simp add: same_events_def)
  ultimately show ?thesis by metis
qed

lemma same_events_outbox_ok:
  assumes "same_events d d'" "outbox_ok d"
  shows "outbox_ok d'"
proof -
  have ids: "map O_EventID (db_outbox d') = map O_EventID (db_outbox d)"
    by (rule same_events_map [OF assms(1), where g = fst]) (simp add: event_key_def)
  have ords: "map O_OrderingID (db_outbox d') = map O_OrderingID (db_outbox d)"
    by (rule same_events_map [OF assms(1), where g = "\<lambda>k. fst (snd k)"]) (simp add: event_key_def)
  have "O_OrderingID e \<le> db_seq d'" if "e \<in> set (db_outbox d')" for e
  proof -
    have "O_OrderingID e \<in> set (map O_OrderingID (db_outbox d))" unfolding ords [symmetric] using that by simp
    then show ?thesis using assms by (auto simp: outbox_ok_def same_events_def)
  qed
  with assms ids ords show ?thesis by (simp add: outbox_ok_def)
qed

lemma event_count_map:
  "event_count k c d = length (filter (\<lambda>x. x = (k, c)) (map (\<lambda>e. (O_EventType e, O_CausationID e)) (db_outbox d)))"
  by (simp add: event_count_def filter_map comp_def)

lemma same_events_count: "same_events d d' \<Longrightarrow> event_count k c d' = event_count k c d"
  unfolding event_count_map
  by (subst same_events_map [of d d' _ "\<lambda>k. (fst (snd (snd k)), snd (snd (snd (snd k))))"]) (simp_all add: event_key_def)

lemma same_events_causes:
  assumes "same_events d d'"
  shows "O_CausationID ` set (db_outbox d') = O_CausationID ` set (db_outbox d)"
proof -
  have "map O_CausationID (db_outbox d') = map O_CausationID (db_outbox d)"
    by (rule same_events_map [OF assms, where g = "\<lambda>k. snd (snd (snd (snd k)))"]) (simp add: event_key_def)
  from arg_cong [OF this, of set] show ?thesis by simp
qed

text \<open>New events come last and are pending, so they precede no other event.\<close>

lemma emits_relay_ok:
  assumes "emits ss d d'" "relay_ok d" "outbox_ok d"
  shows "relay_ok d'"
proof -
  from assms(1) obtain evs where evs: "db_outbox d' = db_outbox d @ evs" "list_all new_event evs"
    "map O_OrderingID evs = map (\<lambda>i. db_seq d + 1 + int i) [0..<length evs]"
    by (auto simp: emits_def)
  have late: "p \<in> set evs \<Longrightarrow> e \<in> set (db_outbox d) \<Longrightarrow> \<not> O_OrderingID p < O_OrderingID e" for p e
  proof -
    assume p: "p \<in> set evs" and e: "e \<in> set (db_outbox d)"
    have "O_OrderingID p \<in> set (map O_OrderingID evs)" using p by simp
    then have "db_seq d < O_OrderingID p" unfolding evs(3) by auto
    moreover have "O_OrderingID e \<le> db_seq d" using e assms(3) by (simp add: outbox_ok_def)
    ultimately show ?thesis by simp
  qed
  have "predecessors_published d' e" if "e \<in> set (db_outbox d)" "predecessors_published d e" for e
    using that late by (auto simp: predecessors_published_def evs(1) list_ex_iff)
  with assms(2) evs show ?thesis
    by (auto simp: relay_ok_def list_all_iff new_event_def event_ok_def)
qed

lemma relay_relay_ok:
  assumes "db_outbox d = us @ e # vs" "relay_row d e e'" "db_outbox d' = us @ e' # vs" "relay_ok d"
  shows "relay_ok d'"
proof -
  have key: "O_AggregateID e' = O_AggregateID e" "O_OrderingID e' = O_OrderingID e"
    using relay_key [OF assms(2)] by (simp_all add: event_key_def)
  have e: "e \<in> set (db_outbox d)" "event_ok e" "O_Status e \<noteq> PENDING \<longrightarrow> predecessors_published d e" "O_Status e \<noteq> PUBLISHED"
    using assms(1,2,4) by (auto simp: relay_ok_def elim: relay_row.cases)
  have mono: "predecessors_published d' x" if "predecessors_published d x" for x
    using that e(4) key by (auto simp: predecessors_published_def assms(1,3) list_ex_iff)
  have "predecessors_published d' e'" if "O_Status e' \<noteq> PENDING"
  proof -
    have "predecessors_published d e" using assms(2) e(3) by cases auto
    then show ?thesis using mono key by (simp add: predecessors_published_def)
  qed
  moreover have "event_ok e'"
    using assms(2) e(2) by cases (auto simp: event_ok_def claimed_event_def published_event_def retried_event_def)
  ultimately show ?thesis using assms(4) mono by (auto simp: relay_ok_def assms(1,3))
qed

section \<open>Every step preserves the invariant\<close>

lemmas bank_inv_parts = bank_inv_def wagers_ok_def wallets_ok_def

lemma bank_invD:
  assumes "bank_inv E d"
  shows "distinct (map T_ID (db_wagers d))" "distinct (map W_ID (db_wallets d))"
    "\<And>w. w \<in> set (db_wallets d) \<Longrightarrow> wallet_row_ok w" "\<And>t. t \<in> set (db_wagers d) \<Longrightarrow> tx_row_ok E t"
  using assms by (auto simp: bank_inv_parts)

lemma wallets_step: "bank_inv E d \<Longrightarrow> bank_step E d d' \<Longrightarrow> wallets_ok d'"
  by (erule bank_stepE) (auto simp: bank_inv_def wallets_ok_def movement_def)

lemma step_wallets:
  "bank_step E d d' \<Longrightarrow> w \<in> set (db_wallets d) \<Longrightarrow> \<exists>w' \<in> set (db_wallets d'). W_ID w' = W_ID w \<and> W_Currency w' = W_Currency w"
  by (erule bank_stepE) (auto simp: movement_def)

lemma outbox_step: "bank_inv E d \<Longrightarrow> bank_step E d d' \<Longrightarrow> outbox_ok d'"
  by (erule bank_stepE) (auto simp: bank_inv_def intro: emits_outbox_ok same_events_outbox_ok [OF relay_same])

lemma relay_step: "bank_inv E d \<Longrightarrow> bank_step E d d' \<Longrightarrow> relay_ok d'"
  by (erule bank_stepE) (auto simp: bank_inv_def intro: emits_relay_ok relay_relay_ok)

text \<open>
  The rows of a step in one form: nothing is written, or one row \<open>t\<close> with the entries
  \<open>es\<close> and the events \<open>ss\<close>.
\<close>

lemma step_rows:
  assumes "bank_inv E d" "bank_step E d d'"
  obtains "db_wagers d' = db_wagers d" "db_ledger d' = db_ledger d" "same_events d d'"
  | t es ss where "tx_write t d (db_wagers d')" "tx_row_ok E t"
      "\<exists>w \<in> set (db_wallets d). W_ID w = T_WalletID t \<and> W_Currency w = T_Currency t"
      "\<not> reversal_clash (T_ID t) (T_ProviderID t) (T_ReferenceExternalID t) (T_State t) d"
      "db_ledger d' = db_ledger d @ es" "if moves t then \<exists>e. es = [e] \<and> entry_of d t e else es = []"
      "emits ss d d'" "ss = announced E t \<or> ss = [] \<and> T_State t = PendingReference"
  using assms(2)
proof cases
  case (bank_record t w)
  then show ?thesis by (intro that(2) [of t "[]" "announced E t"]) (auto simp: reversal_clash_def)
next
  case (bank_retry xs old ys t)
  have old: "old \<in> set (db_wagers d)" using bank_retry by simp
  with assms(1) obtain w where "w \<in> set (db_wallets d)" "W_ID w = T_WalletID old" "W_Currency w = T_Currency old"
    by (auto simp: bank_inv_parts)
  with bank_retry(3) have "\<exists>w \<in> set (db_wallets d). W_ID w = T_WalletID t \<and> W_Currency w = T_Currency t"
    by (auto simp: same_identity_def)
  moreover have "tx_row_ok E t"
    using bank_invD(4) [OF assms(1) old] bank_retry(3,2,4-8) by (rule retry_row_ok)
  moreover have "tx_write t d (db_wagers d')" using bank_retry(1-3,9) by (rule retry_write)
  ultimately show ?thesis using bank_retry
    by (intro that(2) [of t "[]" "[]"]) (auto simp: reversal_clash_def moves_def)
next
  case (bank_move t us w vs w' e)
  then show ?thesis by (intro that(2) [of t "[e]" "announced E t"]) (auto simp: movement_def)
qed (auto intro: that emits_same relay_same)

lemma wagers_step:
  assumes "bank_inv E d" "bank_step E d d'"
  shows "wagers_ok E d'"
  using assms
proof (cases rule: step_rows)
  case 1
  with assms show ?thesis using step_wallets [OF assms(2)] by (fastforce simp: bank_inv_def wagers_ok_def)
next
  case (2 t es ss)
  note rows = tx_write_rows [OF 2(1) bank_invD(1) [OF assms(1)]]
  have "distinct (map T_ID (db_wagers d'))" "distinct (map (\<lambda>t. (T_ProviderID t, T_ExternalID t)) (db_wagers d'))"
    "distinct (map (\<lambda>t. (T_ProviderID t, T_IdempotencyKey t)) (db_wagers d'))"
    using assms(1)
    by (auto intro!: tx_write_distinct [OF 2(1)] simp: bank_inv_parts fresh_tx_def same_identity_def)
  moreover have "tx_row_ok E r \<and> (\<exists>w \<in> set (db_wallets d'). W_ID w = T_WalletID r \<and> W_Currency w = T_Currency r)"
    if "r \<in> set (db_wagers d')" for r
  proof -
    have "tx_row_ok E r \<and> (\<exists>w \<in> set (db_wallets d). W_ID w = T_WalletID r \<and> W_Currency w = T_Currency r)"
      using that rows(1) 2 assms(1) by (auto simp: bank_inv_parts)
    then show ?thesis using step_wallets [OF assms(2)] by fastforce
  qed
  ultimately show ?thesis by (simp add: wagers_ok_def)
qed

lemma reversals_step:
  assumes "bank_inv E d" "bank_step E d d'"
  shows "reversals_ok d'"
  using assms
proof (cases rule: step_rows)
  case 1
  moreover have "reversals_ok d" using assms(1) by (simp add: bank_inv_def)
  ultimately show ?thesis by (simp only: reversals_ok_def)
next
  case (2 t es ss)
  note rows = tx_write_rows [OF 2(1) bank_invD(1) [OF assms(1)]]
  have old: "reversals_ok d" using assms(1) by (simp add: bank_inv_def)
  have clash: "T_State t = Processed \<Longrightarrow> T_ReferenceExternalID t \<noteq> [] \<Longrightarrow> r \<in> set (db_wagers d) \<Longrightarrow>
    T_ProviderID r = T_ProviderID t \<Longrightarrow> T_ReferenceExternalID r = T_ReferenceExternalID t \<Longrightarrow>
    T_State r = Processed \<Longrightarrow> T_ID r = T_ID t" for r
    using 2(4) by (auto simp: reversal_clash_def list_ex_iff)
  show ?thesis
    unfolding reversals_ok_def
  proof (intro ballI impI)
    fix a b
    assume "a \<in> set (db_wagers d')" "b \<in> set (db_wagers d')"
      and p: "T_State a = Processed" "T_State b = Processed" "T_ReferenceExternalID a \<noteq> []"
        "T_ProviderID a = T_ProviderID b" "T_ReferenceExternalID a = T_ReferenceExternalID b"
    then consider "a = t" "b = t" | "a = t" "b \<in> set (db_wagers d)" | "a \<in> set (db_wagers d)" "b = t"
      | "a \<in> set (db_wagers d)" "b \<in> set (db_wagers d)"
      using rows(1) by auto
    then show "T_ID a = T_ID b"
    proof cases
      case 2
      with clash [of b] p show ?thesis by metis
    next
      case 3
      with clash [of a] p show ?thesis by metis
    next
      case 4
      with old p show ?thesis unfolding reversals_ok_def by blast
    qed simp
  qed
qed

lemma step_ids:
  assumes "bank_inv E d" "bank_step E d d'"
  shows "T_ID ` set (db_wagers d) \<subseteq> T_ID ` set (db_wagers d')"
  using assms
proof (cases rule: step_rows)
  case (2 t es ss)
  note rows = tx_write_rows [OF 2(1) bank_invD(1) [OF assms(1)]]
  show ?thesis unfolding rows(1) by auto
qed simp

lemma movement_scan_ok:
  assumes "movement w w' t e" "entry_of d t e" "tx_row_ok E t" "moves t" "wallet_row_ok w"
  shows "scan_ok (W_Currency w') e" "L_WalletID e = W_ID w"
proof -
  have "L_Direction e = Credit \<or> L_Direction e = Debit"
    using assms(2) by (auto simp: entry_of_def movement_direction_def split: if_splits)
  with assms show "scan_ok (W_Currency w') e" "L_WalletID e = W_ID w"
    by (auto simp: scan_ok_def movement_def entry_of_def moves_def wallet_row_ok_def)
qed

lemma entries_step:
  assumes "bank_inv E d" "bank_step E d d'"
  shows "entries_ok d'"
proof -
  have old: "L_TransactionID e \<in> T_ID ` set (db_wagers d') \<and>
      (\<exists>w \<in> set (db_wallets d'). W_ID w = L_WalletID e \<and> scan_ok (W_Currency w) e)"
    if "e \<in> set (db_ledger d)" for e
  proof -
    from that assms(1) obtain w where w: "w \<in> set (db_wallets d)" "W_ID w = L_WalletID e" "scan_ok (W_Currency w) e"
      and i: "L_TransactionID e \<in> T_ID ` set (db_wagers d)"
      by (auto simp: bank_inv_def entries_ok_def)
    from step_wallets [OF assms(2) w(1)] w step_ids [OF assms] i show ?thesis by (metis subsetD)
  qed
  from assms(2) show ?thesis
  proof cases
    case (bank_move t us w vs w' e)
    have "t \<in> set (db_wagers d')"
      using tx_write_rows(1) [OF bank_move(1) bank_invD(1) [OF assms(1)]] by simp
    moreover have "L_TransactionID e = T_ID t" using bank_move(7) by (simp add: entry_of_def)
    moreover have "wallet_row_ok w" using bank_invD(3) [OF assms(1)] bank_move(4) by simp
    note scan = movement_scan_ok [OF bank_move(6,7,2,3) this]
    have "w' \<in> set (db_wallets d')" "W_ID w' = L_WalletID e"
      using bank_move(5,6) scan(2) by (simp_all add: movement_def)
    ultimately show ?thesis using old scan(1) bank_move(8) by (auto simp: entries_ok_def)
  qed (use old in \<open>auto simp: entries_ok_def\<close>)
qed

lemma moved_wallets:
  assumes "distinct (map W_ID (us @ w # vs))" "x \<in> set (us @ vs)"
  shows "W_ID x \<noteq> W_ID w"
  using assms by (auto simp: fresh_image)

lemma balances_step:
  assumes "bank_inv E d" "bank_step E d d'"
  shows "balances_ok d'"
proof -
  have old: "balances_ok d" "entries_ok d" using assms(1) by (auto simp: bank_inv_def)
  from assms(2) show ?thesis
  proof cases
    case (bank_open w)
    have "entries_of (W_ID w) d = []"
      using old(2) bank_open(4) unfolding entries_of_def entries_ok_def filter_empty_conv fresh_image by metis
    with bank_open old(1) show ?thesis by (auto simp: balances_ok_def entries_of_def)
  next
    case (bank_move t us w vs w' e)
    have "wallet_row_ok w" using bank_invD(3) [OF assms(1)] bank_move(4) by simp
    note scan = movement_scan_ok [OF bank_move(6,7,2,3) this]
    have dist: "x \<in> set (us @ vs) \<Longrightarrow> W_ID x \<noteq> W_ID w" for x
      using bank_invD(2) [OF assms(1)] bank_move(4) moved_wallets by simp
    have ent: "entries_of i d' = entries_of i d @ (if i = W_ID w then [e] else [])" for i
      using bank_move(8) scan(2) by (auto simp: entries_of_def)
    have "ledger_chain 0 (entries_of (W_ID w) d) = Some (W_Balance w)"
      using old(1) bank_move(4) by (simp add: balances_ok_def)
    then have "ledger_chain 0 (entries_of (W_ID w') d') = Some (W_Balance w')"
      using bank_move(6) by (simp add: ent ledger_chain_append movement_def)
    moreover have "x \<in> set (us @ vs) \<Longrightarrow> ledger_chain 0 (entries_of (W_ID x) d') = Some (W_Balance x)" for x
      using old(1) bank_move(4) dist [of x] by (simp add: ent balances_ok_def)
    ultimately show ?thesis using bank_move(5) by (auto simp: balances_ok_def)
  qed (use old in \<open>auto simp: balances_ok_def entries_of_def\<close>)
qed

lemma pending_not_moves: "T_State r = PendingReference \<Longrightarrow> \<not> moves r"
  by (simp add: moves_def)

lemma versions_step:
  assumes "bank_inv E d" "bank_step E d d'"
  shows "versions_ok d'"
proof -
  let ?P = "\<lambda>i t. moves t \<and> T_WalletID t = i \<and> T_Type t \<noteq> Opening"
  have old: "w \<in> set (db_wallets d) \<Longrightarrow> W_Version w = 1 + int (length (filter (?P (W_ID w)) (db_wagers d)))" for w
    using assms(1) by (auto simp: bank_inv_def versions_ok_def)
  have count: "tx_write t d ts \<Longrightarrow> length (filter (?P i) ts) = length (filter (?P i) (db_wagers d)) + (if ?P i t then 1 else 0)"
    for t ts i by (rule tx_write_count) (auto simp: moves_def)
  from assms(2) show ?thesis
  proof cases
    case bank_skip
    with old show ?thesis by (auto simp: versions_ok_def)
  next
    case (bank_open w)
    have "t \<in> set (db_wagers d) \<Longrightarrow> T_WalletID t \<noteq> W_ID w" for t
      using assms(1) bank_open(4) unfolding bank_inv_parts fresh_image by metis
    then have "filter (?P (W_ID w)) (db_wagers d) = []" by (auto simp: filter_empty_conv)
    with bank_open old show ?thesis by (auto simp: versions_ok_def)
  next
    case (bank_record t w)
    with old count [OF bank_record(1)] show ?thesis by (auto simp: versions_ok_def)
  next
    case (bank_retry xs old' ys t)
    have "tx_write t d (db_wagers d')" using bank_retry(1-3,9) by (rule retry_write)
    from count [OF this] bank_retry old show ?thesis by (auto simp: versions_ok_def pending_not_moves)
  next
    case (bank_move t us w vs w' e)
    have dist: "x \<in> set (us @ vs) \<Longrightarrow> W_ID x \<noteq> W_ID w" for x
      using bank_invD(2) [OF assms(1)] bank_move(4) moved_wallets by simp
    have "W_Version w' = 1 + int (length (filter (?P (W_ID w')) (db_wagers d')))"
      using old [of w] bank_move count [OF bank_move(1), of "W_ID w"] by (simp add: movement_def)
    moreover have "x \<in> set (us @ vs) \<Longrightarrow> W_Version x = 1 + int (length (filter (?P (W_ID x)) (db_wagers d')))" for x
      using old [of x] bank_move(4,6) dist [of x] count [OF bank_move(1), of "W_ID x"] by (simp add: movement_def)
    ultimately show ?thesis using bank_move(5) by (auto simp: versions_ok_def)
  next
    case (bank_relay us e vs e')
    with old show ?thesis by (simp add: versions_ok_def)
  qed
qed

lemma step_keeps:
  assumes "bank_inv E d" "bank_step E d d'" "r \<in> set (db_wagers d)" "T_State r \<noteq> PendingReference"
  shows "r \<in> set (db_wagers d')"
  using assms(1,2)
proof (cases rule: step_rows)
  case (2 t es ss)
  show ?thesis using tx_write_keeps [OF 2(1) bank_invD(1) [OF assms(1)] assms(3,4)] by simp
qed (simp add: assms(3))

lemma entry_of_step:
  assumes "bank_inv E d" "bank_step E d d'" "entry_of d t e"
  shows "entry_of d' t e"
proof -
  have "reverses t r \<Longrightarrow> r \<in> set (db_wagers d) \<Longrightarrow> r \<in> set (db_wagers d')" for r
    using step_keeps [OF assms(1,2)] by (simp add: reverses_def)
  with assms(3) show ?thesis by (auto simp: entry_of_def split: if_splits)
qed

text \<open>Before it is written, a transaction has no entry and no event that announces an outcome.\<close>

lemma no_entries_before:
  assumes "bank_inv E d" "tx_write t d ts"
  shows "entries_for (T_ID t) d = []"
proof (cases "T_ID t \<in> T_ID ` set (db_wagers d)")
  case True
  then obtain r where r: "r \<in> set (db_wagers d)" "T_ID r = T_ID t" by auto
  then have "\<not> moves r" using tx_write_rows(2) [OF assms(2) bank_invD(1) [OF assms(1)]] by (auto simp: moves_def)
  with r assms(1) show ?thesis by (force simp: bank_inv_def moves_ok_def)
next
  case False
  with assms(1) show ?thesis
    unfolding bank_inv_def entries_ok_def entries_for_def filter_empty_conv by metis
qed

lemma moves_step:
  assumes "bank_inv E d" "bank_step E d d'"
  shows "moves_ok d'"
proof -
  have old: "moves_ok d" using assms(1) by (simp add: bank_inv_def)
  from assms show ?thesis
  proof (cases rule: step_rows)
    case 1
    then have "entries_for i d' = entries_for i d" "entry_of d' t e = entry_of d t e" for i t e
      by (auto simp: entries_for_def entry_of_def)
    with 1 old show ?thesis by (simp add: moves_ok_def)
  next
    case (2 t es ss)
    note rows = tx_write_rows [OF 2(1) bank_invD(1) [OF assms(1)]]
    have es: "e \<in> set es \<Longrightarrow> L_TransactionID e = T_ID t" for e
      using 2(6) by (auto simp: entry_of_def split: if_splits)
    have ent: "entries_for i d' = entries_for i d @ (if i = T_ID t then es else [])" for i
      using es by (auto simp: entries_for_def 2(5) filter_empty_conv intro: filter_True)
    have new: "if moves t then \<exists>e. entries_for (T_ID t) d' = [e] \<and> entry_of d' t e else entries_for (T_ID t) d' = []"
      using 2(6) no_entries_before [OF assms(1) 2(1)] entry_of_step [OF assms] by (auto simp: ent split: if_splits)
    have other: "if moves r then \<exists>e. entries_for (T_ID r) d' = [e] \<and> entry_of d' r e else entries_for (T_ID r) d' = []"
      if "r \<in> set (db_wagers d)" "T_ID r \<noteq> T_ID t" for r
      using old that entry_of_step [OF assms] by (force simp: ent moves_ok_def)
    show ?thesis using new other by (auto simp: moves_ok_def rows(1))
  qed
qed

definition outcome_kinds :: "string list" where
  "outcome_kinds = [''WagerTransactionProcessed'', ''WalletBalanceChanged'', ''WagerTransactionRejected'']"

definition expected_count :: "string \<Rightarrow> WagerTransactionRecord \<Rightarrow> nat" where
  "expected_count k t =
     (if k = ''WagerTransactionProcessed'' then (if T_State t = Processed then 1 else 0)
      else if k = ''WalletBalanceChanged'' then (if moves t then 1 else 0)
      else (if T_State t = Rejected then 1 else 0))"

lemma events_ok_alt:
  "events_ok E d \<longleftrightarrow> (\<forall>o1 \<in> set (db_outbox d). O_CausationID o1 \<in> (\<lambda>t. uuid_String E (T_ID t)) ` set (db_wagers d)) \<and>
     (\<forall>t \<in> set (db_wagers d). \<forall>k \<in> set outcome_kinds. event_count k (uuid_String E (T_ID t)) d = expected_count k t)"
  by (simp add: events_ok_def outcome_kinds_def expected_count_def Let_def)

lemma announced_count:
  assumes "tx_row_ok E t" "k \<in> set outcome_kinds"
  shows "length (filter (\<lambda>(k', _, c'). k' = k \<and> c' = uuid_String E (T_ID t)) (announced E t)) = expected_count k t"
  using assms
  by (auto simp: announced_def expected_count_def outcome_kinds_def moves_def tx_row_ok_def Let_def)

lemma announced_cause: "s \<in> set (announced E t) \<Longrightarrow> snd (snd s) = uuid_String E (T_ID t)"
  by (auto simp: announced_def Let_def split: if_splits)

lemma no_events_before:
  assumes "bank_inv E d" "tx_write t d ts" "externals_ok E" "k \<in> set outcome_kinds"
  shows "event_count k (uuid_String E (T_ID t)) d = 0"
proof (cases "T_ID t \<in> T_ID ` set (db_wagers d)")
  case True
  then obtain r where r: "r \<in> set (db_wagers d)" "T_ID r = T_ID t" by auto
  then have "T_State r = PendingReference" using tx_write_rows(2) [OF assms(2) bank_invD(1) [OF assms(1)]] by auto
  then have "expected_count k r = 0" by (simp add: expected_count_def moves_def)
  with r assms(1,4) show ?thesis by (auto simp: bank_inv_def events_ok_alt)
next
  case False
  then have "uuid_String E (T_ID t) \<notin> (\<lambda>t. uuid_String E (T_ID t)) ` set (db_wagers d)"
    using uuid_String_inj [OF assms(3)] by auto
  with assms(1) show ?thesis
    unfolding bank_inv_def events_ok_alt event_count_def length_0_conv filter_empty_conv by metis
qed

lemma events_step:
  assumes "bank_inv E d" "bank_step E d d'" "externals_ok E"
  shows "events_ok E d'"
proof -
  have old: "events_ok E d" using assms(1) by (simp add: bank_inv_def)
  have causes: "(\<lambda>t. uuid_String E (T_ID t)) ` set (db_wagers d) \<subseteq> (\<lambda>t. uuid_String E (T_ID t)) ` set (db_wagers d')"
    using step_ids [OF assms(1,2)] by auto
  from assms(1,2) show ?thesis
  proof (cases rule: step_rows)
    case 1
    have "O_CausationID o1 \<in> (\<lambda>t. uuid_String E (T_ID t)) ` set (db_wagers d)" if "o1 \<in> set (db_outbox d')" for o1
    proof -
      have "O_CausationID o1 \<in> O_CausationID ` set (db_outbox d)" using that same_events_causes [OF 1(3)] by blast
      then show ?thesis using old by (auto simp: events_ok_alt)
    qed
    with old 1(1) same_events_count [OF 1(3)] show ?thesis by (simp add: events_ok_alt)
  next
    case (2 t es ss)
    note rows = tx_write_rows [OF 2(1) bank_invD(1) [OF assms(1)]]
    have ss: "s \<in> set ss \<Longrightarrow> snd (snd s) = uuid_String E (T_ID t)" for s
      using 2(8) announced_cause [of s E t] by auto
    have tin: "t \<in> set (db_wagers d')" by (simp add: rows(1))
    have "o1 \<in> set (db_outbox d') \<Longrightarrow> O_CausationID o1 \<in> (\<lambda>t. uuid_String E (T_ID t)) ` set (db_wagers d')" for o1
    proof -
      assume "o1 \<in> set (db_outbox d')"
      then have "O_CausationID o1 \<in> O_CausationID ` set (db_outbox d) \<union> (snd \<circ> snd) ` set ss"
        using emits_causes [OF 2(7)] by blast
      then show ?thesis using old causes ss tin by (auto simp: events_ok_alt)
    qed
    moreover have "event_count k (uuid_String E (T_ID t)) d' = expected_count k t" if k: "k \<in> set outcome_kinds" for k
    proof -
      have "event_count k (uuid_String E (T_ID t)) d' =
          length (filter (\<lambda>(k', _, c'). k' = k \<and> c' = uuid_String E (T_ID t)) ss)"
        using emits_count [OF 2(7)] no_events_before [OF assms(1) 2(1) assms(3) k] by simp
      moreover have "T_State t = PendingReference \<Longrightarrow> expected_count k t = 0"
        by (simp add: expected_count_def moves_def)
      ultimately show ?thesis using 2(8) announced_count [OF 2(2) k] by auto
    qed
    moreover have "event_count k (uuid_String E (T_ID r)) d' = expected_count k r"
      if r: "r \<in> set (db_wagers d)" "T_ID r \<noteq> T_ID t" and k: "k \<in> set outcome_kinds" for k r
    proof -
      have "uuid_String E (T_ID t) \<noteq> uuid_String E (T_ID r)" using r uuid_String_inj [OF assms(3)] by simp
      then have "filter (\<lambda>(k', _, c'). k' = k \<and> c' = uuid_String E (T_ID r)) ss = []"
        using ss by (fastforce simp: filter_empty_conv)
      with emits_count [OF 2(7)] old r k show ?thesis by (simp add: events_ok_alt)
    qed
    ultimately show ?thesis by (auto simp: events_ok_alt rows(1))
  qed
qed

lemma bank_inv_step:
  assumes "externals_ok E" "bank_inv E d" "bank_step E d d'"
  shows "bank_inv E d'"
  using wallets_step [OF assms(2,3)] balances_step [OF assms(2,3)] entries_step [OF assms(2,3)]
    wagers_step [OF assms(2,3)] moves_step [OF assms(2,3)] reversals_step [OF assms(2,3)]
    versions_step [OF assms(2,3)] events_step [OF assms(2,3,1)] outbox_step [OF assms(2,3)]
    relay_step [OF assms(2,3)]
  by (simp add: bank_inv_def)

lemma bank_inv_steps:
  assumes "(bank_step E)\<^sup>*\<^sup>* d d'" "externals_ok E" "bank_inv E d"
  shows "bank_inv E d'"
  using assms by (induction rule: rtranclp_induct) (auto intro: bank_inv_step)

lemma bank_inv_empty: "bank_inv E empty_db"
  by (simp add: bank_inv_def empty_db_def wallets_ok_def balances_ok_def entries_ok_def wagers_ok_def moves_ok_def
      reversals_ok_def versions_ok_def events_ok_def outbox_ok_def relay_ok_def)

lemma moves_okD:
  assumes "moves_ok d" "t \<in> set (db_wagers d)" "moves t"
  shows "\<exists>e. entries_for (T_ID t) d = [e] \<and> entry_of d t e"
  using bspec [OF assms(1) [unfolded moves_ok_def] assms(2)] assms(3) by simp

text \<open>A row keeps its identity for ever, and its whole contents once it is settled.\<close>

lemma step_row:
  assumes "bank_inv E d" "bank_step E d d'" "t \<in> set (db_wagers d)"
  shows "\<exists>t' \<in> set (db_wagers d'). same_identity t t' \<and> (T_State t \<noteq> PendingReference \<longrightarrow> t' = t)"
proof (cases "t \<in> set (db_wagers d')")
  case True
  then show ?thesis by (auto simp: same_identity_def)
next
  case False
  from assms(1,2) show ?thesis
  proof (cases rule: step_rows)
    case 1
    with False assms(3) show ?thesis by simp
  next
    case (2 u es ss)
    note rows = tx_write_rows [OF 2(1) bank_invD(1) [OF assms(1)]]
    from False assms(3) rows(1) have "T_ID t = T_ID u" by auto
    with rows assms(3) show ?thesis by auto
  qed
qed

lemma steps_row:
  assumes "(bank_step E)\<^sup>*\<^sup>* d d'" "externals_ok E" "bank_inv E d" "t \<in> set (db_wagers d)"
  shows "\<exists>t' \<in> set (db_wagers d'). same_identity t t' \<and> (T_State t \<noteq> PendingReference \<longrightarrow> t' = t)"
  using assms
proof (induction rule: rtranclp_induct)
  case base
  then show ?case by (auto simp: same_identity_def)
next
  case (step y z)
  then obtain t' where t': "t' \<in> set (db_wagers y)" "same_identity t t'" "T_State t \<noteq> PendingReference \<longrightarrow> t' = t" by blast
  from step_row [OF bank_inv_steps [OF step(1) assms(2,3)] step(2) t'(1)] obtain t'' where
    "t'' \<in> set (db_wagers z)" "same_identity t' t''" "T_State t' \<noteq> PendingReference \<longrightarrow> t'' = t'" by blast
  moreover from this t'(2) have "same_identity t t''" by (simp add: same_identity_def)
  ultimately show ?case using t'(3) by auto
qed

end
