(* ===== verification/References.thy ===== *)
theory References
  imports Financial Backoff
begin

text \<open>
  The resolution of pending references: \<^verbatim>\<open>ProcessPendingReference\<close> and its helpers in
  \<^verbatim>\<open>internal/application/financial/service.go\<close>, and the worker of
  \<^verbatim>\<open>reference_worker.go\<close> with its lifecycle. A claimed record is passed on as the code does,
  \<open>locked\<close> are the rows that other sessions hold.
\<close>

section \<open>Model\<close>

definition nextReferenceAttempt :: "time \<Rightarrow> duration \<Rightarrow> int \<Rightarrow> time" where
  "nextReferenceAttempt now base attempt =
     (if base \<le> 0 then now
      else
        let shift0 = attempt - 1;
            shift1 = (if shift0 < 0 then 0 else shift0);
            shift = (if shift1 > 30 then 30 else shift1);
            delay0 = wrap64 (base * 2 ^ nat shift);
            delay = (if delay0 < 0 then 24 * 3600000000000 else delay0)
        in now + delay)"

definition commandFromRecord :: "WagerTransactionRecord \<Rightarrow> Command result" where
  "commandFromRecord record =
     bindR (moneyFromMinor (T_Amount record) (T_Currency record)) (\<lambda>amount.
       Inr \<lparr>C_ID = T_ID record, C_WalletID = T_WalletID record, C_ExternalID = T_ExternalID record,
            C_ProviderID = T_ProviderID record, C_PlayerID = T_PlayerID record, C_GameID = T_GameID record,
            C_RoundID = T_RoundID record, C_IdempotencyKey = T_IdempotencyKey record,
            C_PayloadHash = T_PayloadHash record, C_ReferenceExternalID = T_ReferenceExternalID record,
            C_Type = T_Type record, C_Amount = amount\<rparr>)"

definition rejectPendingReferenceInTx ::
  "externals \<Rightarrow> draws \<Rightarrow> WagerTransactionRecord \<Rightarrow> Command \<Rightarrow> time \<Rightarrow> string \<Rightarrow> db \<Rightarrow> (bool \<times> db) result" where
  "rejectPendingReferenceInTx E dr record command now failureCode d =
     bindR (walletRepo_FindForUpdate (C_WalletID command) d) (\<lambda>walletRecord.
     bindR (wager_New (uuid_String E (C_ID command)) (C_ExternalID command) (C_ProviderID command)
              (uuid_String E (C_WalletID command)) (C_Type command) (C_Amount command)) (\<lambda>txDomain.
     bindR (wager_Transition txDomain PendingReference) (\<lambda>txDomain.
     bindR (wager_Transition txDomain Rejected) (\<lambda>_.
     let result = \<lparr>R_TransactionID = C_ID command, R_State = Rejected, R_Balance = W_Balance walletRecord,
                   R_Amount = C_Amount command, R_FailureCode = failureCode\<rparr>
     in bindR (wagerRepo_UpdatePendingReference (index_fits E)
            (record\<lparr>T_State := R_State result, T_Result := Some (marshalResult E result),
                    T_ReferenceNextAttemptAt := None, T_FailureCode := failureCode, T_UpdatedAt := now\<rparr>) d) (\<lambda>d1.
        bindR (insertEvent E (draw_event dr) ''WagerTransactionRejected'' (C_Type command) (C_ID command)
                 (C_WalletID command) result (W_Version walletRecord) now (C_IdempotencyKey command) [] d1) (\<lambda>d2.
          Inr (False, d2)))))))"

definition advancePendingReferenceInTx ::
  "externals \<Rightarrow> draws \<Rightarrow> WagerTransactionRecord \<Rightarrow> time \<Rightarrow> int \<Rightarrow> duration \<Rightarrow> string \<Rightarrow> db \<Rightarrow> (bool \<times> db) result" where
  "advancePendingReferenceInTx E dr record now maxAttempts base exhaustionCode d =
     (let record = record\<lparr>T_ReferenceAttempts := wrap64 (T_ReferenceAttempts record + 1)\<rparr>
      in if T_ReferenceAttempts record \<ge> maxAttempts
         then bindR (commandFromRecord record) (\<lambda>command.
              bindR (rejectPendingReferenceInTx E dr record command now exhaustionCode d) (\<lambda>(_, d1).
                Inr (False, d1)))
         else bindR (wagerRepo_UpdatePendingReference (index_fits E)
                (record\<lparr>T_ReferenceNextAttemptAt := Some (nextReferenceAttempt now base (T_ReferenceAttempts record)),
                        T_UpdatedAt := now\<rparr>) d) (\<lambda>d1.
                Inr (True, d1)))"

definition processPendingReferenceInTx ::
  "externals \<Rightarrow> draws \<Rightarrow> WagerTransactionRecord \<Rightarrow> time \<Rightarrow> int \<Rightarrow> duration \<Rightarrow> db \<Rightarrow> (bool \<times> db) result" where
  "processPendingReferenceInTx E dr record now maxAttempts base d =
     bindR (commandFromRecord record) (\<lambda>command.
     bindR (wagerRepo_LockReferenceIdentity (T_ProviderID record) (T_ReferenceExternalID record) d) (\<lambda>_.
       case wagerRepo_FindByExternal (T_ProviderID record) (T_ReferenceExternalID record) d of
         Inl err \<Rightarrow>
           if err = ErrNoRows
           then advancePendingReferenceInTx E dr record now maxAttempts base FailureCodeReferenceNotFound d
           else Inl err
       | Inr reference \<Rightarrow>
           if T_State reference \<noteq> Processed then
             if T_State reference = Pending \<or> T_State reference = PendingReference
             then advancePendingReferenceInTx E dr record now maxAttempts base FailureCodeReferenceNotResolved d
             else bindR (rejectPendingReferenceInTx E dr record command now FailureCodeReferenceNotSuccessful d)
                    (\<lambda>(_, d1). Inr (False, d1))
           else if \<not> validReference command reference
           then bindR (rejectPendingReferenceInTx E dr record command now FailureCodeReferenceInvalid d)
                  (\<lambda>(_, d1). Inr (False, d1))
           else
             bindR (walletRepo_FindForUpdate (C_WalletID command) d) (\<lambda>walletRecord.
             bindR (wager_New (uuid_String E (C_ID command)) (C_ExternalID command) (C_ProviderID command)
                      (uuid_String E (C_WalletID command)) (C_Type command) (C_Amount command)) (\<lambda>txDomain.
             bindR (wager_Transition txDomain PendingReference) (\<lambda>txDomain.
             bindR (applyOperationInTx E dr command walletRecord txDomain (Some reference) (Some record) now d)
               (\<lambda>(_, d1). Inr (False, d1)))))))"

text \<open>
  The function of the transaction and its outcome: the flags \<^verbatim>\<open>processed\<close> and
  \<^verbatim>\<open>retryScheduled\<close>.
\<close>

definition claimPendingReferenceInTx ::
  "externals \<Rightarrow> draws \<Rightarrow> uuid list \<Rightarrow> time \<Rightarrow> int \<Rightarrow> duration \<Rightarrow> db \<Rightarrow> ((bool \<times> bool) \<times> db) result" where
  "claimPendingReferenceInTx E dr locked now maxAttempts base d =
     (case wagerRepo_FindNextPendingReferenceForUpdate locked now d of
        Inl err \<Rightarrow> if err = ErrNoRows then Inr ((False, False), d) else Inl err
      | Inr record \<Rightarrow>
          bindR (processPendingReferenceInTx E dr record now maxAttempts base d) (\<lambda>(retryScheduled, d1).
            Inr ((True, retryScheduled), d1)))"

text \<open>
  The flag \<^verbatim>\<open>processed\<close> is a variable outside the transaction's function, set as soon as a
  record is claimed: it stays set when the function or the commit fails.
\<close>

definition claimed_some :: "tx_env \<Rightarrow> uuid list \<Rightarrow> time \<Rightarrow> db \<Rightarrow> bool" where
  "claimed_some env locked now d \<longleftrightarrow> begin_error env = None \<and>
     (case wagerRepo_FindNextPendingReferenceForUpdate locked now d of Inr _ \<Rightarrow> True | Inl _ \<Rightarrow> False)"

definition ProcessPendingReference ::
  "externals \<Rightarrow> tx_env \<Rightarrow> draws \<Rightarrow> uuid list \<Rightarrow> time \<Rightarrow> int \<Rightarrow> duration \<Rightarrow> Service \<Rightarrow> (bool \<times> error option) \<times> Service" where
  "ProcessPendingReference E env dr locked now maxAttempts base s =
     (let maxAttempts = (if maxAttempts < 1 then 1 else maxAttempts)
      in case WithTx env (claimPendingReferenceInTx E dr locked now maxAttempts base) (svc_db s) of
           (Inr (processed, retryScheduled), d) \<Rightarrow>
             ((processed, None),
              s\<lparr>svc_db := d, svc_metrics :=
                  if retryScheduled then ObserveRetry ''pending_reference'' (svc_metrics s) else svc_metrics s\<rparr>)
         | (Inl err, d) \<Rightarrow> ((claimed_some env locked now (svc_db s), Some err), s\<lparr>svc_db := d\<rparr>))"

section \<open>The worker\<close>

record ReferenceWorkerConfig =
  rw_PollInterval :: duration
  rw_MaxAttempts :: int
  rw_Backoff :: duration

text \<open>A worker holds at most one run; a run is cancelled and then done.\<close>

datatype run_status = Running | Cancelled | Done

record ReferenceWorker =
  rw_config :: ReferenceWorkerConfig
  rw_active :: "run_status option"

definition NewReferenceWorker :: "ReferenceWorkerConfig \<Rightarrow> ReferenceWorker" where
  "NewReferenceWorker config =
     (let c1 = (if rw_PollInterval config \<le> 0 then config\<lparr>rw_PollInterval := 1000000000\<rparr> else config);
          c2 = (if rw_MaxAttempts c1 < 1 then c1\<lparr>rw_MaxAttempts := 10\<rparr> else c1);
          c3 = (if rw_Backoff c2 < 0 then c2\<lparr>rw_Backoff := 0\<rparr> else c2)
      in \<lparr>rw_config = c3, rw_active = None\<rparr>)"

definition ReferenceWorker_Start :: "error option \<Rightarrow> ReferenceWorker \<Rightarrow> error option \<times> ReferenceWorker" where
  "ReferenceWorker_Start ctxErr w =
     (case ctxErr of
        Some e \<Rightarrow> (Some e, w)
      | None \<Rightarrow> if rw_active w \<noteq> None then (None, w) else (None, w\<lparr>rw_active := Some Running\<rparr>))"

text \<open>\<open>finished\<close> tells which branch of the select is taken: the run ended, or the context of
  the caller did, with its error.\<close>

definition ReferenceWorker_Stop :: "bool \<Rightarrow> error \<Rightarrow> ReferenceWorker \<Rightarrow> error option \<times> ReferenceWorker" where
  "ReferenceWorker_Stop finished ctxErr w =
     (case rw_active w of
        None \<Rightarrow> (None, w)
      | Some r \<Rightarrow> if finished then (None, w\<lparr>rw_active := None\<rparr>) else (Some ctxErr, w\<lparr>rw_active := Some Cancelled\<rparr>))"

text \<open>
  What one iteration of the loop meets: the connection, the random values, the rows other sessions
  hold, the clock, and whether the run has been cancelled.
\<close>

record tick =
  tick_env :: tx_env
  tick_draws :: draws
  tick_locked :: "uuid list"
  tick_now :: time
  tick_cancelled :: bool

datatype loop_next = Again | Sleep | Stopped

definition ReferenceWorker_iteration ::
  "externals \<Rightarrow> ReferenceWorkerConfig \<Rightarrow> tick \<Rightarrow> Service \<Rightarrow> loop_next \<times> Service" where
  "ReferenceWorker_iteration E config t s =
     (case ProcessPendingReference E (tick_env t) (tick_draws t) (tick_locked t) (tick_now t)
             (rw_MaxAttempts config) (rw_Backoff config) s of
        ((processed, err), s1) \<Rightarrow>
          let s2 = (if err \<noteq> None \<and> \<not> tick_cancelled t
                    then s1\<lparr>svc_metrics := ObserveRetry ''pending_reference'' (svc_metrics s1)\<rparr> else s1)
          in if processed then (Again, s2) else if tick_cancelled t then (Stopped, s2) else (Sleep, s2))"

text \<open>The loop over a sequence of iterations; it returns how many of them it ran.\<close>

fun ReferenceWorker_run ::
  "externals \<Rightarrow> ReferenceWorkerConfig \<Rightarrow> tick list \<Rightarrow> Service \<Rightarrow> nat \<times> Service" where
  "ReferenceWorker_run E config [] s = (0, s)"
| "ReferenceWorker_run E config (t # ts) s =
     (case ReferenceWorker_iteration E config t s of
        (Stopped, s1) \<Rightarrow> (1, s1)
      | (_, s1) \<Rightarrow> (let (n, s2) = ReferenceWorker_run E config ts s1 in (n + 1, s2)))"

section \<open>Backoff\<close>

interpretation reference_backoff: backoff nextReferenceAttempt
proof
  show "b \<le> 0 \<Longrightarrow> nextReferenceAttempt n b k = n" for n b k
    by (simp add: nextReferenceAttempt_def)
next
  fix n b k :: int assume "0 < b"
  have "(let shift0 = k - 1; shift1 = (if shift0 < 0 then 0 else shift0) in
      if shift1 > 30 then 30 else shift1) = clamp_shift k"
    by (auto simp: clamp_shift_def Let_def)
  with \<open>0 < b\<close> show "nextReferenceAttempt n b k =
      n + (let delay = wrap64 (b * 2 ^ nat (clamp_shift k)) in if delay < 0 then day_ns else delay)"
    by (simp add: nextReferenceAttempt_def Let_def day_ns_def)
qed

end
