(* ===== verification/Financial_Refinement.thy ===== *)
theory Financial_Refinement
  imports Bank References
begin

text \<open>
  The simulation of \<open>Bank\<close> by the financial service: every statement sequence of
  \<^verbatim>\<open>service.go\<close> that commits performs steps of the specification. The first lemmas describe
  what a successful statement has checked and written, the next ones the domain operation and the row,
  entry and events written for it, the last ones the transactions of the service.
\<close>

section \<open>Statements\<close>

definition same_tables :: "db \<Rightarrow> db \<Rightarrow> bool" where
  "same_tables d d' \<longleftrightarrow> db_wallets d' = db_wallets d \<and> db_wagers d' = db_wagers d \<and> db_ledger d' = db_ledger d
     \<and> db_inbox d' = db_inbox d"

lemma emits_refl: "emits [] d d"
  by (simp add: emits_def)

lemma emits_cong:
  "db_outbox d = db_outbox e \<Longrightarrow> db_seq d = db_seq e \<Longrightarrow> db_outbox d' = db_outbox e' \<Longrightarrow> db_seq d' = db_seq e' \<Longrightarrow>
   emits ss d d' \<longleftrightarrow> emits ss e e'"
  by (simp add: emits_def)

lemma emits_trans:
  assumes "emits ss d d1" "emits ts d1 d2"
  shows "emits (ss @ ts) d d2"
proof -
  from assms(1) obtain xs where xs: "db_outbox d1 = db_outbox d @ xs" "map event_summary xs = ss" "list_all new_event xs"
    "map O_OrderingID xs = map (\<lambda>i. db_seq d + 1 + int i) [0..<length xs]" "distinct (map O_EventID xs)"
    "O_EventID ` set xs \<inter> O_EventID ` set (db_outbox d) = {}" "db_seq d1 = db_seq d + int (length xs)"
    by (auto simp: emits_def)
  from assms(2) obtain ys where ys: "db_outbox d2 = db_outbox d1 @ ys" "map event_summary ys = ts" "list_all new_event ys"
    "map O_OrderingID ys = map (\<lambda>i. db_seq d1 + 1 + int i) [0..<length ys]" "distinct (map O_EventID ys)"
    "O_EventID ` set ys \<inter> O_EventID ` set (db_outbox d1) = {}" "db_seq d2 = db_seq d1 + int (length ys)"
    by (auto simp: emits_def)
  have "[0..<length xs + length ys] = [0..<length xs] @ map (\<lambda>i. i + length xs) [0..<length ys]"
    by (simp add: map_add_upt upt_add_eq_append [of 0] add.commute)
  then have "map O_OrderingID (xs @ ys) = map (\<lambda>i. db_seq d + 1 + int i) [0..<length (xs @ ys)]"
    using xs(4,7) ys(4) by (simp add: comp_def algebra_simps)
  moreover have "distinct (map O_EventID (xs @ ys))" "O_EventID ` set (xs @ ys) \<inter> O_EventID ` set (db_outbox d) = {}"
    using xs(1,5,6) ys(5,6) by auto
  ultimately show ?thesis
    unfolding emits_def using xs(1-3,7) ys(1-3,7) by (intro exI [of _ "xs @ ys"]) simp
qed

lemma insertWithMetadata_Inr:
  assumes "outboxRepo_InsertWithMetadata i ty ag co ca v occ data nx d = Inr d'"
  shows "1 \<le> v \<and> emits [(ty, ag, ca)] d d' \<and> same_tables d d'"
  using assms
  by (auto simp: outboxRepo_InsertWithMetadata_def outbox_constraints_def result_simps Let_def emits_def event_summary_def
      new_event_def same_tables_def list_ex_iff)

lemma insertEvent_Inr:
  assumes "insertEvent E i ty k ag wid r v now co cs d = Inr d'"
  shows "1 \<le> v \<and> emits [(ty, ag, uuid_String E (R_TransactionID r))] d d' \<and> same_tables d d'"
  using assms by (cases cs) (auto simp: insertEvent_def Let_def dest: insertWithMetadata_Inr)

lemma same_tables_trans: "same_tables d d1 \<Longrightarrow> same_tables d1 d2 \<Longrightarrow> same_tables d d2"
  by (simp add: same_tables_def)

lemma insertFinancialEvents_Inr:
  assumes "insertFinancialEvents E dr k wid r v now co changed ch d = Inr d'"
  shows "emits ((''WagerTransactionProcessed'', R_TransactionID r, uuid_String E (R_TransactionID r)) #
      (if changed then [(''WalletBalanceChanged'', wid, uuid_String E (R_TransactionID r))] else [])) d d' \<and> same_tables d d'"
proof -
  from assms obtain d1 where d1: "insertEvent E (draw_event dr) ''WagerTransactionProcessed'' k (R_TransactionID r) wid r
      v now co [] d = Inr d1"
    and d': "if changed then insertEvent E (draw_change dr) ''WalletBalanceChanged'' k wid wid r v now co [ch] d1 = Inr d'
             else d' = d1"
    by (auto simp: insertFinancialEvents_def result_simps split: if_splits)
  note e1 = insertEvent_Inr [OF d1]
  show ?thesis
  proof (cases changed)
    case True
    with d' have "insertEvent E (draw_change dr) ''WalletBalanceChanged'' k wid wid r v now co [ch] d1 = Inr d'" by simp
    note e2 = insertEvent_Inr [OF this]
    from True e1 e2 emits_trans [of _ d d1 _ d'] show ?thesis by (fastforce intro: same_tables_trans)
  next
    case False
    with d' e1 show ?thesis by simp
  qed
qed

text \<open>The row that records a result of a command.\<close>

definition row_for :: "externals \<Rightarrow> Command \<Rightarrow> Result \<Rightarrow> WagerTransactionRecord \<Rightarrow> bool" where
  "row_for E cmd r t \<longleftrightarrow> T_ID t = C_ID cmd \<and> T_ExternalID t = C_ExternalID cmd \<and> T_ProviderID t = C_ProviderID cmd
     \<and> T_WalletID t = C_WalletID cmd \<and> T_PlayerID t = C_PlayerID cmd \<and> T_GameID t = C_GameID cmd
     \<and> T_RoundID t = C_RoundID cmd \<and> T_Type t = C_Type cmd \<and> T_Amount t = minor (C_Amount cmd)
     \<and> T_Currency t = currency (C_Amount cmd) \<and> T_IdempotencyKey t = C_IdempotencyKey cmd
     \<and> T_PayloadHash t = C_PayloadHash cmd \<and> T_ReferenceExternalID t = C_ReferenceExternalID cmd
     \<and> T_State t = R_State r \<and> T_Result t = Some (marshalResult E r) \<and> T_FailureCode t = R_FailureCode r"

definition result_of :: "Command \<Rightarrow> Result \<Rightarrow> bool" where
  "result_of cmd r \<longleftrightarrow> R_TransactionID r = C_ID cmd \<and> R_Amount r = C_Amount cmd \<and> 0 \<le> R_Balance r \<and> R_Balance r \<le> max_int64
     \<and> R_State r \<in> {Processed, Rejected, PendingReference} \<and> text_ok (R_FailureCode r)"

lemma row_for_replay:
  assumes "externals_ok E" "row_for E cmd r t" "result_of cmd r" "money_valid (C_Amount cmd)"
  shows "replayResult E t = Inr r"
proof -
  have "result_wf r"
    using assms(3,4) by (auto simp: result_of_def result_wf_def declared_state_def int64_defs)
  from result_roundtrip [OF assms(1) this] assms(2,3) show ?thesis
    by (simp add: replayResult_def row_for_def result_of_def text_ok_valid)
qed

text \<open>What the domain constructor has checked of a command.\<close>

definition command_ok :: "Command \<Rightarrow> bool" where
  "command_ok cmd \<longleftrightarrow> C_ExternalID cmd \<noteq> [] \<and> C_ProviderID cmd \<noteq> [] \<and> validExternalType (C_Type cmd)
     \<and> validAmount (C_Type cmd) (C_Amount cmd) \<and> money_valid (C_Amount cmd)"

lemma wager_New_command_ok:
  assumes "wager_New i (C_ExternalID cmd) (C_ProviderID cmd) wid (C_Type cmd) (C_Amount cmd) = Inr t"
    "money_wf (C_Amount cmd)"
  shows "command_ok cmd" "tx_state t = Pending"
  using assms money_wf_valid [of "C_Amount cmd"]
  by (auto simp: result_simps command_ok_def validAmount_def split: if_splits)

lemma row_for_ok:
  assumes "externals_ok E" "row_for E cmd r t" "result_of cmd r" "command_ok cmd" "row_storable E t"
    "R_State r = PendingReference \<Longrightarrow> (C_Type cmd = Refund \<or> C_Type cmd = Rollback) \<and> C_ReferenceExternalID cmd \<noteq> []
      \<and> 0 \<le> T_ReferenceAttempts t \<and> T_ReferenceAttempts t \<le> 2147483647"
  shows "tx_row_ok E t"
proof -
  have m: "money_valid (C_Amount cmd)" using assms(4) by (simp add: command_ok_def)
  from row_for_replay [OF assms(1-3) m] assms(2-6) m show ?thesis
    by (auto simp: tx_row_ok_def row_for_def result_of_def command_ok_def validExternalType_iff validAmount_iff
        money_valid_def is_reversal_def)
qed

lemma insertTransaction_Inr:
  assumes "insertTransaction E cmd r now d = Inr d1"
  defines "t \<equiv> transaction_row E cmd r now"
  shows "d1 = d\<lparr>db_wagers := db_wagers d @ [t]\<rparr>" "row_for E cmd r t" "fresh_tx t d"
    "\<not> reversal_clash (T_ID t) (T_ProviderID t) (T_ReferenceExternalID t) (T_State t) d"
    "\<exists>w \<in> set (db_wallets d). W_ID w = T_WalletID t \<and> W_Currency w = T_Currency t"
    "T_ReferenceAttempts t = 0" "row_storable E t"
  using assms(1)
  by (auto simp: insertTransaction_def wagerRepo_Insert_def wager_transactions_constraints_def wager_transactions_checks_def
      result_simps list_ex_iff fresh_tx_def row_for_def row_storable_def row_texts_def transaction_row_def t_def)

lemma update_where_split:
  assumes "distinct (map key (xs @ old # ys))" "key old = k"
  shows "update_where (\<lambda>r. key r = k) f (xs @ old # ys) = xs @ f old # ys"
proof -
  have "\<forall>r \<in> set xs \<union> set ys. key r \<noteq> k" using assms by (auto simp: fresh_image)
  then have "update_where (\<lambda>r. key r = k) f xs = xs" "update_where (\<lambda>r. key r = k) f ys = ys"
    by (auto intro: update_where_id)
  with assms(2) show ?thesis by (simp add: update_where_def)
qed

lemma updatePending_Inr:
  assumes "wagerRepo_UpdatePendingReference (index_fits E) rec d = Inr d1" "db_wagers d = xs @ old # ys" "T_ID rec = T_ID old"
    "distinct (map T_ID (db_wagers d))"
  defines "t \<equiv> old\<lparr>T_State := T_State rec, T_Result := T_Result rec, T_ReferenceAttempts := T_ReferenceAttempts rec,
      T_ReferenceNextAttemptAt := T_ReferenceNextAttemptAt rec, T_FailureCode := T_FailureCode rec,
      T_UpdatedAt := T_UpdatedAt rec\<rparr>"
  shows "d1 = d\<lparr>db_wagers := xs @ t # ys\<rparr>" "same_identity old t" "0 \<le> T_ReferenceAttempts rec \<and> T_ReferenceAttempts rec \<le> 2147483647"
    "text_ok (T_FailureCode rec)" "\<not> reversal_clash (T_ID t) (T_ProviderID t) (T_ReferenceExternalID t) (T_State t) d"
proof -
  have "find (\<lambda>t. T_ID t = T_ID rec) (db_wagers d) = Some old"
    using assms(2-4) find_distinct_key [of T_ID "db_wagers d" old] by simp
  with assms(1) have chk: "0 \<le> T_ReferenceAttempts rec \<and> T_ReferenceAttempts rec \<le> 2147483647" "text_ok (T_FailureCode rec)"
    "\<not> reversal_clash (T_ID rec) (T_ProviderID old) (T_ReferenceExternalID old) (T_State rec) d"
    and d1: "d1 = d\<lparr>db_wagers := update_where (\<lambda>t. T_ID t = T_ID rec)
           (\<lambda>t. t\<lparr>T_State := T_State rec, T_Result := T_Result rec,
                  T_ReferenceAttempts := T_ReferenceAttempts rec,
                  T_ReferenceNextAttemptAt := T_ReferenceNextAttemptAt rec,
                  T_FailureCode := T_FailureCode rec, T_UpdatedAt := T_UpdatedAt rec\<rparr>) (db_wagers d)\<rparr>"
    by (auto simp: wagerRepo_UpdatePendingReference_def result_simps)
  have "T_ID old = T_ID rec" using assms(3) by simp
  from update_where_split [OF assms(4) [unfolded assms(2)] this] d1 assms(2)
  show "d1 = d\<lparr>db_wagers := xs @ t # ys\<rparr>" by (simp add: t_def)
  show "same_identity old t" by (simp add: same_identity_def t_def)
  from chk assms(3) show "0 \<le> T_ReferenceAttempts rec \<and> T_ReferenceAttempts rec \<le> 2147483647" "text_ok (T_FailureCode rec)"
    "\<not> reversal_clash (T_ID t) (T_ProviderID t) (T_ReferenceExternalID t) (T_State t) d"
    by (simp_all add: t_def)
qed

lemma wrap64_succ:
  assumes "0 \<le> x" "x \<le> max_int64" "0 \<le> wrap64 (x + 1)"
  shows "wrap64 (x + 1) = x + 1 \<and> x + 1 \<le> max_int64"
proof (cases "x = max_int64")
  case True
  with assms(3) show ?thesis by (simp add: wrap64_def max_int64_def)
next
  case False
  with assms show ?thesis by (simp add: wrap64_id int64_defs)
qed

section \<open>Moving a balance\<close>

lemma moneyFromMinor_eq:
  "currencyPattern c \<Longrightarrow> 0 \<le> m \<Longrightarrow> m \<le> max_int64 \<Longrightarrow> moneyFromMinor m c = Inr \<lparr>minor = m, currency = c\<rparr>"
  by (simp add: moneyFromMinor_def money_of_minor)

lemma moneyFromMinor_Inr:
  "moneyFromMinor m c = Inr x \<longleftrightarrow> currencyPattern c \<and> 0 \<le> m \<and> m \<le> max_int64 \<and> x = \<lparr>minor = m, currency = c\<rparr>"
  by (auto simp: moneyFromMinor_def money_of_minor split: if_splits)

definition wallet_of :: "externals \<Rightarrow> WalletRecord \<Rightarrow> Wallet" where
  "wallet_of E w = \<lparr>wallet_id = uuid_String E (W_ID w), wallet_playerID = W_PlayerID w,
     wallet_balance = \<lparr>minor = W_Balance w, currency = W_Currency w\<rparr>, wallet_version = 1\<rparr>"

lemma walletFromRecord_eq:
  assumes "externals_ok E" "wallet_row_ok w"
  shows "walletFromRecord E w = Inr (wallet_of E w)"
proof -
  have "W_Currency w \<noteq> []" using assms(2) by (auto simp: wallet_row_ok_def)
  with assms show ?thesis
    by (simp add: walletFromRecord_def moneyFromMinor_eq wallet_row_ok_def wallet_New_def wallet_of_def externals_okD)
qed

text \<open>The outcome of the domain operation as one equation.\<close>

definition domain_outcome :: "externals \<Rightarrow> WalletRecord \<Rightarrow> Money \<Rightarrow> Direction \<Rightarrow> Wallet result" where
  "domain_outcome E w a dir =
     (if W_Currency w \<noteq> currency a then Inl ErrCurrencyMismatch
      else if dir = Credit \<and> W_Balance w + minor a > max_int64 then Inl ErrOverflow
      else if dir \<noteq> Credit \<and> W_Balance w < minor a then Inl ErrInsufficientBalance
      else Inr ((wallet_of E w)\<lparr>wallet_balance := \<lparr>minor = W_Balance w + signed_value dir (minor a), currency = W_Currency w\<rparr>,
                  wallet_version := 2\<rparr>))"

lemma domain_credit_debit:
  assumes "wallet_row_ok w" "money_valid a" "0 < minor a"
  shows "wallet_Credit (wallet_of E w) a = domain_outcome E w a Credit"
    "wallet_Debit (wallet_of E w) a = domain_outcome E w a Debit"
proof -
  have v: "money_valid (wallet_balance (wallet_of E w))" using assms(1) by (simp add: wallet_of_def money_valid_def wallet_row_ok_def)
  have c: "W_Currency w \<noteq> []" "currency a \<noteq> []" using assms(1,2) by (auto simp: wallet_row_ok_def money_valid_def)
  have i: "int64_ok (minor a)" using assms(2) by (rule money_validD)
  show "wallet_Credit (wallet_of E w) a = domain_outcome E w a Credit"
    unfolding wallet_Credit_spec [OF v i] using c assms(3)
    by (auto simp: domain_outcome_def wallet_of_def money_compatible_def wrapu64_def)
  show "wallet_Debit (wallet_of E w) a = domain_outcome E w a Debit"
    unfolding wallet_Debit_spec [OF v i] using c assms(3)
    by (auto simp: domain_outcome_def wallet_of_def money_compatible_def wrapu64_def)
qed

lemma operate_spec:
  assumes "wallet_row_ok w" "command_ok cmd" "C_Type cmd = Rollback \<longrightarrow> reference \<noteq> None"
  shows "operate cmd (wallet_of E w) reference = Inr (
    if C_Type cmd = Loss then (0, Debit, Inr (wallet_of E w))
    else let dir = movement_direction (C_Type cmd) (map_option T_Type reference)
         in (minor (C_Amount cmd), dir, domain_outcome E w (C_Amount cmd) dir))"
proof (cases "C_Type cmd = Loss")
  case False
  then have a: "money_valid (C_Amount cmd)" "0 < minor (C_Amount cmd)"
    using assms(2) by (auto simp: command_ok_def validAmount_iff)
  show ?thesis
    using assms(2,3) False
    by (auto simp: operate_def domain_credit_debit [OF assms(1) a] movement_direction_def command_ok_def
        validExternalType_iff)
qed (simp add: operate_def)

lemma moveBalance_Inr:
  assumes "moveBalance E dr cmd w dir m after now d = Inr d'" "externals_ok E"
    "db_wallets d = us @ w # vs" "W_ID w = C_WalletID cmd" "distinct (map W_ID (db_wallets d))"
    "wallet_row_ok w" "W_Currency w = currency (C_Amount cmd)" "dir = Credit \<or> dir = Debit"
  obtains w' e where
    "d' = d\<lparr>db_wallets := us @ w' # vs, db_ledger := db_ledger d @ [e]\<rparr>"
    "w' = w\<lparr>W_Balance := after, W_Version := W_Version w + 1, W_UpdatedAt := now\<rparr>" "wallet_row_ok w'"
    "e = \<lparr>L_ID = draw_entry dr, L_WalletID = C_WalletID cmd, L_TransactionID = C_ID cmd, L_Direction = dir,
          L_Currency = currency (C_Amount cmd), L_Value = m, L_BalanceBefore = W_Balance w, L_BalanceAfter = after,
          L_Timestamp = now\<rparr>" "0 < m" "after = W_Balance w + signed_entry e" "now \<noteq> 0"
proof -
  let ?c = "currency (C_Amount cmd)"
  let ?v = "wrap64 (W_Version w + 1)"
  from assms(1) obtain d1 entry rcd where d1: "walletRepo_UpdateBalance (C_WalletID cmd) after ?v now d = Inr d1"
    and m: "0 \<le> m" "m \<le> max_int64" "0 \<le> after" "after \<le> max_int64" and c: "currencyPattern ?c"
    and ent: "ledger_New (uuid_String E (draw_entry dr)) (uuid_String E (C_WalletID cmd)) (uuid_String E (C_ID cmd))
      dir \<lparr>minor = m, currency = ?c\<rparr> \<lparr>minor = W_Balance w, currency = ?c\<rparr> \<lparr>minor = after, currency = ?c\<rparr> now = Inr entry"
    and rec: "ledgerRecord E entry = Inr rcd" and ins: "ledgerRepo_Insert rcd d1 = Inr d'"
    by (auto simp: moveBalance_def result_simps moneyFromMinor_Inr)
  have "W_Balance w \<ge> 0" "W_Balance w \<le> max_int64" using assms(6) by (auto simp: wallet_row_ok_def)
  then have val: "money_valid \<lparr>minor = m, currency = ?c\<rparr>" "money_valid \<lparr>minor = W_Balance w, currency = ?c\<rparr>"
    "money_valid \<lparr>minor = after, currency = ?c\<rparr>" using m c by (auto simp: money_valid_def)
  from ent have e: "0 < m" "now \<noteq> 0" "after = W_Balance w + signed_value dir m"
    and entry: "entry = \<lparr>entry_id = uuid_String E (draw_entry dr), entry_walletID = uuid_String E (C_WalletID cmd),
      entry_transactionID = uuid_String E (C_ID cmd), entry_direction = dir, entry_value = \<lparr>minor = m, currency = ?c\<rparr>,
      entry_balanceBefore = \<lparr>minor = W_Balance w, currency = ?c\<rparr>, entry_balanceAfter = \<lparr>minor = after, currency = ?c\<rparr>,
      entry_timestamp = now\<rparr>"
    by (auto simp: ledger_New_Inr [OF val])
  have rcd: "rcd = \<lparr>L_ID = draw_entry dr, L_WalletID = C_WalletID cmd, L_TransactionID = C_ID cmd, L_Direction = dir,
      L_Currency = ?c, L_Value = m, L_BalanceBefore = W_Balance w, L_BalanceAfter = after, L_Timestamp = now\<rparr>"
    using rec assms(2) by (auto simp: ledgerRecord_def entry uuid_MustParse_def externals_okD)
  have "list_ex (\<lambda>w. W_ID w = C_WalletID cmd) (db_wallets d)" using assms(3,4) by (simp add: list_ex_iff)
  with d1 have v: "1 \<le> ?v" and up: "d1 = d\<lparr>db_wallets := update_where (\<lambda>w. W_ID w = C_WalletID cmd)
      (\<lambda>w. w\<lparr>W_Balance := after, W_Version := ?v, W_UpdatedAt := now\<rparr>) (db_wallets d)\<rparr>"
    by (auto simp: walletRepo_UpdateBalance_def result_simps)
  have ver: "?v = W_Version w + 1" "W_Version w + 1 \<le> max_int64"
    using wrap64_succ [of "W_Version w"] v assms(6) by (auto simp: wallet_row_ok_def)
  let ?w' = "w\<lparr>W_Balance := after, W_Version := W_Version w + 1, W_UpdatedAt := now\<rparr>"
  have d1': "d1 = d\<lparr>db_wallets := us @ ?w' # vs\<rparr>"
    using up update_where_split [OF assms(5) [unfolded assms(3)] assms(4)] assms(3) by (simp add: ver(1))
  have "wallet_row_ok ?w'" using assms(6) m ver by (auto simp: wallet_row_ok_def)
  moreover have "d' = d\<lparr>db_wallets := us @ ?w' # vs, db_ledger := db_ledger d @ [rcd]\<rparr>"
    using ins d1' by (auto simp: ledgerRepo_Insert_def result_simps)
  ultimately show ?thesis using that [of rcd ?w'] rcd e by simp
qed

section \<open>Applying an operation\<close>

text \<open>What the service answers to an admissible command on the wallet row \<open>w\<close>.\<close>

definition accepted :: "WalletRecord \<Rightarrow> Command \<Rightarrow> Type option \<Rightarrow> bool" where
  "accepted w cmd reference \<longleftrightarrow> C_Type cmd = Loss \<or>
     W_Currency w = currency (C_Amount cmd) \<and>
     (if movement_direction (C_Type cmd) reference = Credit then W_Balance w + minor (C_Amount cmd) \<le> max_int64
      else minor (C_Amount cmd) \<le> W_Balance w)"

definition operation_result :: "WalletRecord \<Rightarrow> Command \<Rightarrow> Type option \<Rightarrow> Result" where
  "operation_result w cmd reference =
     (if accepted w cmd reference
      then \<lparr>R_TransactionID = C_ID cmd, R_State = Processed,
            R_Balance = W_Balance w + (if C_Type cmd = Loss then 0
              else signed_value (movement_direction (C_Type cmd) reference) (minor (C_Amount cmd))),
            R_Amount = C_Amount cmd, R_FailureCode = []\<rparr>
      else \<lparr>R_TransactionID = C_ID cmd, R_State = Rejected, R_Balance = W_Balance w, R_Amount = C_Amount cmd,
            R_FailureCode = (if C_Type cmd = Bet then FailureCodeInsufficientBalance
                             else FailureCodeReversalInsufficientBalance)\<rparr>)"

lemma movement_direction_cases: "movement_direction k r = Credit \<or> movement_direction k r = Debit"
  by (simp add: movement_direction_def)

lemma operation_result_of:
  assumes "wallet_row_ok w" "command_ok cmd"
  shows "result_of cmd (operation_result w cmd reference)"
  using assms movement_direction_cases [of "C_Type cmd" reference]
  by (auto simp: result_of_def operation_result_def accepted_def wallet_row_ok_def command_ok_def validAmount_iff
      money_valid_def)

text \<open>The last statements of an operation: its events.\<close>

definition operation_events ::
  "externals \<Rightarrow> draws \<Rightarrow> Command \<Rightarrow> WalletRecord \<Rightarrow> Direction \<Rightarrow> Result \<Rightarrow> time \<Rightarrow> db \<Rightarrow> db result" where
  "operation_events E dr cmd w dir r now d =
     (let moved = (R_State r = Processed \<and> C_Type cmd \<noteq> Loss);
          version = (if moved then wrap64 (W_Version w + 1) else W_Version w)
      in if R_State r = Processed
         then insertFinancialEvents E dr (C_Type cmd) (C_WalletID cmd) r version now (C_IdempotencyKey cmd) moved
           \<lparr>BC_Direction = (if moved then dir else Debit),
            BC_BalanceBefore = \<lparr>minor = W_Balance w, currency = currency (C_Amount cmd)\<rparr>,
            BC_BalanceAfter = \<lparr>minor = R_Balance r, currency = currency (C_Amount cmd)\<rparr>, BC_WalletVersion = version\<rparr> d
         else insertEvent E (draw_event dr) ''WagerTransactionRejected'' (C_Type cmd) (C_ID cmd) (C_WalletID cmd) r version
           now (C_IdempotencyKey cmd) [] d)"

lemma operate_cases:
  assumes "wallet_row_ok w" "command_ok cmd" "C_Type cmd = Rollback \<longrightarrow> reference \<noteq> None"
  defines "ref \<equiv> map_option T_Type reference"
  obtains (loss) "C_Type cmd = Loss" "operate cmd (wallet_of E w) reference = Inr (0, Debit, Inr (wallet_of E w))"
  | (refused) e where "C_Type cmd \<noteq> Loss" "\<not> accepted w cmd ref"
      "operate cmd (wallet_of E w) reference = Inr (minor (C_Amount cmd), movement_direction (C_Type cmd) ref, Inl e)"
  | (moved) v where "C_Type cmd \<noteq> Loss" "accepted w cmd ref" "0 < minor (C_Amount cmd)"
      "operate cmd (wallet_of E w) reference = Inr (minor (C_Amount cmd), movement_direction (C_Type cmd) ref, Inr v)"
      "minor (wallet_balance v) = W_Balance w + signed_value (movement_direction (C_Type cmd) ref) (minor (C_Amount cmd))"
proof -
  let ?dir = "movement_direction (C_Type cmd) ref"
  note spec = operate_spec [OF assms(1-3), of E, folded ref_def]
  consider "C_Type cmd = Loss" | "C_Type cmd \<noteq> Loss" "\<not> accepted w cmd ref" | "C_Type cmd \<noteq> Loss" "accepted w cmd ref" by blast
  then show ?thesis
  proof cases
    case 1
    with spec loss show ?thesis by simp
  next
    case 2
    then have "\<exists>e. domain_outcome E w (C_Amount cmd) ?dir = Inl e"
      by (auto simp: accepted_def domain_outcome_def split: if_splits)
    with 2 spec refused show ?thesis by (auto simp: Let_def)
  next
    case 3
    then have "domain_outcome E w (C_Amount cmd) ?dir = Inr ((wallet_of E w)\<lparr>wallet_balance :=
        \<lparr>minor = W_Balance w + signed_value ?dir (minor (C_Amount cmd)), currency = W_Currency w\<rparr>, wallet_version := 2\<rparr>)"
      by (auto simp: accepted_def domain_outcome_def split: if_splits)
    moreover have "0 < minor (C_Amount cmd)" using 3 assms(2) by (auto simp: command_ok_def validAmount_iff)
    ultimately show ?thesis using 3 spec by (intro moved) (auto simp: Let_def)
  qed
qed

lemma applyOperation_eq:
  assumes "externals_ok E" "wallet_row_ok w" "command_ok cmd" "C_Type cmd = Rollback \<longrightarrow> reference \<noteq> None"
  defines "ref \<equiv> map_option T_Type reference"
  defines "r \<equiv> operation_result w cmd ref" and "dir \<equiv> movement_direction (C_Type cmd) ref"
  shows "applyOperationInTx E dr cmd w txDomain reference existing now d =
    bindR (wager_Transition txDomain (R_State r)) (\<lambda>_.
    bindR (writeRow E cmd r existing now d) (\<lambda>d1.
    bindR (if R_State r = Processed \<and> C_Type cmd \<noteq> Loss
           then moveBalance E dr cmd w dir (minor (C_Amount cmd)) (R_Balance r) now d1 else Inr d1) (\<lambda>d2.
    bindR (operation_events E dr cmd w dir r now d2) (\<lambda>d3. Inr (r, d3)))))"
proof -
  have c: "currencyPattern (currency (C_Amount cmd))" using assms(3) by (simp add: command_ok_def money_valid_def)
  have b: "0 \<le> W_Balance w" "W_Balance w \<le> max_int64" using assms(2) by (simp_all add: wallet_row_ok_def)
  have rb: "0 \<le> R_Balance r" "R_Balance r \<le> max_int64"
    using operation_result_of [OF assms(2,3), of ref] by (simp_all add: r_def result_of_def)
  note mm = moneyFromMinor_eq [OF c b] moneyFromMinor_eq [OF c rb]
  note eqs = applyOperationInTx_def walletFromRecord_eq [OF assms(1,2)] operation_events_def Let_def mm
  show ?thesis
  proof (cases rule: operate_cases [OF assms(2-4), where E = E, case_names loss refused moved])
    case loss
    then have "r = \<lparr>R_TransactionID = C_ID cmd, R_State = Processed, R_Balance = W_Balance w, R_Amount = C_Amount cmd, R_FailureCode = []\<rparr>"
      by (simp add: r_def operation_result_def accepted_def)
    with loss mm show ?thesis by (simp add: eqs)
  next
    case (refused e)
    then have "r = \<lparr>R_TransactionID = C_ID cmd, R_State = Rejected, R_Balance = W_Balance w, R_Amount = C_Amount cmd,
        R_FailureCode = (if C_Type cmd = Bet then FailureCodeInsufficientBalance else FailureCodeReversalInsufficientBalance)\<rparr>"
      by (simp add: r_def operation_result_def ref_def)
    with refused show ?thesis by (simp add: eqs)
  next
    case (moved v)
    then have r: "r = \<lparr>R_TransactionID = C_ID cmd, R_State = Processed,
        R_Balance = minor (wallet_balance v), R_Amount = C_Amount cmd, R_FailureCode = []\<rparr>"
      by (simp add: r_def operation_result_def ref_def)
    with moved mm show ?thesis by (simp add: eqs dir_def ref_def)
  qed
qed

lemma operation_events_Inr:
  assumes "operation_events E dr cmd w dir r now d = Inr d'" "R_TransactionID r = C_ID cmd"
  shows "emits ((if R_State r = Processed then ''WagerTransactionProcessed'' else ''WagerTransactionRejected'',
      C_ID cmd, uuid_String E (C_ID cmd)) #
    (if R_State r = Processed \<and> C_Type cmd \<noteq> Loss
     then [(''WalletBalanceChanged'', C_WalletID cmd, uuid_String E (C_ID cmd))] else [])) d d' \<and> same_tables d d'"
  using assms
  by (auto simp: operation_events_def Let_def split: if_splits dest!: insertFinancialEvents_Inr insertEvent_Inr)

lemma applyOperation_Inr:
  assumes "applyOperationInTx E dr cmd w txDomain reference existing now d = Inr (r, d')"
    "externals_ok E" "wallet_row_ok w" "command_ok cmd" "C_Type cmd = Rollback \<longrightarrow> reference \<noteq> None"
  defines "dir \<equiv> movement_direction (C_Type cmd) (map_option T_Type reference)"
  shows "r = operation_result w cmd (map_option T_Type reference)"
    "\<exists>d1 d2. writeRow E cmd r existing now d = Inr d1 \<and>
       (if R_State r = Processed \<and> C_Type cmd \<noteq> Loss
        then moveBalance E dr cmd w dir (minor (C_Amount cmd)) (R_Balance r) now d1 = Inr d2 else d2 = d1) \<and>
       emits ((if R_State r = Processed then ''WagerTransactionProcessed'' else ''WagerTransactionRejected'',
           C_ID cmd, uuid_String E (C_ID cmd)) #
         (if R_State r = Processed \<and> C_Type cmd \<noteq> Loss
          then [(''WalletBalanceChanged'', C_WalletID cmd, uuid_String E (C_ID cmd))] else [])) d2 d' \<and> same_tables d2 d'"
proof -
  let ?r = "operation_result w cmd (map_option T_Type reference)"
  have id: "R_TransactionID ?r = C_ID cmd" by (simp add: operation_result_def)
  note eq = applyOperation_eq [OF assms(2-5), where dr = dr and txDomain = txDomain and existing = existing and now = now and d = d,
      folded dir_def]
  from assms(1) show r: "r = ?r" unfolding eq by (auto simp: bindR_Inr_conv)
  from assms(1) obtain d1 d2 where "writeRow E cmd ?r existing now d = Inr d1"
    "(if R_State ?r = Processed \<and> C_Type cmd \<noteq> Loss
      then moveBalance E dr cmd w dir (minor (C_Amount cmd)) (R_Balance ?r) now d1 else Inr d1) = Inr d2"
    "operation_events E dr cmd w dir ?r now d2 = Inr d'"
    unfolding eq by (auto simp: bindR_Inr_conv)
  with operation_events_Inr [OF this(3) id]
  show "\<exists>d1 d2. writeRow E cmd r existing now d = Inr d1 \<and>
       (if R_State r = Processed \<and> C_Type cmd \<noteq> Loss
        then moveBalance E dr cmd w dir (minor (C_Amount cmd)) (R_Balance r) now d1 = Inr d2 else d2 = d1) \<and>
       emits ((if R_State r = Processed then ''WagerTransactionProcessed'' else ''WagerTransactionRejected'',
           C_ID cmd, uuid_String E (C_ID cmd)) #
         (if R_State r = Processed \<and> C_Type cmd \<noteq> Loss
          then [(''WalletBalanceChanged'', C_WalletID cmd, uuid_String E (C_ID cmd))] else [])) d2 d' \<and> same_tables d2 d'"
    unfolding r by (intro exI [of _ d1] exI [of _ d2]) (auto split: if_splits)
qed

lemma commandFromRecord_Inr:
  "commandFromRecord t = Inr cmd \<longleftrightarrow> currencyPattern (T_Currency t) \<and> 0 \<le> T_Amount t \<and> T_Amount t \<le> max_int64 \<and>
     cmd = \<lparr>C_ID = T_ID t, C_WalletID = T_WalletID t, C_ExternalID = T_ExternalID t,
       C_ProviderID = T_ProviderID t, C_PlayerID = T_PlayerID t, C_GameID = T_GameID t,
       C_RoundID = T_RoundID t, C_IdempotencyKey = T_IdempotencyKey t,
       C_PayloadHash = T_PayloadHash t, C_ReferenceExternalID = T_ReferenceExternalID t,
       C_Type = T_Type t, C_Amount = \<lparr>minor = T_Amount t, currency = T_Currency t\<rparr>\<rparr>"
  by (auto simp: commandFromRecord_def result_simps moneyFromMinor_Inr)

text \<open>The record a settlement starts from: a pending row of the table, whose attempts may have advanced.\<close>

definition pending_record :: "db \<Rightarrow> Command \<Rightarrow> WagerTransactionRecord \<Rightarrow> bool" where
  "pending_record d cmd ex \<longleftrightarrow> (\<exists>old \<in> set (db_wagers d). T_State old = PendingReference \<and> T_ID ex = T_ID old
     \<and> commandFromRecord old = Inr cmd)"

lemma writeRow_Inr:
  assumes "writeRow E cmd r existing now d = Inr d1" "bank_inv E d" "\<And>ex. existing = Some ex \<Longrightarrow> pending_record d cmd ex"
  obtains t where "row_for E cmd r t" "tx_write t d (db_wagers d1)" "d1 = d\<lparr>db_wagers := db_wagers d1\<rparr>"
    "\<not> reversal_clash (T_ID t) (T_ProviderID t) (T_ReferenceExternalID t) (T_State t) d"
    "\<exists>w \<in> set (db_wallets d). W_ID w = T_WalletID t \<and> W_Currency w = T_Currency t"
    "0 \<le> T_ReferenceAttempts t \<and> T_ReferenceAttempts t \<le> 2147483647" "row_storable E t"
proof (cases existing)
  case None
  with assms(1) have "insertTransaction E cmd r now d = Inr d1" by (simp add: writeRow_def)
  note i = insertTransaction_Inr [OF this]
  have "db_wagers d1 = db_wagers d @ [transaction_row E cmd r now]" using i(1) by simp
  moreover have "tx_write (transaction_row E cmd r now) d (db_wagers d @ [transaction_row E cmd r now])"
    using i(3) by (rule tx_append)
  ultimately show ?thesis using i by (intro that [of "transaction_row E cmd r now"]) simp_all
next
  case (Some ex)
  let ?rec = "ex\<lparr>T_State := R_State r, T_Result := Some (marshalResult E r), T_ReferenceNextAttemptAt := None,
              T_FailureCode := R_FailureCode r, T_UpdatedAt := now\<rparr>"
  from Some assms(3) obtain old where old: "old \<in> set (db_wagers d)" "T_State old = PendingReference" "T_ID ex = T_ID old"
    "commandFromRecord old = Inr cmd" by (auto simp: pending_record_def)
  from old(1) obtain xs ys where split: "db_wagers d = xs @ old # ys" by (meson split_list)
  from Some assms(1) have up: "wagerRepo_UpdatePendingReference (index_fits E) ?rec d = Inr d1" by (simp add: writeRow_def)
  have id: "T_ID ?rec = T_ID old" using old(3) by simp
  note u = updatePending_Inr [OF up split id bank_invD(1) [OF assms(2)]]
  let ?t = "old\<lparr>T_State := T_State ?rec, T_Result := T_Result ?rec, T_ReferenceAttempts := T_ReferenceAttempts ?rec,
      T_ReferenceNextAttemptAt := T_ReferenceNextAttemptAt ?rec, T_FailureCode := T_FailureCode ?rec,
      T_UpdatedAt := T_UpdatedAt ?rec\<rparr>"
  show ?thesis
  proof (rule that [of ?t])
    show "row_for E cmd r ?t" using old(4) by (auto simp: row_for_def commandFromRecord_Inr)
    show "tx_write ?t d (db_wagers d1)" unfolding u(1) using tx_settle [OF split old(2) u(2)] by simp
    show "d1 = d\<lparr>db_wagers := db_wagers d1\<rparr>" unfolding u(1) by simp
    show "\<exists>w \<in> set (db_wallets d). W_ID w = T_WalletID ?t \<and> W_Currency w = T_Currency ?t"
      using assms(2) old(1) by (auto simp: bank_inv_parts)
    show "0 \<le> T_ReferenceAttempts ?t \<and> T_ReferenceAttempts ?t \<le> 2147483647" using u(3) by simp
    show "row_storable E ?t"
      using u(4) bank_invD(4) [OF assms(2) old(1)] by (simp add: tx_row_ok_def row_storable_def row_texts_def)
  qed (rule u(5))
qed

lemma writeRow_row:
  assumes "writeRow E cmd r existing now d = Inr d1" "bank_inv E d" "\<And>ex. existing = Some ex \<Longrightarrow> pending_record d cmd ex"
  shows "\<exists>t \<in> set (db_wagers d1). row_for E cmd r t"
proof -
  obtain t where t: "row_for E cmd r t" "tx_write t d (db_wagers d1)" using writeRow_Inr [OF assms] by blast
  from tx_write_rows(1) [OF t(2) bank_invD(1) [OF assms(2)]] t(1) show ?thesis by auto
qed

lemma moveBalance_wagers: "moveBalance E dr cmd w dir m after now d = Inr d' \<Longrightarrow> db_wagers d' = db_wagers d"
  by (auto simp: moveBalance_def walletRepo_UpdateBalance_def ledgerRepo_Insert_def result_simps)

text \<open>Recording a result that moves no money.\<close>

lemma record_step:
  assumes "bank_inv E d" "externals_ok E" "command_ok cmd" "result_of cmd r"
    "writeRow E cmd r existing now d = Inr d1" "\<And>ex. existing = Some ex \<Longrightarrow> pending_record d cmd ex"
    "R_State r = Processed \<Longrightarrow> C_Type cmd = Loss"
    "R_State r = PendingReference \<Longrightarrow> (C_Type cmd = Refund \<or> C_Type cmd = Rollback) \<and> C_ReferenceExternalID cmd \<noteq> []"
    "emits [(if R_State r = Processed then ''WagerTransactionProcessed''
      else if R_State r = Rejected then ''WagerTransactionRejected'' else ''WagerTransactionPendingReference'',
      C_ID cmd, uuid_String E (C_ID cmd))] d1 d'" "same_tables d1 d'"
  shows "bank_step E d d'"
proof -
  obtain t where t: "row_for E cmd r t" "tx_write t d (db_wagers d1)" "d1 = d\<lparr>db_wagers := db_wagers d1\<rparr>"
    "\<not> reversal_clash (T_ID t) (T_ProviderID t) (T_ReferenceExternalID t) (T_State t) d"
    "\<exists>w \<in> set (db_wallets d). W_ID w = T_WalletID t \<and> W_Currency w = T_Currency t"
    "0 \<le> T_ReferenceAttempts t \<and> T_ReferenceAttempts t \<le> 2147483647" "row_storable E t"
    using writeRow_Inr [OF assms(5,1,6)] by blast
  from t(5) obtain w where w: "w \<in> set (db_wallets d)" "W_ID w = T_WalletID t" "W_Currency w = T_Currency t" by blast
  have ok: "tx_row_ok E t" using row_for_ok [OF assms(2) t(1) assms(4,3) t(7)] assms(8) t(6) by blast
  have amt: "T_State t = Processed \<Longrightarrow> T_Amount t = 0"
    using ok t(1) assms(7) by (auto simp: row_for_def tx_row_ok_def)
  have "announced E t = [(if R_State r = Processed then ''WagerTransactionProcessed''
      else if R_State r = Rejected then ''WagerTransactionRejected'' else ''WagerTransactionPendingReference'',
      C_ID cmd, uuid_String E (C_ID cmd))]"
    using t(1) amt by (auto simp: announced_def row_for_def Let_def)
  moreover have d1: "db_wallets d1 = db_wallets d" "db_ledger d1 = db_ledger d" "db_outbox d1 = db_outbox d" "db_seq d1 = db_seq d"
    by (subst t(3), simp)+
  ultimately have "emits (announced E t) d d'" using assms(9) emits_cong [of d d1 d' d'] by simp
  moreover have "db_wagers d' = db_wagers d1" "db_wallets d' = db_wallets d" "db_ledger d' = db_ledger d"
    using assms(10) d1 by (simp_all add: same_tables_def)
  moreover have "\<not> moves t" using amt by (auto simp: moves_def)
  ultimately show ?thesis using t w ok by (intro bank_record [where w = w and t = t]) auto
qed

text \<open>Applying an operation is a step of the specification.\<close>

definition reference_ok :: "db \<Rightarrow> Command \<Rightarrow> WagerTransactionRecord option \<Rightarrow> bool" where
  "reference_ok d cmd reference \<longleftrightarrow>
     (if C_Type cmd = Refund \<or> C_Type cmd = Rollback
      then C_ReferenceExternalID cmd \<noteq> [] \<and> (\<exists>r. reference = Some r \<and> r \<in> set (db_wagers d) \<and> validReference cmd r
        \<and> T_ProviderID r = C_ProviderID cmd \<and> T_ExternalID r = C_ReferenceExternalID cmd)
      else reference = None)"

lemma validReference_reverses:
  assumes "validReference cmd ref" "row_for E cmd r t" "T_ProviderID ref = C_ProviderID cmd"
    "T_ExternalID ref = C_ReferenceExternalID cmd" "C_ReferenceExternalID cmd \<noteq> []" "C_Type cmd = Refund \<or> C_Type cmd = Rollback"
  shows "reverses t ref"
  using assms by (auto simp: validReference_def row_for_def reverses_def split: if_splits)

lemma reference_entry_of:
  assumes "reference_ok d cmd reference" "row_for E cmd r t" "L_WalletID e = C_WalletID cmd" "L_TransactionID e = C_ID cmd"
    "L_Value e = minor (C_Amount cmd)" "L_Currency e = currency (C_Amount cmd)"
    "L_Direction e = movement_direction (C_Type cmd) (map_option T_Type reference)"
  shows "entry_of d t e"
proof (cases "C_Type cmd = Refund \<or> C_Type cmd = Rollback")
  case True
  with assms(1) obtain rf where "reference = Some rf" "rf \<in> set (db_wagers d)" "validReference cmd rf"
    "T_ProviderID rf = C_ProviderID cmd" "T_ExternalID rf = C_ReferenceExternalID cmd" "C_ReferenceExternalID cmd \<noteq> []"
    by (auto simp: reference_ok_def)
  with True assms(2-) validReference_reverses [OF _ assms(2), of rf] show ?thesis
    by (auto simp: entry_of_def row_for_def is_reversal_def)
next
  case False
  with assms show ?thesis by (simp add: entry_of_def row_for_def is_reversal_def reference_ok_def)
qed

lemma move_step:
  assumes "bank_inv E d" "externals_ok E" "command_ok cmd" "result_of cmd r" "R_State r = Processed"
    "writeRow E cmd r existing now d = Inr d1" "\<And>ex. existing = Some ex \<Longrightarrow> pending_record d cmd ex"
    "w \<in> set (db_wallets d)" "W_ID w = C_WalletID cmd" "reference_ok d cmd reference"
    "moveBalance E dr cmd w (movement_direction (C_Type cmd) (map_option T_Type reference)) (minor (C_Amount cmd))
      (R_Balance r) now d1 = Inr d2"
    "emits [(''WagerTransactionProcessed'', C_ID cmd, uuid_String E (C_ID cmd)),
      (''WalletBalanceChanged'', C_WalletID cmd, uuid_String E (C_ID cmd))] d2 d'" "same_tables d2 d'"
  shows "bank_step E d d' \<and> db_inbox d' = db_inbox d"
proof -
  have wok: "wallet_row_ok w" using bank_invD(3) [OF assms(1,8)] .
  obtain t where t: "row_for E cmd r t" "tx_write t d (db_wagers d1)" "d1 = d\<lparr>db_wagers := db_wagers d1\<rparr>"
    "\<not> reversal_clash (T_ID t) (T_ProviderID t) (T_ReferenceExternalID t) (T_State t) d"
    "\<exists>w \<in> set (db_wallets d). W_ID w = T_WalletID t \<and> W_Currency w = T_Currency t" "row_storable E t"
    using writeRow_Inr [OF assms(6,1,7)] by blast
  have d1: "db_wallets d1 = db_wallets d" "db_ledger d1 = db_ledger d" "db_outbox d1 = db_outbox d" "db_seq d1 = db_seq d"
    "db_inbox d1 = db_inbox d" by (subst t(3), simp)+
  from t(5) obtain w0 where "w0 \<in> set (db_wallets d)" "W_ID w0 = T_WalletID t" "W_Currency w0 = T_Currency t" by blast
  moreover from this have "w0 = w"
    using assms(8,9) t(1) bank_invD(2) [OF assms(1)] by (auto simp: row_for_def distinct_map inj_on_def)
  ultimately have cur: "W_Currency w = currency (C_Amount cmd)" using t(1) by (simp add: row_for_def)
  from assms(8) obtain us vs where split: "db_wallets d1 = us @ w # vs" unfolding d1 by (meson split_list)
  have dist: "distinct (map W_ID (db_wallets d1))" using bank_invD(2) [OF assms(1)] d1 by simp
  obtain w' e where m: "d2 = d1\<lparr>db_wallets := us @ w' # vs, db_ledger := db_ledger d1 @ [e]\<rparr>"
    "w' = w\<lparr>W_Balance := R_Balance r, W_Version := W_Version w + 1, W_UpdatedAt := now\<rparr>" "wallet_row_ok w'"
    "e = \<lparr>L_ID = draw_entry dr, L_WalletID = C_WalletID cmd, L_TransactionID = C_ID cmd,
        L_Direction = movement_direction (C_Type cmd) (map_option T_Type reference),
        L_Currency = currency (C_Amount cmd), L_Value = minor (C_Amount cmd), L_BalanceBefore = W_Balance w,
        L_BalanceAfter = R_Balance r, L_Timestamp = now\<rparr>"
    "0 < minor (C_Amount cmd)" "R_Balance r = W_Balance w + signed_entry e"
    using moveBalance_Inr [OF assms(11,2) split assms(9) dist wok cur movement_direction_cases] by blast
  have bal: "L_BalanceBefore e = W_Balance w" "L_BalanceAfter e = R_Balance r" by (simp_all add: m(4))
  have "T_Type t \<noteq> Opening" using assms(3) t(1) by (auto simp: row_for_def command_ok_def validExternalType_iff)
  then have mo: "movement w w' t e"
    using m(3) bal t(1) assms(9) cur unfolding movement_def m(2) by (simp add: row_for_def m(6) [symmetric])
  have en: "entry_of d t e" by (rule reference_entry_of [OF assms(10) t(1)]) (simp_all add: m(4))
  have rows: "tx_row_ok E t" "moves t"
    using row_for_ok [OF assms(2) t(1) assms(4,3) t(6)] assms(5) t(1) m(5) by (simp_all add: moves_def row_for_def)
  have "emits (announced E t) d d'"
    using assms(5,12) emits_cong [of d d2 d' d'] d1 m(1,5) t(1) by (simp add: announced_def row_for_def Let_def)
  moreover have "db_wagers d' = db_wagers d1" "db_wallets d' = us @ w' # vs" "db_ledger d' = db_ledger d @ [e]"
    "db_inbox d' = db_inbox d" "db_wallets d = us @ w # vs"
    using assms(13) m(1) d1 split by (simp_all add: same_tables_def)
  ultimately show ?thesis using t(2,4) rows mo en by (auto intro: bank_move [of t d d' E us w vs w' e])
qed

lemma applyOperation_step:
  assumes "applyOperationInTx E dr cmd w txDomain reference existing now d = Inr (r, d')"
    "bank_inv E d" "externals_ok E" "command_ok cmd" "w \<in> set (db_wallets d)" "W_ID w = C_WalletID cmd"
    "reference_ok d cmd reference" "\<And>ex. existing = Some ex \<Longrightarrow> pending_record d cmd ex"
  shows "bank_step E d d' \<and> db_inbox d' = db_inbox d \<and> r = operation_result w cmd (map_option T_Type reference)
    \<and> (\<exists>t \<in> set (db_wagers d'). row_for E cmd r t)"
proof -
  have wok: "wallet_row_ok w" using bank_invD(3) [OF assms(2,5)] .
  have ref: "C_Type cmd = Rollback \<longrightarrow> reference \<noteq> None" using assms(7) by (auto simp: reference_ok_def)
  note app = applyOperation_Inr [OF assms(1,3) wok assms(4) ref]
  let ?moved = "R_State r = Processed \<and> C_Type cmd \<noteq> Loss"
  let ?dir = "movement_direction (C_Type cmd) (map_option T_Type reference)"
  have r: "r = operation_result w cmd (map_option T_Type reference)" by (rule app(1))
  have ro: "result_of cmd r" unfolding r using operation_result_of [OF wok assms(4)] .
  have st: "R_State r = Processed \<or> R_State r = Rejected" unfolding r by (simp add: operation_result_def)
  from app(2) obtain d1 d2 where wr: "writeRow E cmd r existing now d = Inr d1"
    and mv: "if ?moved then moveBalance E dr cmd w ?dir (minor (C_Amount cmd)) (R_Balance r) now d1 = Inr d2 else d2 = d1"
    and em: "emits ((if R_State r = Processed then ''WagerTransactionProcessed'' else ''WagerTransactionRejected'',
        C_ID cmd, uuid_String E (C_ID cmd)) #
      (if ?moved then [(''WalletBalanceChanged'', C_WalletID cmd, uuid_String E (C_ID cmd))] else [])) d2 d'"
    and same: "same_tables d2 d'" by blast
  have "bank_step E d d' \<and> db_inbox d' = db_inbox d"
  proof (cases ?moved)
    case True
    from True mv em have "moveBalance E dr cmd w ?dir (minor (C_Amount cmd)) (R_Balance r) now d1 = Inr d2"
      "emits [(''WagerTransactionProcessed'', C_ID cmd, uuid_String E (C_ID cmd)),
        (''WalletBalanceChanged'', C_WalletID cmd, uuid_String E (C_ID cmd))] d2 d'" by simp_all
    with True show ?thesis
      using move_step [OF assms(2-4) ro _ wr assms(8,5-7) _ _ same] by blast
  next
    case False
    with mv have "d2 = d1" by simp
    moreover from this have "bank_step E d d'"
      using False em same st by (intro record_step [OF assms(2,3,4) ro wr assms(8)]) auto
    moreover obtain t where "d1 = d\<lparr>db_wagers := db_wagers d1\<rparr>" using writeRow_Inr [OF wr assms(2,8)] by blast
    then have "db_inbox d1 = db_inbox d" by (metis db.select_convs(4) db.surjective db.update_convs(2))
    ultimately show ?thesis using same by (simp add: same_tables_def)
  qed
  moreover have "db_wagers d' = db_wagers d1"
    using mv same by (auto simp: same_tables_def dest: moveBalance_wagers split: if_splits)
  ultimately show ?thesis using r writeRow_row [OF wr assms(2,8)] by simp
qed

section \<open>Commands\<close>

text \<open>An earlier view of the database: processed rows are never changed or removed later.\<close>

definition view_of :: "db \<Rightarrow> db \<Rightarrow> bool" where
  "view_of v d \<longleftrightarrow> (\<forall>r \<in> set (db_wagers v). T_State r = Processed \<longrightarrow> r \<in> set (db_wagers d))"

definition refused_result :: "WalletRecord \<Rightarrow> Command \<Rightarrow> string \<Rightarrow> Result" where
  "refused_result w cmd code = \<lparr>R_TransactionID = C_ID cmd, R_State = Rejected, R_Balance = W_Balance w,
     R_Amount = C_Amount cmd, R_FailureCode = code\<rparr>"

definition pending_result :: "WalletRecord \<Rightarrow> Command \<Rightarrow> Result" where
  "pending_result w cmd = \<lparr>R_TransactionID = C_ID cmd, R_State = PendingReference, R_Balance = W_Balance w,
     R_Amount = C_Amount cmd, R_FailureCode = []\<rparr>"

lemma writeRow_None: "insertTransaction E cmd r now d = writeRow E cmd r None now d"
  by (simp add: writeRow_def)

lemma writeRow_inbox: "writeRow E cmd r existing now d = Inr d1 \<Longrightarrow> db_inbox d1 = db_inbox d"
  by (auto simp: writeRow_def insertTransaction_def wagerRepo_Insert_def wagerRepo_UpdatePendingReference_def result_simps
      split: option.splits)

lemma persistRejected_step:
  assumes "persistRejected E dr cmd w now txDomain code d = Inr (r, d')" "bank_inv E d" "externals_ok E" "command_ok cmd"
    "wallet_row_ok w" "text_ok code"
  shows "bank_step E d d' \<and> db_inbox d' = db_inbox d \<and> r = refused_result w cmd code
    \<and> (\<exists>t \<in> set (db_wagers d'). row_for E cmd r t)"
proof -
  from assms(1) obtain d1 where d1: "writeRow E cmd (refused_result w cmd code) None now d = Inr d1"
    and r: "r = refused_result w cmd code"
    and "insertEvent E (draw_event dr) ''WagerTransactionRejected'' (C_Type cmd) (C_ID cmd)
           (C_WalletID cmd) (refused_result w cmd code) (W_Version w) now (C_IdempotencyKey cmd) [] d1 = Inr d'"
    by (auto simp: persistRejected_def refused_result_def result_simps Let_def writeRow_None)
  note ev = insertEvent_Inr [OF this(3)]
  have "result_of cmd (refused_result w cmd code)"
    using assms(5,6) by (simp add: result_of_def refused_result_def wallet_row_ok_def)
  from record_step [OF assms(2-4) this d1, of d'] ev r writeRow_inbox [OF d1] writeRow_row [OF d1 assms(2)] show ?thesis
    by (simp add: refused_result_def same_tables_def)
qed

lemma persistPendingReference_step:
  assumes "persistPendingReference E dr cmd w now txDomain d = Inr (r, d')" "bank_inv E d" "externals_ok E" "command_ok cmd"
    "wallet_row_ok w" "C_Type cmd = Refund \<or> C_Type cmd = Rollback" "C_ReferenceExternalID cmd \<noteq> []"
  shows "bank_step E d d' \<and> db_inbox d' = db_inbox d \<and> r = pending_result w cmd
    \<and> (\<exists>t \<in> set (db_wagers d'). row_for E cmd r t)"
proof -
  from assms(1) obtain d1 where d1: "writeRow E cmd (pending_result w cmd) None now d = Inr d1"
    and r: "r = pending_result w cmd"
    and "insertEvent E (draw_event dr) ''WagerTransactionPendingReference'' (C_Type cmd) (C_ID cmd)
           (C_WalletID cmd) (pending_result w cmd) (W_Version w) now (C_IdempotencyKey cmd) [] d1 = Inr d'"
    by (auto simp: persistPendingReference_def pending_result_def result_simps Let_def writeRow_None)
  note ev = insertEvent_Inr [OF this(3)]
  have "result_of cmd (pending_result w cmd)"
    using assms(5) by (simp add: result_of_def pending_result_def wallet_row_ok_def)
  from record_step [OF assms(2-4) this d1, of d'] ev r writeRow_inbox [OF d1] writeRow_row [OF d1 assms(2)] assms(6,7) show ?thesis
    by (simp add: pending_result_def same_tables_def)
qed

text \<open>
  Which transactions a reversal may undo: a refund a bet, a rollback a bet, a win or a refund; processed,
  with identities that are not the placeholder of migrated rows, of the same wallet, player, game and round
  and with the same amount.
\<close>

definition may_reverse :: "Command \<Rightarrow> WagerTransactionRecord \<Rightarrow> bool" where
  "may_reverse cmd rf \<longleftrightarrow> T_State rf = Processed \<and> ''legacy'' \<notin> {T_PlayerID rf, T_GameID rf, T_RoundID rf}
     \<and> (T_WalletID rf, T_PlayerID rf, T_GameID rf, T_RoundID rf) = (C_WalletID cmd, C_PlayerID cmd, C_GameID cmd, C_RoundID cmd)
     \<and> \<lparr>minor = T_Amount rf, currency = T_Currency rf\<rparr> = C_Amount cmd
     \<and> T_Type rf \<in> (if C_Type cmd = Refund then {Bet} else {Bet, Win, Refund})"

lemma validReference_iff: "validReference cmd rf \<longleftrightarrow> may_reverse cmd rf"
  by (cases "C_Amount cmd") (auto simp: validReference_def may_reverse_def legacyIdentity_def)

text \<open>
  The answer to a new command, by cases on the checks of the code; the reference is what the lookup
  in the view \<open>v\<close> finds.
\<close>

definition answer :: "db \<Rightarrow> WalletRecord \<Rightarrow> Command \<Rightarrow> Result" where
  "answer v w cmd =
     (if C_PlayerID cmd \<noteq> W_PlayerID w then refused_result w cmd FailureCodePlayerWalletMismatch
      else if C_Type cmd = Refund \<or> C_Type cmd = Rollback then
        if C_ReferenceExternalID cmd = [] then refused_result w cmd FailureCodeReferenceRequired
        else (case wagerRepo_FindByExternal (C_ProviderID cmd) (C_ReferenceExternalID cmd) v of
            Inl _ \<Rightarrow> pending_result w cmd
          | Inr rf \<Rightarrow> if may_reverse cmd rf then operation_result w cmd (Some (T_Type rf))
                     else refused_result w cmd FailureCodeReferenceInvalid)
      else operation_result w cmd None)"

lemma answer_eq:
  "answer v w cmd =
     (if C_PlayerID cmd \<noteq> W_PlayerID w then refused_result w cmd FailureCodePlayerWalletMismatch
      else if C_Type cmd = Refund \<or> C_Type cmd = Rollback then
        if C_ReferenceExternalID cmd = [] then refused_result w cmd FailureCodeReferenceRequired
        else (case wagerRepo_FindByExternal (C_ProviderID cmd) (C_ReferenceExternalID cmd) v of
            Inl _ \<Rightarrow> pending_result w cmd
          | Inr rf \<Rightarrow> if validReference cmd rf then operation_result w cmd (Some (T_Type rf))
                     else refused_result w cmd FailureCodeReferenceInvalid)
      else operation_result w cmd None)"
  unfolding answer_def validReference_iff by (rule refl)

lemma execute_step:
  assumes "executeInTx E dr v cmd now w d = Inr (r, d')" "bank_inv E d" "externals_ok E" "money_wf (C_Amount cmd)"
    "w \<in> set (db_wallets d)" "W_ID w = C_WalletID cmd" "view_of v d"
  shows "bank_step E d d' \<and> db_inbox d' = db_inbox d \<and> r = answer v w cmd
    \<and> (\<exists>t \<in> set (db_wagers d'). row_for E cmd r t)"
proof -
  have wok: "wallet_row_ok w" using bank_invD(3) [OF assms(2,5)] .
  from assms(1) obtain tx where tx: "wager_New (uuid_String E (C_ID cmd)) (C_ExternalID cmd) (C_ProviderID cmd)
      (uuid_String E (C_WalletID cmd)) (C_Type cmd) (C_Amount cmd) = Inr tx"
    by (auto simp: executeInTx_def bindR_Inr_conv)
  note ok = wager_New_command_ok(1) [OF tx assms(4)]
  note rej = persistRejected_step [OF _ assms(2,3) ok wok failure_code_texts(3), where r = r and d' = d']
    persistRejected_step [OF _ assms(2,3) ok wok failure_code_texts(4), where r = r and d' = d']
    persistRejected_step [OF _ assms(2,3) ok wok failure_code_texts(5), where r = r and d' = d']
  note pend = persistPendingReference_step [OF _ assms(2,3) ok wok, where r = r and d' = d']
  have app: "applyOperationInTx E dr cmd w tx reference None now d = Inr (r, d') \<Longrightarrow> reference_ok d cmd reference \<Longrightarrow>
      bank_step E d d' \<and> db_inbox d' = db_inbox d \<and> r = operation_result w cmd (map_option T_Type reference)
      \<and> (\<exists>t \<in> set (db_wagers d'). row_for E cmd r t)" for reference
    using applyOperation_step [OF _ assms(2,3) ok assms(5,6), where r = r and d' = d' and existing = None] by blast
  show ?thesis
  proof (cases "C_PlayerID cmd = W_PlayerID w \<and> (C_Type cmd = Refund \<or> C_Type cmd = Rollback) \<and> C_ReferenceExternalID cmd \<noteq> []")
    case False
    then show ?thesis
      using assms(1) tx rej app [of None]
      by (auto simp: executeInTx_def answer_eq reference_ok_def split: if_splits)
  next
    case True
    show ?thesis
    proof (cases "wagerRepo_FindByExternal (C_ProviderID cmd) (C_ReferenceExternalID cmd) v")
      case (Inl e)
      with True assms(1) tx pend show ?thesis by (auto simp: executeInTx_def answer_eq split: if_splits)
    next
      case (Inr rf)
      then have rf: "rf \<in> set (db_wagers v)" "T_ProviderID rf = C_ProviderID cmd" "T_ExternalID rf = C_ReferenceExternalID cmd"
        by (auto simp: wagerRepo_FindByExternal_def result_simps dest: find_SomeD)
      have "validReference cmd rf \<Longrightarrow> reference_ok d cmd (Some rf)"
        using rf True assms(7) by (auto simp: reference_ok_def view_of_def validReference_def split: if_splits)
      with Inr True assms(1) tx rej app [of "Some rf"] show ?thesis
        by (auto simp: executeInTx_def answer_eq split: if_splits)
    qed
  qed
qed

lemma process_step:
  assumes "processInTx E dr vs cmd now d = Inr (r, d')" "bank_inv E d" "externals_ok E" "money_wf (C_Amount cmd)"
    "view_of (view_second vs) d"
  shows "d' = d \<or> bank_step E d d' \<and> db_inbox d' = db_inbox d"
proof -
  from assms(1) have "d' = d \<or> (\<exists>w. walletRepo_FindForUpdate (C_WalletID cmd) d = Inr w \<and>
      executeInTx E dr (view_second vs) cmd now w d = Inr (r, d'))"
    by (auto simp: processInTx_def result_simps split: option.splits)
  then show ?thesis
    using execute_step [OF _ assms(2-4) _ _ assms(5), where r = r and d' = d'] wallets_by_id.lookup_Inr by blast
qed

lemma process_steps:
  assumes "processInTx E dr vs cmd now d = Inr (r, d')" "bank_inv E d" "externals_ok E" "money_wf (C_Amount cmd)"
    "view_of (view_second vs) d"
  shows "(bank_step E)\<^sup>*\<^sup>* d d'"
  using process_step [OF assms] by auto

text \<open>The inbox plays no role in the financial invariant.\<close>

lemma inbox_step: "d' = d\<lparr>db_inbox := x\<rparr> \<Longrightarrow> bank_step E d d'"
  by (rule bank_skip) (simp_all add: emits_def)

lemma message_steps:
  assumes "processMessageInTx E dr vs c m h cmd now d = Inr (x, d')" "bank_inv E d" "externals_ok E"
    "money_wf (C_Amount cmd)" "view_of (view_second vs) d"
  shows "(bank_step E)\<^sup>*\<^sup>* d d'"
proof -
  from assms(1) obtain b d1 r d2 where d1: "inboxRepo_InsertIfAbsent (index_fits E) \<lparr>I_ConsumerName = c, I_MessageID = m,
      I_PayloadHash = h, I_ReceivedAt = now, I_CompletedAt = None\<rparr> d = Inr (b, d1)"
    and d2: "processInTx E dr vs cmd now d1 = Inr (r, d2)" and d': "inboxRepo_MarkCompleted c m now d2 = Inr d'"
    by (auto simp: processMessageInTx_def result_simps)
  from d1 have "\<exists>x. d1 = d\<lparr>db_inbox := x\<rparr>"
    by (auto simp: inboxRepo_InsertIfAbsent_def result_simps split: if_splits) (metis db.surjective db.update_convs(4))
  then obtain x where x: "d1 = d\<lparr>db_inbox := x\<rparr>" ..
  note s1 = inbox_step [OF x, of E]
  have "view_of (view_second vs) d1" using assms(5) x by (simp add: view_of_def)
  note s2 = process_steps [OF d2 bank_inv_step [OF assms(3,2) s1] assms(3,4) this]
  have "bank_step E d2 d'" using d' by (intro inbox_step) (auto simp: inboxRepo_MarkCompleted_def result_simps)
  with s1 s2 show ?thesis by (meson converse_rtranclp_into_rtranclp rtranclp.rtrancl_into_rtrancl)
qed

section \<open>Opening a wallet\<close>

definition opening_result :: "uuid \<Rightarrow> Money \<Rightarrow> Result" where
  "opening_result i opening = \<lparr>R_TransactionID = i, R_State = Processed, R_Balance = minor opening, R_Amount = opening,
     R_FailureCode = []\<rparr>"

definition opening_row :: "externals \<Rightarrow> uuid \<Rightarrow> uuid \<Rightarrow> string \<Rightarrow> Money \<Rightarrow> time \<Rightarrow> WagerTransactionRecord" where
  "opening_row E oid i playerID opening now =
     \<lparr>T_ID = oid, T_ExternalID = ''opening-'' @ uuid_String E i, T_ProviderID = ''internal'', T_WalletID = i,
      T_PlayerID = playerID, T_GameID = ''internal'', T_RoundID = ''opening'', T_Type = Opening,
      T_Amount = minor opening, T_Currency = currency opening, T_State = Processed,
      T_IdempotencyKey = ''opening-'' @ uuid_String E i, T_PayloadHash = ''opening-'' @ uuid_String E i,
      T_ReferenceExternalID = [], T_ReferenceAttempts = 0, T_ReferenceNextAttemptAt = None, T_FailureCode = [],
      T_Result = Some (marshalResult E (opening_result oid opening)), T_CreatedAt = now, T_UpdatedAt = now\<rparr>"

definition opening_wallet :: "uuid \<Rightarrow> string \<Rightarrow> Money \<Rightarrow> time \<Rightarrow> WalletRecord" where
  "opening_wallet i playerID opening now = \<lparr>W_ID = i, W_PlayerID = playerID, W_Currency = currency opening,
     W_Balance = minor opening, W_Version = 1, W_CreatedAt = now, W_UpdatedAt = now\<rparr>"

definition opening_entry :: "uuid \<Rightarrow> uuid \<Rightarrow> uuid \<Rightarrow> Money \<Rightarrow> time \<Rightarrow> LedgerRecord" where
  "opening_entry eid i oid opening now = \<lparr>L_ID = eid, L_WalletID = i, L_TransactionID = oid, L_Direction = Credit,
     L_Currency = currency opening, L_Value = minor opening, L_BalanceBefore = 0, L_BalanceAfter = minor opening,
     L_Timestamp = now\<rparr>"

lemma opening_row_ok:
  assumes "externals_ok E" "money_valid opening" "0 < minor opening" "row_storable E (opening_row E oid i p opening now)"
  shows "tx_row_ok E (opening_row E oid i p opening now)"
proof -
  have "result_wf (opening_result oid opening)"
    using assms(2) by (auto simp: result_wf_def opening_result_def declared_state_def money_valid_def int64_defs)
  from result_roundtrip [OF assms(1) this] have "replayResult E (opening_row E oid i p opening now) = Inr (opening_result oid opening)"
    using assms(2) by (simp add: replayResult_def opening_row_def opening_result_def money_valid_def)
  with assms show ?thesis by (auto simp: tx_row_ok_def opening_row_def money_valid_def)
qed

lemma openWallet_Inr:
  assumes "openWalletInTx E dr i p opening now d = Inr (u, d')" "externals_ok E" "money_wf opening"
  shows "money_valid opening" "p \<noteq> []" "i \<notin> W_ID ` set (db_wallets d)"
    "if minor opening = 0 then d' = d\<lparr>db_wallets := db_wallets d @ [opening_wallet i p opening now]\<rparr>
     else 0 < minor opening \<and> fresh_tx (opening_row E (draw_opening dr) i p opening now) d \<and>
       row_storable E (opening_row E (draw_opening dr) i p opening now) \<and>
       db_wallets d' = db_wallets d @ [opening_wallet i p opening now] \<and>
       db_wagers d' = db_wagers d @ [opening_row E (draw_opening dr) i p opening now] \<and>
       db_ledger d' = db_ledger d @ [opening_entry (draw_entry dr) i (draw_opening dr) opening now] \<and>
       db_inbox d' = db_inbox d \<and> emits (announced E (opening_row E (draw_opening dr) i p opening now)) d d'"
proof -
  let ?t = "opening_row E (draw_opening dr) i p opening now" and ?w = "opening_wallet i p opening now"
  let ?d1 = "d\<lparr>db_wallets := db_wallets d @ [?w]\<rparr>"
  from assms(1) have v: "money_valid opening" and p: "p \<noteq> []"
    using money_wf_valid [OF assms(3)] by (auto simp: openWalletInTx_def result_simps wallet_New_def split: if_splits)
  show "money_valid opening" "p \<noteq> []" by (fact v p)+
  have zero: "money_Zero (currency opening) = Inr \<lparr>minor = 0, currency = currency opening\<rparr>"
    using v by (simp add: money_Zero_eq money_valid_def)
  from assms(1) have ins: "walletRepo_Insert (index_fits E) ?w d = Inr ?d1"
    by (auto simp: openWalletInTx_def result_simps walletRepo_Insert_def opening_wallet_def)
  then show "i \<notin> W_ID ` set (db_wallets d)"
    using wallets_by_id.ins_law [OF ins] by (simp add: opening_wallet_def)
  show "if minor opening = 0 then d' = ?d1
     else 0 < minor opening \<and> fresh_tx ?t d \<and> row_storable E ?t \<and> db_wallets d' = db_wallets d @ [?w] \<and> db_wagers d' = db_wagers d @ [?t] \<and>
       db_ledger d' = db_ledger d @ [opening_entry (draw_entry dr) i (draw_opening dr) opening now] \<and>
       db_inbox d' = db_inbox d \<and> emits (announced E ?t) d d'"
  proof (cases "minor opening = 0")
    case True
    with assms(1) ins show ?thesis by (auto simp: openWalletInTx_def result_simps opening_wallet_def)
  next
    case False
    with v have pos: "0 < minor opening" by (simp add: money_valid_def)
    from assms(1) False ins zero obtain d2 entry rcd d3 ch where
      d2: "wagerRepo_Insert (index_fits E) ?t ?d1 = Inr d2"
      and en: "ledger_New (uuid_String E (draw_entry dr)) (uuid_String E i) (uuid_String E (draw_opening dr)) Credit
         opening \<lparr>minor = 0, currency = currency opening\<rparr> opening now = Inr entry"
      and rc: "ledgerRecord E entry = Inr rcd" and d3: "ledgerRepo_Insert rcd d2 = Inr d3"
      and ev: "insertFinancialEvents E dr Opening i (opening_result (draw_opening dr) opening) 1 now
         (''opening-'' @ uuid_String E i) True ch d3 = Inr d'"
      by (auto simp: openWalletInTx_def result_simps opening_wallet_def opening_row_def opening_result_def Let_def)
    have z: "money_valid \<lparr>minor = 0, currency = currency opening\<rparr>" using v by (simp add: money_valid_def max_int64_def)
    have rcd: "rcd = opening_entry (draw_entry dr) i (draw_opening dr) opening now"
      using rc en assms(2) by (auto simp: ledger_New_Inr [OF v z v] ledgerRecord_def uuid_MustParse_def externals_okD opening_entry_def)
    have d3': "d3 = d\<lparr>db_wallets := db_wallets d @ [?w], db_wagers := db_wagers d @ [?t], db_ledger := db_ledger d @ [rcd]\<rparr>"
      and fresh: "fresh_tx ?t d" "row_storable E ?t"
      using d2 d3 by (auto simp: wagerRepo_Insert_def ledgerRepo_Insert_def result_simps wager_transactions_constraints_def
          wager_transactions_checks_def fresh_tx_def list_ex_iff row_storable_def)
    note e = insertFinancialEvents_Inr [OF ev]
    have "announced E ?t = [(''WagerTransactionProcessed'', draw_opening dr, uuid_String E (draw_opening dr)),
        (''WalletBalanceChanged'', i, uuid_String E (draw_opening dr))]"
      using pos by (simp add: announced_def opening_row_def Let_def)
    with e have "emits (announced E ?t) d d'"
      using emits_cong [of d d3 d' d'] d3' by (simp add: opening_result_def)
    with e pos False fresh d3' rcd show ?thesis by (simp add: same_tables_def)
  qed
qed

lemma openWallet_steps:
  assumes "openWalletInTx E dr i p opening now d = Inr (u, d')" "externals_ok E" "money_wf opening"
  shows "(bank_step E)\<^sup>*\<^sup>* d d'"
proof -
  note o = openWallet_Inr [OF assms]
  let ?w = "opening_wallet i p opening now" and ?t = "opening_row E (draw_opening dr) i p opening now"
    and ?e = "opening_entry (draw_entry dr) i (draw_opening dr) opening now"
  let ?v = "?w\<lparr>W_Balance := 0\<rparr>"
  let ?dm = "d\<lparr>db_wallets := db_wallets d @ [?v]\<rparr>"
  have wok: "wallet_row_ok ?w" "wallet_row_ok ?v"
    using o(1,2) by (auto simp: wallet_row_ok_def opening_wallet_def money_valid_def max_int64_def)
  have s1: "bank_step E d ?dm"
    using o(3) wok by (intro bank_open [of ?v]) (auto simp: opening_wallet_def emits_def)
  show ?thesis
  proof (cases "minor opening = 0")
    case True
    then have "?dm = d'" using o(4) by (simp add: opening_wallet_def)
    with s1 show ?thesis by auto
  next
    case False
    with o(4) have pos: "0 < minor opening" and f: "fresh_tx ?t ?dm" and st: "row_storable E ?t" and d': "db_wallets d' = db_wallets d @ [?w]"
      "db_wagers d' = db_wagers d @ [?t]" "db_ledger d' = db_ledger d @ [?e]" and em: "emits (announced E ?t) d d'"
      by (auto simp: fresh_tx_def)
    have "tx_write ?t ?dm (db_wagers d')" using tx_append [OF f] d' by simp
    moreover have "moves ?t" using pos by (simp add: moves_def opening_row_def)
    moreover have "movement ?v ?w ?t ?e"
      using wok by (simp add: movement_def opening_wallet_def opening_row_def opening_entry_def)
    moreover have "entry_of ?dm ?t ?e"
      by (simp add: entry_of_def opening_row_def opening_entry_def is_reversal_def movement_direction_def)
    moreover have "emits (announced E ?t) ?dm d'" using em emits_cong [of d ?dm d' d'] by simp
    moreover have "\<not> reversal_clash (T_ID ?t) (T_ProviderID ?t) (T_ReferenceExternalID ?t) (T_State ?t) ?dm"
      by (simp add: reversal_clash_def opening_row_def)
    ultimately have "bank_step E ?dm d'"
      using opening_row_ok [OF assms(2) o(1) pos st] d' by (intro bank_move [of ?t ?dm d' E "db_wallets d" ?v "[]" ?w ?e]) simp_all
    with s1 show ?thesis by auto
  qed
qed

section \<open>Pending references\<close>

lemma record_command:
  assumes "tx_row_ok E t" "T_State t = PendingReference" "commandFromRecord t = Inr cmd"
  shows "command_ok cmd" "money_wf (C_Amount cmd)" "C_Type cmd = Refund \<or> C_Type cmd = Rollback" "C_ReferenceExternalID cmd \<noteq> []"
  using assms
  by (auto simp: tx_row_ok_def commandFromRecord_Inr command_ok_def validExternalType_iff validAmount_iff is_reversal_def
      money_valid_def money_wf_def int64_defs)

lemma rejectPending_step:
  assumes "rejectPendingReferenceInTx E dr ex cmd now code d = Inr (b, d')" "bank_inv E d" "externals_ok E"
    "pending_record d cmd ex" "text_ok code"
  shows "bank_step E d d' \<and> b = False \<and> db_inbox d' = db_inbox d \<and>
    (\<exists>w. walletRepo_FindForUpdate (C_WalletID cmd) d = Inr w \<and>
       writeRow E cmd (refused_result w cmd code) (Some ex) now d = Inr (d\<lparr>db_wagers := db_wagers d'\<rparr>))"
proof -
  from assms(1) obtain w d1 where w: "walletRepo_FindForUpdate (C_WalletID cmd) d = Inr w"
    and d1: "writeRow E cmd (refused_result w cmd code) (Some ex) now d = Inr d1" and b: "b = False"
    and "insertEvent E (draw_event dr) ''WagerTransactionRejected'' (C_Type cmd) (C_ID cmd) (C_WalletID cmd)
       (refused_result w cmd code) (W_Version w) now (C_IdempotencyKey cmd) [] d1 = Inr d'"
    by (auto simp: rejectPendingReferenceInTx_def refused_result_def writeRow_def result_simps Let_def)
  note ev = insertEvent_Inr [OF this(4)]
  from assms(4) obtain old where old: "old \<in> set (db_wagers d)" "T_State old = PendingReference" "commandFromRecord old = Inr cmd"
    by (auto simp: pending_record_def)
  note ok = record_command(1) [OF bank_invD(4) [OF assms(2) old(1)] old(2,3)]
  have "wallet_row_ok w" using wallets_by_id.lookup_Inr [OF w] bank_invD(3) [OF assms(2)] by blast
  then have "result_of cmd (refused_result w cmd code)" using assms(5) by (simp add: result_of_def refused_result_def wallet_row_ok_def)
  from record_step [OF assms(2,3) ok this d1, of d'] ev assms(4) have st: "bank_step E d d'"
    by (simp add: refused_result_def)
  have "d1 = d\<lparr>db_wagers := db_wagers d1\<rparr>" using writeRow_Inr [OF d1 assms(2)] assms(4) by blast
  with ev have "d1 = d\<lparr>db_wagers := db_wagers d'\<rparr>" by (simp add: same_tables_def)
  with st b w d1 ev writeRow_inbox [OF d1] show ?thesis by (auto simp: same_tables_def)
qed

lemma advance_step:
  assumes "advancePendingReferenceInTx E dr t now m base code d = Inr (b, d')" "bank_inv E d" "externals_ok E"
    "t \<in> set (db_wagers d)" "T_State t = PendingReference" "text_ok code"
  shows "bank_step E d d'"
proof -
  let ?ex = "t\<lparr>T_ReferenceAttempts := wrap64 (T_ReferenceAttempts t + 1)\<rparr>"
  have att: "0 \<le> T_ReferenceAttempts t" using bank_invD(4) [OF assms(2,4)] assms(5) by (simp add: tx_row_ok_def)
  show ?thesis
  proof (cases "wrap64 (T_ReferenceAttempts t + 1) \<ge> m")
    case True
    with assms(1) obtain cmd b' where c: "commandFromRecord ?ex = Inr cmd"
      and "rejectPendingReferenceInTx E dr ?ex cmd now code d = Inr (b', d')"
      by (auto simp: advancePendingReferenceInTx_def result_simps Let_def)
    moreover have "pending_record d cmd ?ex"
      using c assms(4,5) by (auto simp: pending_record_def commandFromRecord_Inr)
    ultimately show ?thesis using rejectPending_step [OF _ assms(2,3) _ assms(6)] by blast
  next
    case False
    let ?rec = "?ex\<lparr>T_ReferenceNextAttemptAt := Some (nextReferenceAttempt now base (T_ReferenceAttempts ?ex)), T_UpdatedAt := now\<rparr>"
    from False assms(1) have up: "wagerRepo_UpdatePendingReference (index_fits E) ?rec d = Inr d'"
      by (auto simp: advancePendingReferenceInTx_def result_simps Let_def)
    from assms(4) obtain xs ys where split: "db_wagers d = xs @ t # ys" by (meson split_list)
    have "T_ID ?rec = T_ID t" by simp
    note u = updatePending_Inr [OF up split this bank_invD(1) [OF assms(2)]]
    have "wrap64 (T_ReferenceAttempts t + 1) = T_ReferenceAttempts t + 1"
      using att bank_invD(4) [OF assms(2,4)] assms(5) by (intro wrap64_id) (simp add: tx_row_ok_def int64_defs)
    with u assms(5) show ?thesis
      by (intro bank_retry [OF split assms(5) u(2)]) (auto simp: emits_def)
  qed
qed

end
