(* ===== verification/Service_Runs.thy ===== *)
theory Service_Runs
  imports Financial_Refinement
begin

text \<open>
  Runs of the financial service and the outbox: the step relation over the operations that transports
  and workers call, with any interleaving of sessions at the granularity of their transactions, the proof that
  each operation performs steps of \<open>Bank\<close>, and the invariant of every reachable state. The last
  section is a concrete run.
\<close>

section \<open>Settling a pending reference\<close>

lemma pending_step:
  assumes "processPendingReferenceInTx E dr t now m base d = Inr (b, d')" "bank_inv E d" "externals_ok E"
    "t \<in> set (db_wagers d)" "T_State t = PendingReference"
  shows "bank_step E d d'"
proof -
  from assms(1) obtain cmd where c: "commandFromRecord t = Inr cmd"
    by (auto simp: processPendingReferenceInTx_def bindR_Inr_conv)
  note rc = record_command [OF bank_invD(4) [OF assms(2,4)] assms(5) c]
  have pr: "pending_record d cmd t" using assms(4,5) c by (auto simp: pending_record_def)
  note adv = advance_step [OF _ assms(2-5), where d' = d'] and codes = failure_code_texts(5-8)
  have rej: "rejectPendingReferenceInTx E dr t cmd now code d = Inr (b', d') \<Longrightarrow> text_ok code \<Longrightarrow> bank_step E d d'" for code b'
    using rejectPending_step [OF _ assms(2,3) pr] by blast
  show ?thesis
  proof (cases "wagerRepo_FindByExternal (T_ProviderID t) (T_ReferenceExternalID t) d")
    case (Inl e)
    with assms(1) c adv codes show ?thesis
      by (auto simp: processPendingReferenceInTx_def bindR_Inr_conv split: if_splits)
  next
    case (Inr rf)
    show ?thesis
    proof (cases "T_State rf = Processed \<and> validReference cmd rf")
      case False
      with Inr assms(1) c adv rej codes show ?thesis
        by (auto simp: processPendingReferenceInTx_def bindR_Inr_conv split: if_splits)
    next
      case True
      with Inr assms(1) c obtain w tx r where w: "walletRepo_FindForUpdate (C_WalletID cmd) d = Inr w"
        and app: "applyOperationInTx E dr cmd w tx (Some rf) (Some t) now d = Inr (r, d')"
        by (auto simp: processPendingReferenceInTx_def bindR_Inr_conv)
      have "rf \<in> set (db_wagers d)" "T_ProviderID rf = T_ProviderID t" "T_ExternalID rf = T_ReferenceExternalID t"
        using Inr by (auto simp: wagerRepo_FindByExternal_def result_simps dest: find_SomeD)
      then have "reference_ok d cmd (Some rf)"
        using rc True c by (auto simp: reference_ok_def commandFromRecord_Inr)
      with applyOperation_step [OF app assms(2,3) rc(1)] wallets_by_id.lookup_Inr [OF w] pr show ?thesis by blast
    qed
  qed
qed

lemma claim_steps:
  assumes "claimPendingReferenceInTx E dr locked now m base d = Inr (x, d')" "bank_inv E d" "externals_ok E"
  shows "(bank_step E)\<^sup>*\<^sup>* d d'"
proof (cases "wagerRepo_FindNextPendingReferenceForUpdate locked now d")
  case (Inl e)
  with assms(1) show ?thesis by (auto simp: claimPendingReferenceInTx_def split: if_splits)
next
  case (Inr t)
  then have "t \<in> set (filter (pending_due locked now) (db_wagers d))"
    by (auto simp: wagerRepo_FindNextPendingReferenceForUpdate_def result_simps dest: min_by_Some)
  then have t: "t \<in> set (db_wagers d)" "T_State t = PendingReference" by (auto simp: pending_due_def)
  from Inr assms(1) obtain b where "processPendingReferenceInTx E dr t now m base d = Inr (b, d')"
    by (auto simp: claimPendingReferenceInTx_def bindR_Inr_conv)
  from pending_step [OF this assms(2,3) t] show ?thesis by blast
qed

section \<open>Relaying an event\<close>

lemma update_event:
  assumes "bank_inv E d" "e \<in> set (db_outbox d)" "relay_row d e (f e)"
    "d' = d\<lparr>db_outbox := update_where (\<lambda>x. O_EventID x = O_EventID e) f (db_outbox d)\<rparr>"
  shows "bank_step E d d'"
proof -
  from assms(2) obtain us vs where split: "db_outbox d = us @ e # vs" by (meson split_list)
  have "distinct (map O_EventID (us @ e # vs))" using assms(1) split by (simp add: bank_inv_def outbox_ok_def)
  from update_where_split [OF this refl, of f] assms(3,4) split show ?thesis
    by (intro bank_relay [OF split assms(3)]) simp_all
qed

lemma claim_relay:
  assumes "outboxRepo_ClaimOneRecord token locked now lease d = Inr (x, d')" "bank_inv E d"
  shows "bank_step E d d'"
proof -
  from assms(1) obtain e where m: "min_by (\<lambda>e. (O_NextAttemptAt e, O_EventID e))
      (filter (\<lambda>e. claimable now lease d e \<and> O_EventID e \<notin> set locked) (db_outbox d)) = Some e"
    and c: "claim_event token now e d = Inr (x, d')"
    by (auto simp: outboxRepo_ClaimOneRecord_def split: option.splits)
  from min_by_Some [OF m] have e: "e \<in> set (db_outbox d)" "claimable now lease d e" by auto
  then have "relay_row d e (claimed_event now token e)" by (intro relay_claim) (auto simp: claimable_def)
  with c e(1) show ?thesis by (intro update_event [OF assms(2) e(1)]) (auto simp: claim_event_def split: if_splits)
qed

lemma mark_relay:
  assumes "mark_rows env i token f d = (r, d')" "bank_inv E d" "\<And>e. O_Status e = CLAIMED \<Longrightarrow> relay_row d e (f e)"
  shows "(bank_step E)\<^sup>*\<^sup>* d d'"
proof -
  let ?d1 = "d\<lparr>db_outbox := update_where (holds_claim i token) f (db_outbox d)\<rparr>"
  from assms(1) have "d' = d \<or> d' = ?d1"
    by (auto simp: mark_rows_def WithTx_def split: option.splits commit_outcome.splits)
  moreover have "(bank_step E)\<^sup>*\<^sup>* d ?d1"
  proof (cases "\<exists>e \<in> set (db_outbox d). holds_claim i token e")
    case False
    then have "update_where (holds_claim i token) f (db_outbox d) = db_outbox d" by (auto intro: update_where_id)
    then show ?thesis by simp
  next
    case True
    then obtain e where e: "e \<in> set (db_outbox d)" "holds_claim i token e" by blast
    have "distinct (map O_EventID (db_outbox d))" using assms(2) by (simp add: bank_inv_def outbox_ok_def)
    then have "x \<in> set (db_outbox d) \<Longrightarrow> holds_claim i token x \<longleftrightarrow> O_EventID x = O_EventID e" for x
      using e by (auto simp: holds_claim_def distinct_map inj_on_def)
    then have "?d1 = d\<lparr>db_outbox := update_where (\<lambda>x. O_EventID x = O_EventID e) f (db_outbox d)\<rparr>"
      by (simp add: update_where_def)
    from update_event [OF assms(2) e(1) assms(3) this] e(2) show ?thesis by (auto simp: holds_claim_def)
  qed
  ultimately show ?thesis by auto
qed

section \<open>Runs of the service\<close>

text \<open>
  One operation of one session: a call of the service, a statement of an outbox worker (any worker, any
  event, any token), or an update of the shared metrics. The amounts that reach the service are values
  of the Go type, the lookups see an earlier state of the table, and nothing is assumed of the
  connection, the clock, the drawn identifiers or the results.
\<close>

inductive service_step :: "externals \<Rightarrow> Service \<Rightarrow> Service \<Rightarrow> bool" for E where
  step_open: "money_wf opening \<Longrightarrow> OpenWallet E env dr i playerID opening now s = (r, s') \<Longrightarrow> service_step E s s'"
| step_process: "money_wf (C_Amount cmd) \<Longrightarrow> view_of (view_second vs) (svc_db s) \<Longrightarrow>
    Process E env env2 dr vs cmd now elapsed s = (r, s') \<Longrightarrow> service_step E s s'"
| step_message: "money_wf (C_Amount cmd) \<Longrightarrow> view_of (view_second vs) (svc_db s) \<Longrightarrow>
    ProcessMessage E env dr vs consumer messageID payloadHash cmd now elapsed s = (r, s') \<Longrightarrow> service_step E s s'"
| step_pending: "ProcessPendingReference E env dr locked now maxAttempts base s = (r, s') \<Longrightarrow> service_step E s s'"
| step_reconcile: "Reconcile E read1 read2 walletID s = (r, s') \<Longrightarrow> service_step E s s'"
| step_claim: "WithTx env (outboxRepo_ClaimOneRecord token locked now lease) (svc_db s) = (r1, d) \<Longrightarrow>
    service_step E s (s\<lparr>svc_db := d\<rparr>)"
| step_published: "outboxRepo_MarkPublished env eventID token now (svc_db s) = (r2, d) \<Longrightarrow> service_step E s (s\<lparr>svc_db := d\<rparr>)"
| step_retried: "outboxRepo_MarkRetry env eventID token attempts nextAttemptAt lastError maxAttempts (svc_db s) = (r2, d) \<Longrightarrow>
    service_step E s (s\<lparr>svc_db := d\<rparr>)"
| step_observe: "service_step E s (s\<lparr>svc_metrics := m\<rparr>)"

inductive_cases service_stepE: "service_step E s s'"

lemma WithTx_steps:
  assumes "WithTx env fn d = (r, d')" "\<And>a d1. fn d = Inr (a, d1) \<Longrightarrow> (bank_step E)\<^sup>*\<^sup>* d d1"
  shows "(bank_step E)\<^sup>*\<^sup>* d d'"
  using assms by (cases rule: WithTx_cases [of env fn d]) auto

lemma prepare_amount: "prepareCommand E cmd = Inr p \<Longrightarrow> C_Amount p = C_Amount cmd"
  by (auto simp: prepareCommand_def result_simps)

lemma resolve_db: "resolveIdentityConflict E env cmd d = (r, d') \<Longrightarrow> d' = d"
  unfolding resolveIdentityConflict_def
  by (cases rule: WithTx_cases [of env "\<lambda>d. bindR (findExistingTransaction cmd d) (\<lambda>existing.
       case existing of None \<Rightarrow> Inl ErrIdempotencyConflict
       | Some record \<Rightarrow> bindR (replayResult E record) (\<lambda>result. Inr (result, d)))" d])
     (auto simp: result_simps split: option.splits)

lemma service_step_bank:
  assumes "service_step E s s'" "bank_inv E (svc_db s)" "externals_ok E"
  shows "(bank_step E)\<^sup>*\<^sup>* (svc_db s) (svc_db s')"
  using assms(1)
proof cases
  case (step_open amt env dr i p now r)
  then have "WithTx env (openWalletInTx E dr i p amt now) (svc_db s) = (r, svc_db s')"
    by (auto simp: OpenWallet_def split: prod.splits)
  then show ?thesis using openWallet_steps [OF _ assms(3) step_open(1)] by (rule WithTx_steps)
next
  case (step_process cmd vs env env2 dr now el r)
  show ?thesis
  proof (cases "prepareCommand E cmd")
    case (Inl e)
    with step_process show ?thesis by (simp add: Process_def)
  next
    case (Inr p)
    obtain r1 d1 where tx: "WithTx env (processInTx E dr vs p now) (svc_db s) = (r1, d1)" by fastforce
    have "money_wf (C_Amount p)" using step_process(1) prepare_amount [OF Inr] by simp
    then have "(bank_step E)\<^sup>*\<^sup>* (svc_db s) d1"
      using process_steps [OF _ assms(2,3) _ step_process(2)] WithTx_steps [OF tx] by blast
    moreover have "svc_db s' = d1"
      using step_process(3) Inr tx by (auto simp: Process_def split: sum.splits if_splits prod.splits dest: resolve_db)
    ultimately show ?thesis by simp
  qed
next
  case (step_message cmd vs env dr c m h now el r)
  show ?thesis
  proof (cases "\<exists>p. prepareCommand E cmd = Inr p \<and> C_PayloadHash p = h")
    case False
    with step_message show ?thesis by (auto simp: ProcessMessage_def split: sum.splits)
  next
    case True
    then obtain p where p: "prepareCommand E cmd = Inr p" "C_PayloadHash p = h" by blast
    obtain r1 d1 where tx: "WithTx env (processMessageInTx E dr vs c m h p now) (svc_db s) = (r1, d1)" by fastforce
    have "money_wf (C_Amount p)" using step_message(1) prepare_amount [OF p(1)] by simp
    then have "(bank_step E)\<^sup>*\<^sup>* (svc_db s) d1"
      using message_steps [OF _ assms(2,3) _ step_message(2)] WithTx_steps [OF tx] by blast
    moreover have "svc_db s' = d1"
      using step_message(3) p tx by (auto simp: ProcessMessage_def Let_def split: sum.splits if_splits prod.splits)
    ultimately show ?thesis by simp
  qed
next
  case (step_pending env dr locked now m base r)
  obtain r1 d1 where tx: "WithTx env (claimPendingReferenceInTx E dr locked now (if m < 1 then 1 else m) base) (svc_db s) = (r1, d1)"
    by fastforce
  then have "(bank_step E)\<^sup>*\<^sup>* (svc_db s) d1" using claim_steps [OF _ assms(2,3)] by (rule WithTx_steps)
  moreover have "svc_db s' = d1"
    using step_pending tx by (auto simp: ProcessPendingReference_def Let_def split: sum.splits prod.splits)
  ultimately show ?thesis by simp
next
  case (step_reconcile read1 read2 w r)
  then show ?thesis by (auto simp: Reconcile_def Let_def split: sum.splits if_splits)
next
  case (step_claim env token locked now lease r d)
  have "(bank_step E)\<^sup>*\<^sup>* (svc_db s) d"
    using claim_relay [OF _ assms(2)] by (intro WithTx_steps [OF step_claim(2)]) blast
  with step_claim(1) show ?thesis by simp
next
  case (step_published env i token now r d)
  have "mark_rows env i token (published_event now) (svc_db s) = (r, d)" using step_published(2) by (simp add: outboxRepo_MarkPublished_def)
  from mark_relay [OF this assms(2) relay_publish] step_published(1) show ?thesis by simp
next
  case (step_retried env i token attempts nxt err m r d)
  let ?f = "retried_event (if attempts \<ge> m then FAILED else PENDING) nxt err"
  have "mark_rows env i token ?f (svc_db s) = (r, d)" using step_retried(2) by (simp add: outboxRepo_MarkRetry_def Let_def)
  then have "(bank_step E)\<^sup>*\<^sup>* (svc_db s) d" by (rule mark_relay [OF _ assms(2) relay_retry]) auto
  with step_retried(1) show ?thesis by simp
next
  case (step_observe m)
  then show ?thesis by simp
qed

definition service_init :: "externals \<Rightarrow> Service \<Rightarrow> bool" where
  "service_init E s \<longleftrightarrow> externals_ok E \<and> svc_db s = empty_db"

definition service_inv :: "externals \<Rightarrow> Service \<Rightarrow> bool" where
  "service_inv E s \<longleftrightarrow> externals_ok E \<and> bank_inv E (svc_db s)"

interpretation service: invariant_system "service_init E" "service_step E" "service_inv E" for E
proof
  show "service_init E s \<Longrightarrow> service_inv E s" for s
    using bank_inv_empty by (simp add: service_init_def service_inv_def)
  show "service_inv E s \<Longrightarrow> service_step E s s' \<Longrightarrow> service_inv E s'" for s s'
    using service_step_bank [of E s s'] bank_inv_steps [of E "svc_db s" "svc_db s'"] by (simp add: service_inv_def)
qed

abbreviation service_reachable :: "externals \<Rightarrow> Service \<Rightarrow> bool" where
  "service_reachable E s \<equiv> reachable (service_init E) (service_step E) s"

lemma reachable_bank: "service_reachable E s \<Longrightarrow> externals_ok E \<and> bank_inv E (svc_db s)"
  using service.reachable_inv by (auto simp: service_inv_def)

section \<open>A concrete run\<close>

text \<open>
  A wallet opened with 1.00 BRL, a bet of 0.40 and its refund: the examples of the properties below.
\<close>

definition demo_draws :: "uuid \<Rightarrow> draws" where
  "demo_draws n = \<lparr>draw_opening = 100 + n, draw_entry = 200 + n, draw_event = 300 + n, draw_change = 400 + n\<rparr>"

definition demo_command :: "uuid \<Rightarrow> Type \<Rightarrow> int64 \<Rightarrow> string \<Rightarrow> string \<Rightarrow> Command" where
  "demo_command i k amount external reference =
     \<lparr>C_ID = i, C_WalletID = 7, C_ExternalID = external, C_ProviderID = ''prov'', C_PlayerID = ''p'', C_GameID = ''g'',
      C_RoundID = ''r'', C_IdempotencyKey = external, C_PayloadHash = [], C_ReferenceExternalID = reference, C_Type = k,
      C_Amount = \<lparr>minor = amount, currency = ''BRL''\<rparr>\<rparr>"

definition demo_process :: "uuid \<Rightarrow> Command \<Rightarrow> Service \<Rightarrow> Result result \<times> Service" where
  "demo_process n cmd s =
     Process example_externals tx_ok tx_ok (demo_draws n) (serial_views (svc_db s)) cmd 2 5 s"

definition demo_open :: Service where
  "demo_open = snd (OpenWallet example_externals tx_ok (demo_draws 0) 7 ''p'' \<lparr>minor = 100, currency = ''BRL''\<rparr> 1
     \<lparr>svc_db = empty_db, svc_metrics = Some NewMetrics\<rparr>)"

definition demo_bet :: Service where
  "demo_bet = snd (demo_process 1 (demo_command 1 Bet 40 ''x1'' []) demo_open)"

definition demo_refund :: Service where
  "demo_refund = snd (demo_process 2 (demo_command 2 Refund 40 ''x2'' ''x1'') demo_bet)"

lemma demo_money: "money_wf \<lparr>minor = 100, currency = ''BRL''\<rparr>" "money_wf \<lparr>minor = 40, currency = ''BRL''\<rparr>"
  by (simp_all add: money_wf_def currencyPattern_def int64_defs)

lemma serial_view: "view_of (view_second (serial_views d)) d"
  by (simp add: view_of_def serial_views_def)

lemma demo_process_step:
  assumes "money_wf (C_Amount cmd)"
  shows "service_step example_externals s (snd (demo_process n cmd s))"
proof -
  have v: "view_of (view_second (serial_views (svc_db s))) (svc_db s)" by (rule serial_view)
  show ?thesis
    unfolding demo_process_def by (rule step_process [OF assms v]) (rule surjective_pairing)
qed

lemma demo_reachable:
  "service_reachable example_externals demo_open" "service_reachable example_externals demo_bet"
  "service_reachable example_externals demo_refund"
proof -
  let ?s0 = "\<lparr>svc_db = empty_db, svc_metrics = Some NewMetrics\<rparr>"
  have "service_reachable example_externals ?s0"
    by (rule reach_init) (simp add: service_init_def example_externals_ok)
  moreover have "service_step example_externals ?s0 demo_open"
    unfolding demo_open_def by (rule step_open [OF demo_money(1)]) (rule surjective_pairing)
  ultimately show o: "service_reachable example_externals demo_open" by (rule reach_step)
  have "service_step example_externals demo_open demo_bet"
    unfolding demo_bet_def by (rule demo_process_step) (simp add: demo_command_def demo_money)
  with o show b: "service_reachable example_externals demo_bet" by (rule reach_step)
  have "service_step example_externals demo_bet demo_refund"
    unfolding demo_refund_def by (rule demo_process_step) (simp add: demo_command_def demo_money)
  with b show "service_reachable example_externals demo_refund" by (rule reach_step)
qed

lemma demo_bet_wallets: "db_wallets (svc_db demo_bet) = [\<lparr>W_ID = 7, W_PlayerID = ''p'', W_Currency = ''BRL'',
    W_Balance = 60, W_Version = 2, W_CreatedAt = 1, W_UpdatedAt = 2\<rparr>]"
  by code_simp

lemma demo_refund_wallets: "db_wallets (svc_db demo_refund) = [\<lparr>W_ID = 7, W_PlayerID = ''p'', W_Currency = ''BRL'',
    W_Balance = 100, W_Version = 3, W_CreatedAt = 1, W_UpdatedAt = 2\<rparr>]"
  by code_simp

lemma demo_refund_wagers:
  "map (\<lambda>t. (T_ID t, T_Type t, T_State t, T_Amount t, T_ProviderID t, T_ReferenceExternalID t)) (db_wagers (svc_db demo_refund)) =
     [(100, Opening, Processed, 100, ''internal'', []), (1, Bet, Processed, 40, ''prov'', []),
      (2, Refund, Processed, 40, ''prov'', ''x1'')]"
  by code_simp

lemma demo_refund_ledger:
  "db_ledger (svc_db demo_refund) =
     [\<lparr>L_ID = 200, L_WalletID = 7, L_TransactionID = 100, L_Direction = Credit, L_Currency = ''BRL'', L_Value = 100,
       L_BalanceBefore = 0, L_BalanceAfter = 100, L_Timestamp = 1\<rparr>,
      \<lparr>L_ID = 201, L_WalletID = 7, L_TransactionID = 1, L_Direction = Debit, L_Currency = ''BRL'', L_Value = 40,
       L_BalanceBefore = 100, L_BalanceAfter = 60, L_Timestamp = 2\<rparr>,
      \<lparr>L_ID = 202, L_WalletID = 7, L_TransactionID = 2, L_Direction = Credit, L_Currency = ''BRL'', L_Value = 40,
       L_BalanceBefore = 60, L_BalanceAfter = 100, L_Timestamp = 2\<rparr>]"
  by code_simp

end
