(* ===== verification/Ledger_Properties.thy ===== *)
theory Ledger_Properties
  imports Service_Runs
begin

text \<open>
  What holds in every state the financial service can reach: the balance of a wallet is its ledger,
  a transaction moves money at most once, a reversal undoes its reference, identities are unique,
  versions and events count the movements. Each property reads one part of the invariant of
  \<open>Bank\<close> in the terms of the tables.
\<close>

text \<open>C1: In every reachable state a wallet's balance is a non-negative \<^verbatim>\<open>int64\<close>, equals
  the credits minus the debits of its ledger entries, and these entries, in the order in which they
  were written, form a gapless chain from zero to the balance. This holds for every interleaving of
  opened wallets, commands, messages and pending references, with failing, lost and ambiguous commits
  and lookups that saw an earlier database.\<close>

theorem balance_matches_ledger:
  assumes "service_reachable E s" "w \<in> set (db_wallets (svc_db s))"
  defines "es \<equiv> entries_of (W_ID w) (svc_db s)"
  shows "0 \<le> W_Balance w \<and> W_Balance w \<le> max_int64 \<and> W_Balance w = (\<Sum>e \<leftarrow> es. signed_entry e)
    \<and> ledger_chain 0 es = Some (W_Balance w) \<and> (\<forall>e \<in> set es. L_Currency e = W_Currency w)"
proof -
  have inv: "bank_inv E (svc_db s)" using reachable_bank [OF assms(1)] by simp
  then have chain: "ledger_chain 0 es = Some (W_Balance w)"
    using assms(2) by (auto simp: bank_inv_def balances_ok_def es_def)
  have "L_Currency e = W_Currency w" if "e \<in> set es" for e
  proof -
    from that inv obtain w' where "w' \<in> set (db_wallets (svc_db s))" "W_ID w' = W_ID w" "scan_ok (W_Currency w') e"
      by (auto simp: bank_inv_def entries_ok_def es_def entries_of_def)
    moreover from this have "w' = w"
      using bank_invD(2) [OF inv] assms(2) by (auto simp: distinct_map inj_on_def)
    ultimately show ?thesis by (simp add: scan_ok_def)
  qed
  with chain ledger_chain_sum [OF chain] bank_invD(3) [OF inv assms(2)] show ?thesis
    by (simp add: wallet_row_ok_def)
qed

theorem balance_matches_ledger_witness:
  "(100::int) = (\<Sum>e \<leftarrow> entries_of 7 (svc_db demo_refund). signed_entry e)"
  using balance_matches_ledger [OF demo_reachable(3), of "hd (db_wallets (svc_db demo_refund))"]
  by (simp add: demo_refund_wallets)

text \<open>C2: In every reachable state a processed transaction with a positive amount has exactly one
  ledger entry, on its own wallet, with its own amount and currency and in the direction of its type;
  any other transaction has none, and every entry belongs to a recorded transaction.\<close>

theorem one_entry_per_movement:
  assumes "service_reachable E s" "t \<in> set (db_wagers (svc_db s))"
  shows "(if T_State t = Processed \<and> 0 < T_Amount t
      then \<exists>e. entries_for (T_ID t) (svc_db s) = [e] \<and> L_WalletID e = T_WalletID t \<and> L_Value e = T_Amount t
        \<and> L_Currency e = T_Currency t \<and> (T_Type t = Bet \<longrightarrow> L_Direction e = Debit)
        \<and> (T_Type t \<in> {Opening, Win, Refund} \<longrightarrow> L_Direction e = Credit)
      else entries_for (T_ID t) (svc_db s) = [])
    \<and> (\<forall>e \<in> set (db_ledger (svc_db s)). \<exists>r \<in> set (db_wagers (svc_db s)). L_TransactionID e = T_ID r)"
proof -
  have inv: "bank_inv E (svc_db s)" using reachable_bank [OF assms(1)] by simp
  have "moves_ok (svc_db s)" "entries_ok (svc_db s)" using inv by (simp_all add: bank_inv_def)
  then have m: "if moves t then \<exists>e. entries_for (T_ID t) (svc_db s) = [e] \<and> entry_of (svc_db s) t e
      else entries_for (T_ID t) (svc_db s) = []"
    and e: "\<forall>e \<in> set (db_ledger (svc_db s)). \<exists>r \<in> set (db_wagers (svc_db s)). L_TransactionID e = T_ID r"
    using assms(2) by (auto simp: moves_ok_def entries_ok_def)
  show ?thesis
  proof (cases "moves t")
    case True
    with m obtain x where "entries_for (T_ID t) (svc_db s) = [x]" "entry_of (svc_db s) t x" by auto
    with True e show ?thesis
      by (auto simp: moves_def entry_of_def movement_direction_def is_reversal_def split: if_splits)
  next
    case False
    with m e show ?thesis by (auto simp: moves_def)
  qed
qed

theorem one_entry_per_movement_witness:
  "length (entries_for (T_ID (db_wagers (svc_db demo_refund) ! 1)) (svc_db demo_refund)) = 1"
proof -
  have r: "db_wagers (svc_db demo_refund) ! 1 \<in> set (db_wagers (svc_db demo_refund))"
    using arg_cong [OF demo_refund_wagers, of length] by simp
  have "T_State (db_wagers (svc_db demo_refund) ! 1) = Processed" "T_Amount (db_wagers (svc_db demo_refund) ! 1) = 40"
    using arg_cong [OF demo_refund_wagers, of "\<lambda>xs. xs ! 1"] arg_cong [OF demo_refund_wagers, of length] by simp_all
  with one_entry_per_movement [OF demo_reachable(3) r] show ?thesis by auto
qed

text \<open>C4: In every reachable state the ledger entry of a processed refund or rollback is the exact
  opposite of the entry of the transaction it references, which is processed, has the same wallet,
  amount and currency, and is reversed by no other transaction.\<close>

theorem reversal_undoes_reference:
  assumes "service_reachable E s" "t \<in> set (db_wagers (svc_db s))" "T_State t = Processed"
    "T_Type t = Refund \<or> T_Type t = Rollback"
  shows "\<exists>r \<in> set (db_wagers (svc_db s)). reverses t r \<and>
    (\<exists>e f. entries_for (T_ID t) (svc_db s) = [e] \<and> entries_for (T_ID r) (svc_db s) = [f]
      \<and> L_WalletID e = L_WalletID f \<and> signed_entry e = - signed_entry f) \<and>
    (\<forall>t' \<in> set (db_wagers (svc_db s)). T_State t' = Processed \<and> reverses t' r \<longrightarrow> t' = t)"
proof -
  have inv: "bank_inv E (svc_db s)" using reachable_bank [OF assms(1)] by simp
  then have mo: "moves_ok (svc_db s)" and rv: "reversals_ok (svc_db s)" by (simp_all add: bank_inv_def)
  have amt: "0 < T_Amount t" using bank_invD(4) [OF inv assms(2)] assms(4) by (auto simp: tx_row_ok_def)
  then have "moves t" using assms(3) by (simp add: moves_def)
  then obtain e where e: "entries_for (T_ID t) (svc_db s) = [e]" "entry_of (svc_db s) t e"
    using moves_okD [OF mo assms(2)] by blast
  with assms(4) obtain r where r: "r \<in> set (db_wagers (svc_db s))" "reverses t r"
    "L_Direction e = movement_direction (T_Type t) (Some (T_Type r))"
    by (auto simp: entry_of_def is_reversal_def)
  have "moves r" using r(2) amt by (simp add: reverses_def moves_def)
  then obtain f where f: "entries_for (T_ID r) (svc_db s) = [f]" "entry_of (svc_db s) r f"
    using moves_okD [OF mo r(1)] by blast
  have "L_WalletID e = L_WalletID f" "L_Value e = L_Value f"
    using e(2) f(2) r(2) by (auto simp: entry_of_def reverses_def)
  moreover have "L_Direction e = (if T_Type r = Bet then Credit else Debit)"
    using r(2,3) assms(4) by (auto simp: reverses_def movement_direction_def)
  moreover have "L_Direction f = (if T_Type r = Bet then Debit else Credit)"
    using f(2) r(2) by (auto simp: entry_of_def reverses_def movement_direction_def is_reversal_def)
  ultimately have ef: "L_WalletID e = L_WalletID f" "signed_entry e = - signed_entry f" by auto
  have "t' = t" if "t' \<in> set (db_wagers (svc_db s))" "T_State t' = Processed" "reverses t' r" for t'
  proof -
    have "T_ProviderID t' = T_ProviderID t" "T_ReferenceExternalID t' = T_ReferenceExternalID t" "T_ReferenceExternalID t' \<noteq> []"
      using that(3) r(2) by (auto simp: reverses_def)
    then have "T_ID t' = T_ID t" using rv that(1,2) assms(2,3) unfolding reversals_ok_def by blast
    with bank_invD(1) [OF inv] that(1) assms(2) show ?thesis by (auto simp: distinct_map inj_on_def)
  qed
  with ef show ?thesis using e(1) f(1) r(1,2) by blast
qed

theorem reversal_undoes_reference_witness:
  "\<exists>e f. entries_for 2 (svc_db demo_refund) = [e] \<and> entries_for 1 (svc_db demo_refund) = [f] \<and> signed_entry e = - signed_entry f"
proof -
  let ?t = "db_wagers (svc_db demo_refund) ! 2"
  note g = arg_cong [OF demo_refund_wagers, of "\<lambda>xs. xs ! 2"]
  have len: "length (db_wagers (svc_db demo_refund)) = 3" using arg_cong [OF demo_refund_wagers, of length] by simp
  have t: "?t \<in> set (db_wagers (svc_db demo_refund))" using len by simp
  have "T_State ?t = Processed" "T_Type ?t = Refund" "T_ID ?t = 2" using g len by simp_all
  with reversal_undoes_reference [OF demo_reachable(3) t] obtain e where "entries_for 2 (svc_db demo_refund) = [e]"
    "\<exists>r \<in> set (db_wagers (svc_db demo_refund)). \<exists>f. entries_for (T_ID r) (svc_db demo_refund) = [f] \<and> signed_entry e = - signed_entry f"
    by auto
  then show ?thesis by (auto simp: entries_for_def demo_refund_ledger)
qed

text \<open>C12: In every reachable state the three identities of a transaction are unique (its identifier,
  the provider with the external identifier, the provider with the idempotency key), and at most one
  processed transaction of a provider names a given reference.\<close>

theorem transaction_identities_unique:
  assumes "service_reachable E s" "a \<in> set (db_wagers (svc_db s))" "b \<in> set (db_wagers (svc_db s))"
    "T_ID a = T_ID b \<or> (T_ProviderID a = T_ProviderID b \<and> (T_ExternalID a = T_ExternalID b
      \<or> T_IdempotencyKey a = T_IdempotencyKey b
      \<or> T_State a = Processed \<and> T_State b = Processed \<and> T_ReferenceExternalID a \<noteq> []
        \<and> T_ReferenceExternalID a = T_ReferenceExternalID b))"
  shows "a = b"
proof -
  have inv: "bank_inv E (svc_db s)" using reachable_bank [OF assms(1)] by simp
  then have "wagers_ok E (svc_db s)" "reversals_ok (svc_db s)" by (simp_all add: bank_inv_def)
  moreover from this have "T_ID a = T_ID b \<or> a = b"
    using assms(2-) unfolding reversals_ok_def wagers_ok_def distinct_map inj_on_def by blast
  ultimately show ?thesis using assms(2,3) by (auto simp: wagers_ok_def distinct_map inj_on_def)
qed

theorem transaction_identities_unique_witness:
  "T_ExternalID (db_wagers (svc_db demo_refund) ! 1) \<noteq> T_ExternalID (db_wagers (svc_db demo_refund) ! 2)"
proof -
  let ?a = "db_wagers (svc_db demo_refund) ! 1" and ?b = "db_wagers (svc_db demo_refund) ! 2"
  have len: "length (db_wagers (svc_db demo_refund)) = 3" using arg_cong [OF demo_refund_wagers, of length] by simp
  have p: "T_ProviderID ?a = T_ProviderID ?b" "T_ID ?a \<noteq> T_ID ?b"
    using arg_cong [OF demo_refund_wagers, of "\<lambda>xs. xs ! 1"] arg_cong [OF demo_refund_wagers, of "\<lambda>xs. xs ! 2"] len by simp_all
  have "?a \<in> set (db_wagers (svc_db demo_refund))" "?b \<in> set (db_wagers (svc_db demo_refund))" using len by simp_all
  from transaction_identities_unique [OF demo_reachable(3) this] p show ?thesis by auto
qed

text \<open>C13: In every reachable state the version of a wallet is one more than the number of its processed
  movements other than the opening one: no movement is lost or counted twice by the version that
  readers and events carry.\<close>

theorem wallet_version_counts_movements:
  assumes "service_reachable E s" "w \<in> set (db_wallets (svc_db s))"
  shows "W_Version w = 1 + int (length (filter (\<lambda>t. T_State t = Processed \<and> 0 < T_Amount t \<and> T_WalletID t = W_ID w
    \<and> T_Type t \<noteq> Opening) (db_wagers (svc_db s))))"
  using reachable_bank [OF assms(1)] assms(2) by (auto simp: bank_inv_def versions_ok_def moves_def cong: conj_cong)

theorem wallet_version_counts_movements_witness:
  "length (filter (\<lambda>t. T_State t = Processed \<and> 0 < T_Amount t \<and> T_WalletID t = 7 \<and> T_Type t \<noteq> Opening)
     (db_wagers (svc_db demo_refund))) = 2"
  using wallet_version_counts_movements [OF demo_reachable(3), of "hd (db_wallets (svc_db demo_refund))"]
  by (simp add: demo_refund_wallets)

text \<open>C14: In every reachable state the outbox holds, for each transaction, exactly one processed event
  if it is PROCESSED, exactly one rejected event if it is REJECTED and none otherwise, and exactly one
  balance event if it moved money: no outcome is announced twice, too early or not at all.\<close>

theorem events_match_outcome:
  assumes "service_reachable E s" "t \<in> set (db_wagers (svc_db s))"
  shows "event_count ''WagerTransactionProcessed'' (uuid_String E (T_ID t)) (svc_db s) = (if T_State t = Processed then 1 else 0)
    \<and> event_count ''WagerTransactionRejected'' (uuid_String E (T_ID t)) (svc_db s) = (if T_State t = Rejected then 1 else 0)
    \<and> event_count ''WalletBalanceChanged'' (uuid_String E (T_ID t)) (svc_db s)
        = (if T_State t = Processed \<and> 0 < T_Amount t then 1 else 0)"
  using reachable_bank [OF assms(1)] assms(2) by (auto simp: bank_inv_def events_ok_def moves_def Let_def)

theorem events_match_outcome_witness:
  "event_count ''WalletBalanceChanged'' (uuid_String example_externals 1) (svc_db demo_refund) = 1"
proof -
  let ?t = "db_wagers (svc_db demo_refund) ! 1"
  have len: "length (db_wagers (svc_db demo_refund)) = 3" using arg_cong [OF demo_refund_wagers, of length] by simp
  have "T_State ?t = Processed" "T_ID ?t = 1" "T_Amount ?t = 40"
    using arg_cong [OF demo_refund_wagers, of "\<lambda>xs. xs ! 1"] len by simp_all
  with events_match_outcome [OF demo_reachable(3), of ?t] len show ?thesis by simp
qed

end
