(* ===== verification/Command_Processing.thy ===== *)
theory Command_Processing
  imports Service_Runs
begin

text \<open>
  The behaviour of \<^verbatim>\<open>Service.Process\<close> on every kind of request: a repetition replays the
  stored outcome, a reused identity with another payload is refused, a new request is answered as the
  rules prescribe and leaves exactly the rows its outcome stands for, and a valid request is always
  answered.
\<close>

section \<open>Repeated and conflicting requests\<close>

text \<open>The stored row answers a prepared command.\<close>

definition answers :: "externals \<Rightarrow> Command \<Rightarrow> WagerTransactionRecord \<Rightarrow> bool" where
  "answers E cmd t \<longleftrightarrow> sameBusinessPayload t cmd \<and> T_IdempotencyKey t = C_IdempotencyKey cmd \<and> T_PayloadHash t = C_PayloadHash cmd"

lemma row_for_answers: "row_for E cmd r t \<Longrightarrow> answers E cmd t"
  by (simp add: row_for_def answers_def sameBusinessPayload_def)

lemma answers_same_identity: "answers E cmd t \<Longrightarrow> same_identity t t' \<Longrightarrow> answers E cmd t'"
  by (simp add: answers_def sameBusinessPayload_def same_identity_def)

text \<open>The texts of a stored row have been accepted.\<close>

lemma stored_texts:
  assumes "bank_inv E d" "t \<in> set (db_wagers d)"
  shows "text_ok (T_ProviderID t)" "text_ok (T_ExternalID t)" "text_ok (T_IdempotencyKey t)" "text_ok (T_ReferenceExternalID t)"
    "text_ok (T_FailureCode t)" "index_fits E (T_ProviderID t) (T_ExternalID t)"
  using bank_invD(4) [OF assms] by (simp_all add: tx_row_ok_def row_storable_def row_texts_def)

lemma findExisting_Inr:
  assumes "findExistingTransaction cmd d = Inr (Some t)"
  shows "t \<in> set (db_wagers d)" "answers E cmd t"
proof -
  have "t \<in> set (db_wagers d) \<and> answers E cmd t"
  proof (cases "wagerRepo_FindByID (C_ID cmd) d")
    case (Inr x)
    with assms show ?thesis
      by (auto simp: findExistingTransaction_def answers_def split: if_splits dest: wagers_by_id.lookup_Inr)
  next
    case (Inl e)
    note id = this
    show ?thesis
    proof (cases "wagerRepo_FindByIdempotency (C_ProviderID cmd) (C_IdempotencyKey cmd) d")
      case (Inr x)
      with id assms wagers_by_key.lookup_Inr [of "(C_ProviderID cmd, C_IdempotencyKey cmd)" d x] show ?thesis
        by (auto simp: findExistingTransaction_def answers_def split: if_splits)
    next
      case (Inl e')
      with id assms wagers_by_external.lookup_Inr [of "(C_ProviderID cmd, C_ExternalID cmd)" d] show ?thesis
        by (auto simp: findExistingTransaction_def answers_def split: if_splits sum.splits)
    qed
  qed
  then show "t \<in> set (db_wagers d)" "answers E cmd t" by simp_all
qed

lemma findExisting_id:
  assumes "findExistingTransaction cmd d = Inr (Some t)"
  shows "C_ID cmd = T_ID t \<or> C_ID cmd \<notin> T_ID ` set (db_wagers d)"
proof (cases "wagerRepo_FindByID (C_ID cmd) d")
  case (Inr x)
  with assms show ?thesis
    by (auto simp: findExistingTransaction_def split: if_splits dest: wagers_by_id.lookup_Inr)
next
  case (Inl e)
  then show ?thesis by (simp add: wagers_by_id.lookup_Inl)
qed

lemma findExisting_stored:
  assumes "bank_inv E d" "t \<in> set (db_wagers d)" "answers E cmd t"
    "C_ID cmd = T_ID t \<or> C_ID cmd \<notin> T_ID ` set (db_wagers d)"
  shows "findExistingTransaction cmd d = Inr (Some t)"
proof (cases "C_ID cmd = T_ID t")
  case True
  with assms wagers_by_id.lookup_row [OF bank_invD(1) [OF assms(1)] assms(2)] show ?thesis
    by (simp add: findExistingTransaction_def answers_def)
next
  case False
  with assms(4) have "wagerRepo_FindByID (C_ID cmd) d = Inl ErrNoRows" by (simp add: wagers_by_id.lookup_Inl)
  moreover have "wagerRepo_FindByIdempotency (C_ProviderID cmd) (C_IdempotencyKey cmd) d = Inr t"
    using wagers_by_key.lookup_row [of d t] assms(1-3) stored_texts [OF assms(1,2)]
    by (simp add: bank_inv_parts answers_def sameBusinessPayload_def)
  ultimately show ?thesis using assms(3) by (simp add: findExistingTransaction_def answers_def)
qed

lemma replay_stored:
  assumes "bank_inv E d" "t \<in> set (db_wagers d)" "answers E cmd t"
    "C_ID cmd = T_ID t \<or> C_ID cmd \<notin> T_ID ` set (db_wagers d)"
  obtains r where "replayResult E t = Inr r" "replayExisting E cmd d = Inr (Some r)" "R_TransactionID r = T_ID t"
proof -
  from bank_invD(4) [OF assms(1,2)] obtain r where r: "replayResult E t = Inr r" by (auto simp: tx_row_ok_def)
  then have "R_TransactionID r = T_ID t" by (auto simp: replayResult_def split: option.splits sum.splits if_splits)
  with r findExisting_stored [OF assms] show ?thesis by (intro that [of r]) (simp_all add: replayExisting_def)
qed

lemma processInTx_eq:
  "processInTx E dr vs cmd now d = with_texts [C_ProviderID cmd, C_ExternalID cmd]
     (bindR (replayExisting E cmd (view_first vs)) (\<lambda>replayed.
       case replayed of
         Some result \<Rightarrow> Inr (result, d)
       | None \<Rightarrow>
           bindR (walletRepo_FindForUpdate (C_WalletID cmd) d) (\<lambda>w.
           bindR (replayExisting E cmd (view_second vs)) (\<lambda>replayed.
             case replayed of
               Some result \<Rightarrow> Inr (result, d)
             | None \<Rightarrow> executeInTx E dr (view_second vs) cmd now w d))))"
  by (simp add: processInTx_def lock_identity with_texts_def)

text \<open>A stored answer is returned without any write, also when only the second lookup sees it.\<close>

lemma process_replay:
  assumes "bank_inv E d" "t \<in> set (db_wagers d)" "answers E cmd t"
    "C_ID cmd = T_ID t \<or> C_ID cmd \<notin> T_ID ` set (db_wagers d)"
    "view_first vs = d \<or> replayExisting E cmd (view_first vs) = Inr None" "view_second vs = d"
  obtains r where "replayResult E t = Inr r" "processInTx E dr vs cmd now d = Inr (r, d)" "R_TransactionID r = T_ID t"
proof -
  obtain r where r: "replayResult E t = Inr r" "replayExisting E cmd d = Inr (Some r)" "R_TransactionID r = T_ID t"
    using replay_stored [OF assms(1-4)] .
  from bank_inv_parts assms(1,2) obtain w where "w \<in> set (db_wallets d)" "W_ID w = T_WalletID t" by (auto simp: bank_inv_parts)
  then have "walletRepo_FindForUpdate (C_WalletID cmd) d = Inr w"
    using wallets_by_id.lookup_row [OF bank_invD(2) [OF assms(1)], of w] assms(3) by (simp add: answers_def sameBusinessPayload_def)
  moreover have "text_ok (C_ProviderID cmd)" "text_ok (C_ExternalID cmd)"
    using stored_texts [OF assms(1,2)] assms(3) by (simp_all add: answers_def sameBusinessPayload_def)
  ultimately show ?thesis using r assms(5,6)
    by (intro that [of r]) (auto simp: processInTx_eq with_texts_ok)
qed

lemma prepare_Inr:
  "prepareCommand E cmd = Inr p \<longleftrightarrow> validateCommand cmd = Inr () \<and> p = cmd\<lparr>C_PayloadHash := sha256_hex E (canonicalPayload E cmd)\<rparr>"
  by (auto simp: prepareCommand_def canonicalPayloadHash_def result_simps)

lemma validate_business:
  "business_fields cmd' = business_fields cmd \<Longrightarrow> C_IdempotencyKey cmd' = C_IdempotencyKey cmd \<Longrightarrow> C_ID cmd' \<noteq> uuid_Nil \<Longrightarrow>
   validateCommand cmd = Inr () \<Longrightarrow> validateCommand cmd' = Inr ()"
  by (auto simp: validateCommand_def business_fields_def split: if_splits)

lemma business_payload: "business_fields cmd' = business_fields cmd \<Longrightarrow> canonicalPayload E cmd' = canonicalPayload E cmd"
  by (simp add: business_fields_def canonicalPayload_def)

lemma answers_business:
  "business_fields cmd' = business_fields cmd \<Longrightarrow> C_IdempotencyKey cmd' = C_IdempotencyKey cmd \<Longrightarrow> C_PayloadHash cmd' = C_PayloadHash cmd
   \<Longrightarrow> answers E cmd t \<Longrightarrow> answers E cmd' t"
  by (auto simp: answers_def sameBusinessPayload_def business_fields_def)

lemma replayExisting_Some:
  "replayExisting E cmd d = Inr (Some r) \<longleftrightarrow> (\<exists>t. findExistingTransaction cmd d = Inr (Some t) \<and> replayResult E t = Inr r)"
  by (auto simp: replayExisting_def bindR_Inr_conv split: option.splits)

lemma processInTx_Inr:
  assumes "processInTx E dr vs cmd now d = Inr (r, d')"
  shows "replayExisting E cmd (view_first vs) = Inr (Some r) \<and> d' = d \<or>
    replayExisting E cmd (view_first vs) = Inr None \<and> (\<exists>w. walletRepo_FindForUpdate (C_WalletID cmd) d = Inr w \<and>
      (replayExisting E cmd (view_second vs) = Inr (Some r) \<and> d' = d \<or>
       replayExisting E cmd (view_second vs) = Inr None \<and> executeInTx E dr (view_second vs) cmd now w d = Inr (r, d')))"
proof -
  let ?inner = "\<lambda>w. bindR (replayExisting E cmd (view_second vs)) (\<lambda>replayed. case replayed of Some result \<Rightarrow> Inr (result, d)
      | None \<Rightarrow> executeInTx E dr (view_second vs) cmd now w d)"
  from assms obtain x where x: "replayExisting E cmd (view_first vs) = Inr x"
    "(case x of Some result \<Rightarrow> Inr (result, d) | None \<Rightarrow> bindR (walletRepo_FindForUpdate (C_WalletID cmd) d) ?inner) = Inr (r, d')"
    unfolding processInTx_eq with_texts_conv bindR_Inr_conv [of "replayExisting _ _ _"] by blast
  show ?thesis
  proof (cases x)
    case None
    with x obtain w where w: "walletRepo_FindForUpdate (C_WalletID cmd) d = Inr w" and b: "?inner w = Inr (r, d')"
      by (auto simp: bindR_Inr_conv [of "walletRepo_FindForUpdate _ _"])
    from b obtain y where y: "replayExisting E cmd (view_second vs) = Inr y"
      "(case y of Some result \<Rightarrow> Inr (result, d) | None \<Rightarrow> executeInTx E dr (view_second vs) cmd now w d) = Inr (r, d')"
      unfolding bindR_Inr_conv by blast
    with x None w show ?thesis by (cases y) auto
  qed (use x in simp)
qed

lemma answer_result_of:
  assumes "wallet_row_ok w" "command_ok cmd"
  shows "result_of cmd (answer v w cmd)"
proof -
  have "result_of cmd (pending_result w cmd)" using assms(1) by (simp add: result_of_def pending_result_def wallet_row_ok_def)
  moreover have "result_of cmd (refused_result w cmd code)" if "text_ok code" for code
    using assms(1) that by (simp add: result_of_def refused_result_def wallet_row_ok_def)
  ultimately show ?thesis using operation_result_of [OF assms] by (simp add: answer_eq split: sum.split)
qed

lemma execute_result_of:
  assumes "executeInTx E dr v cmd now w d = Inr (r, d')" "bank_inv E d" "externals_ok E" "money_wf (C_Amount cmd)"
    "w \<in> set (db_wallets d)" "W_ID w = C_WalletID cmd" "view_of v d"
  shows "result_of cmd r \<and> command_ok cmd"
proof -
  from assms(1) obtain tx where tx: "wager_New (uuid_String E (C_ID cmd)) (C_ExternalID cmd) (C_ProviderID cmd)
      (uuid_String E (C_WalletID cmd)) (C_Type cmd) (C_Amount cmd) = Inr tx"
    by (auto simp: executeInTx_def bindR_Inr_conv)
  note ok = wager_New_command_ok(1) [OF tx assms(4)]
  from execute_step [OF assms] answer_result_of [OF bank_invD(3) [OF assms(2,5)] ok] ok show ?thesis by simp
qed

lemma process_stores:
  assumes "processInTx E dr (serial_views d) cmd now d = Inr (r, d')" "bank_inv E d" "externals_ok E" "money_wf (C_Amount cmd)"
  obtains t where "t \<in> set (db_wagers d')" "answers E cmd t" "replayResult E t = Inr r"
    "C_ID cmd = T_ID t \<or> C_ID cmd \<notin> T_ID ` set (db_wagers d')"
proof -
  consider (replay) t where "findExistingTransaction cmd d = Inr (Some t)" "replayResult E t = Inr r" "d' = d"
    | (fresh) w where "walletRepo_FindForUpdate (C_WalletID cmd) d = Inr w" "executeInTx E dr d cmd now w d = Inr (r, d')"
    using processInTx_Inr [OF assms(1)] by (auto simp: serial_views_def replayExisting_Some)
  then show ?thesis
  proof cases
    case replay
    with findExisting_Inr [OF replay(1)] findExisting_id [OF replay(1)] show ?thesis by (intro that [of t]) simp_all
  next
    case fresh
    have w: "w \<in> set (db_wallets d)" "W_ID w = C_WalletID cmd" using wallets_by_id.lookup_Inr [OF fresh(1)] by simp_all
    have "view_of d d" by (simp add: view_of_def)
    from execute_step [OF fresh(2) assms(2-4) w \<open>view_of d d\<close>] obtain t where t: "t \<in> set (db_wagers d')" "row_for E cmd r t" by blast
    from execute_result_of [OF fresh(2) assms(2-4) w \<open>view_of d d\<close>] have "replayResult E t = Inr r"
      using row_for_replay [OF assms(3) t(2)] by (simp add: command_ok_def)
    then show ?thesis using t by (intro that [of t]) (simp_all add: row_for_answers, simp add: row_for_def)
  qed
qed


lemma service_steps_bank:
  assumes "(service_step E)\<^sup>*\<^sup>* s s'" "service_inv E s"
  shows "(bank_step E)\<^sup>*\<^sup>* (svc_db s) (svc_db s')"
  using assms
proof (induction rule: rtranclp_induct)
  case (step y z)
  have "service_inv E y" by (rule service.run_inv [OF step(1,4)])
  then have "(bank_step E)\<^sup>*\<^sup>* (svc_db y) (svc_db z)" using service_step_bank [OF step(2)] by (simp add: service_inv_def)
  with step(3,4) show ?case by (meson rtranclp_trans)
qed simp

lemma service_steps_row:
  assumes "(service_step E)\<^sup>*\<^sup>* s s'" "service_inv E s" "t \<in> set (db_wagers (svc_db s))"
  shows "\<exists>t' \<in> set (db_wagers (svc_db s')). same_identity t t' \<and> (T_State t \<noteq> PendingReference \<longrightarrow> t' = t)"
  using steps_row [OF service_steps_bank [OF assms(1,2)] _ _ assms(3)] assms(2) by (simp add: service_inv_def)

text \<open>A successful call committed what the transaction did: a resolved identity race would have been a replay.\<close>

lemma Process_Inr_serial:
  assumes "Process E tx_ok env2 dr (serial_views (svc_db s)) cmd now el s = (Inr r, s')"
  obtains p where "prepareCommand E cmd = Inr p" "processInTx E dr (serial_views (svc_db s)) p now (svc_db s) = Inr (r, svc_db s')"
proof -
  from assms obtain p where p: "prepareCommand E cmd = Inr p" by (cases "prepareCommand E cmd") (auto simp: Process_def)
  show ?thesis
  proof (cases "processInTx E dr (serial_views (svc_db s)) p now (svc_db s)")
    case (Inr a)
    with assms p show ?thesis by (cases a) (auto simp: Process_def WithTx_ok intro: that)
  next
    case (Inl e)
    with assms p obtain d2 where e: "resolveIdentityConflict E env2 p (svc_db s) = (Inr r, d2)" and k: "isKnownIdentityViolation e"
      by (auto simp: Process_def WithTx_ok split: if_splits prod.splits sum.splits)
    then obtain t where "findExistingTransaction p (svc_db s) = Inr (Some t)" "replayResult E t = Inr r"
      by (auto simp: resolveIdentityConflict_def WithTx_Inr bindR_Inr_conv split: option.splits)
    then have "replayExisting E p (svc_db s) = Inr (Some r)" by (auto simp: replayExisting_Some)
    moreover have "list_all text_ok [C_ProviderID p, C_ExternalID p]"
      using Inl k by (auto simp: processInTx_eq with_texts_def isKnownIdentityViolation_def split: if_splits)
    ultimately have "processInTx E dr (serial_views (svc_db s)) p now (svc_db s) = Inr (r, svc_db s)"
      unfolding processInTx_eq by (simp only: with_texts_ok) (simp add: serial_views_def)
    with Inl show ?thesis by simp
  qed
qed

lemma Process_committed:
  assumes "prepareCommand E cmd = Inr p" "processInTx E dr vs p now (svc_db s) = Inr (r, d)"
  shows "\<exists>s'. Process E tx_ok env2 dr vs cmd now el s = (Inr r, s') \<and> svc_db s' = d"
  using assms by (simp add: Process_def WithTx_ok)

text \<open>A retry of a command whose outcome is stored.\<close>

lemma retry_replays:
  assumes "service_inv E s2" "t \<in> set (db_wagers (svc_db s2))" "answers E p t" "prepareCommand E cmd = Inr p"
    "business_fields cmd' = business_fields cmd" "C_IdempotencyKey cmd' = C_IdempotencyKey cmd" "C_ID cmd' \<noteq> uuid_Nil"
    "C_ID cmd' = T_ID t \<or> C_ID cmd' \<notin> T_ID ` set (db_wagers (svc_db s2))"
    "view_first vs = svc_db s2 \<or> (\<forall>p'. prepareCommand E cmd' = Inr p' \<longrightarrow> replayExisting E p' (view_first vs) = Inr None)"
    "view_second vs = svc_db s2"
  shows "\<exists>r s3. Process E tx_ok env2 dr vs cmd' now el s2 = (Inr r, s3) \<and> svc_db s3 = svc_db s2
    \<and> replayResult E t = Inr r \<and> R_TransactionID r = T_ID t"
proof -
  have v: "validateCommand cmd = Inr ()" and p: "p = cmd\<lparr>C_PayloadHash := sha256_hex E (canonicalPayload E cmd)\<rparr>"
    using assms(4) by (simp_all add: prepare_Inr)
  let ?p' = "cmd'\<lparr>C_PayloadHash := sha256_hex E (canonicalPayload E cmd')\<rparr>"
  have p': "prepareCommand E cmd' = Inr ?p'" using validate_business [OF assms(5-7) v] by (simp add: prepare_Inr)
  have "business_fields ?p' = business_fields p" using assms(5) p by (simp add: business_fields_def)
  then have a: "answers E ?p' t"
    using assms(3,6) p business_payload [OF assms(5)] answers_business [of ?p' p E t] by simp
  have inv: "bank_inv E (svc_db s2)" using assms(1) by (simp add: service_inv_def)
  have i: "C_ID ?p' = T_ID t \<or> C_ID ?p' \<notin> T_ID ` set (db_wagers (svc_db s2))" using assms(8) by simp
  have v1: "view_first vs = svc_db s2 \<or> replayExisting E ?p' (view_first vs) = Inr None" using assms(9) p' by blast
  obtain r where "replayResult E t = Inr r" "processInTx E dr vs ?p' now (svc_db s2) = Inr (r, svc_db s2)" "R_TransactionID r = T_ID t"
    using process_replay [OF inv assms(2) a i v1 assms(10)] by blast
  with Process_committed [OF p'] show ?thesis by blast
qed

lemma replay_id: "replayResult E t = Inr r \<Longrightarrow> R_TransactionID r = T_ID t \<and> R_State r = T_State t"
  by (auto simp: replayResult_def split: option.splits sum.splits if_splits)

lemma WithTx_failed: "WithTx env fn d = (Inl e, d') \<Longrightarrow> (\<And>e. commit_result env \<noteq> CommitUnknown e) \<Longrightarrow> d' = d"
  by (auto simp: WithTx_def split: option.splits sum.splits commit_outcome.splits)

lemma Process_failed:
  assumes "\<And>e. commit_result env \<noteq> CommitUnknown e" "fst (Process E env env2 dr vs cmd now el s) = Inl e2"
  shows "svc_db (snd (Process E env env2 dr vs cmd now el s)) = svc_db s"
proof (cases "prepareCommand E cmd")
  case (Inl e)
  then show ?thesis by (simp add: Process_def)
next
  case (Inr p)
  obtain x d1 where x: "WithTx env (processInTx E dr vs p now) (svc_db s) = (x, d1)" by fastforce
  obtain y d2 where y: "resolveIdentityConflict E env2 p d1 = (y, d2)" by fastforce
  show ?thesis
  proof (cases x)
    case (Inl e)
    with x have "d1 = svc_db s" by (auto dest: WithTx_failed [OF _ assms(1)])
    with resolve_db [OF y] Inr x y Inl show ?thesis by (simp add: Process_def split: sum.split)
  qed (use assms(2) Inr x in \<open>simp add: Process_def\<close>)
qed

text \<open>A wallet keeps its identity and its currency.\<close>

lemma steps_wallets:
  assumes "(bank_step E)\<^sup>*\<^sup>* d d'" "w \<in> set (db_wallets d)"
  shows "\<exists>w' \<in> set (db_wallets d'). W_ID w' = W_ID w \<and> W_Currency w' = W_Currency w"
  using assms
proof (induction rule: rtranclp_induct)
  case (step y z)
  then show ?case using step_wallets by metis
qed blast

section \<open>The bet of the concrete run\<close>

definition demo_bet_result :: Result where
  "demo_bet_result = \<lparr>R_TransactionID = 1, R_State = Processed, R_Balance = 60, R_Amount = \<lparr>minor = 40, currency = ''BRL''\<rparr>,
     R_FailureCode = []\<rparr>"

definition demo_bet_row :: WagerTransactionRecord where
  "demo_bet_row = transaction_row example_externals (demo_command 1 Bet 40 ''x1'' [] \<lparr>C_PayloadHash := ''digest''\<rparr>) demo_bet_result 2"

lemma demo_bet_eq:
  "Process example_externals tx_ok tx_ok (demo_draws 1) (serial_views (svc_db demo_open)) (demo_command 1 Bet 40 ''x1'' []) 2 5 demo_open =
   (Inr demo_bet_result, demo_bet)"
proof -
  have "fst (demo_process 1 (demo_command 1 Bet 40 ''x1'' []) demo_open) = Inr demo_bet_result" by code_simp
  then show ?thesis unfolding demo_bet_def demo_process_def by (metis prod.collapse)
qed

lemma demo_bet_ids: "T_ID ` set (db_wagers (svc_db demo_bet)) = {100, 1}"
proof -
  have "map T_ID (db_wagers (svc_db demo_bet)) = [100, 1]" by code_simp
  from arg_cong [OF this, of set] show ?thesis by simp
qed

lemma demo_bet_row_in: "demo_bet_row \<in> set (db_wagers (svc_db demo_bet))"
proof -
  have "last (db_wagers (svc_db demo_bet)) = demo_bet_row" by code_simp
  moreover have "db_wagers (svc_db demo_bet) \<noteq> []" using demo_bet_ids by auto
  ultimately show ?thesis by (metis last_in_set)
qed

lemma demo_prepared:
  "prepareCommand example_externals (demo_command 1 Bet 40 ''x1'' []) = Inr (demo_command 1 Bet 40 ''x1'' [] \<lparr>C_PayloadHash := ''digest''\<rparr>)"
  by (simp add: prepare_Inr validateCommand_def demo_command_def legacyIdentity_def example_externals_def)

section \<open>Repetition\<close>

lemma process_repeated:
  assumes "service_reachable E s" "money_wf (C_Amount cmd)"
    "Process E tx_ok env2 dr (serial_views (svc_db s)) cmd now el s = (Inr r, s1)" "(service_step E)\<^sup>*\<^sup>* s1 s2"
    "business_fields cmd' = business_fields cmd" "C_IdempotencyKey cmd' = C_IdempotencyKey cmd" "C_ID cmd' \<noteq> uuid_Nil"
    "C_ID cmd' = R_TransactionID r \<or> C_ID cmd' \<notin> T_ID ` set (db_wagers (svc_db s2))"
  shows "\<exists>r' s3. Process E tx_ok env2' dr' (serial_views (svc_db s2)) cmd' now' el' s2 = (Inr r', s3) \<and> svc_db s3 = svc_db s2
    \<and> R_TransactionID r' = R_TransactionID r \<and> (R_State r \<noteq> PendingReference \<longrightarrow> r' = r)
    \<and> (\<exists>t \<in> set (db_wagers (svc_db s2)). replayResult E t = Inr r')"
proof -
  have inv: "service_inv E s" by (rule service.reachable_inv [OF assms(1)])
  then have i: "externals_ok E" "bank_inv E (svc_db s)" by (simp_all add: service_inv_def)
  obtain p where p: "prepareCommand E cmd = Inr p" "processInTx E dr (serial_views (svc_db s)) p now (svc_db s) = Inr (r, svc_db s1)"
    using Process_Inr_serial [OF assms(3)] .
  have "money_wf (C_Amount p)" using prepare_amount [OF p(1)] assms(2) by simp
  then obtain t where t: "t \<in> set (db_wagers (svc_db s1))" "answers E p t" "replayResult E t = Inr r"
    using process_stores [OF p(2) i(2,1)] by blast
  have "service_step E s s1" by (rule step_process [OF assms(2) serial_view assms(3)])
  with inv have inv1: "service_inv E s1" by (rule service.step_inv)
  obtain t' where t': "t' \<in> set (db_wagers (svc_db s2))" "same_identity t t'" "T_State t \<noteq> PendingReference \<longrightarrow> t' = t"
    using service_steps_row [OF assms(4) inv1 t(1)] by blast
  have id: "T_ID t' = R_TransactionID r" using replay_id [OF t(3)] t'(2) by (simp add: same_identity_def)
  have views: "view_first (serial_views (svc_db s2)) = svc_db s2" "view_second (serial_views (svc_db s2)) = svc_db s2"
    by (simp_all add: serial_views_def)
  have "C_ID cmd' = T_ID t' \<or> C_ID cmd' \<notin> T_ID ` set (db_wagers (svc_db s2))" using assms(8) id by simp
  from retry_replays [OF service.run_inv [OF assms(4) inv1] t'(1) answers_same_identity [OF t(2) t'(2)] p(1) assms(5-7) this
      disjI1 [OF views(1)] views(2)]
  obtain r' s3 where "Process E tx_ok env2' dr' (serial_views (svc_db s2)) cmd' now' el' s2 = (Inr r', s3)" "svc_db s3 = svc_db s2"
    "replayResult E t' = Inr r'" "R_TransactionID r' = T_ID t'"
    by blast
  with id t' t(3) replay_id [OF t(3)] show ?thesis by auto
qed

section \<open>Properties\<close>

text \<open>C5: Idempotent replay: once a command has been answered, a repetition of the same business request
  under the same idempotency key (with the same or a new transaction identifier), after any further
  activity of the service, changes no row of the database and returns the stored outcome of the same
  transaction; a settled outcome (processed or rejected) is returned unchanged, balance included.\<close>

theorem idempotent_replay:
  assumes "service_reachable E s" "money_wf (C_Amount cmd)"
    "Process E tx_ok env2 dr (serial_views (svc_db s)) cmd now el s = (Inr r, s1)" "(service_step E)\<^sup>*\<^sup>* s1 s2"
    "business_fields cmd' = business_fields cmd" "C_IdempotencyKey cmd' = C_IdempotencyKey cmd" "C_ID cmd' \<noteq> uuid_Nil"
    "C_ID cmd' = R_TransactionID r \<or> C_ID cmd' \<notin> T_ID ` set (db_wagers (svc_db s2))"
  shows "\<exists>r' s3. Process E tx_ok env2' dr' (serial_views (svc_db s2)) cmd' now' el' s2 = (Inr r', s3) \<and> svc_db s3 = svc_db s2
    \<and> R_TransactionID r' = R_TransactionID r \<and> (R_State r \<noteq> PendingReference \<longrightarrow> r' = r)"
  using process_repeated [OF assms] by blast

theorem idempotent_replay_witness:
  "\<exists>r' s3. Process example_externals tx_ok tx_ok (demo_draws 5) (serial_views (svc_db demo_bet))
     (demo_command 9 Bet 40 ''x1'' [] \<lparr>C_IdempotencyKey := ''x1''\<rparr>) 7 5 demo_bet = (Inr r', s3)
   \<and> svc_db s3 = svc_db demo_bet \<and> r' = demo_bet_result"
  using idempotent_replay [OF demo_reachable(1) _ demo_bet_eq rtranclp.rtrancl_refl,
      of "demo_command 9 Bet 40 ''x1'' []" tx_ok "demo_draws 5" 7 5] demo_bet_ids
  by (simp add: demo_command_def demo_money business_fields_def demo_bet_result_def)

text \<open>C9: An ambiguous commit is safe to retry: when the transaction of a command took effect but the
  commit reported an error, the call returns that error, and repeating the command returns the result
  of the first execution and changes nothing further.\<close>

theorem ambiguous_commit_retry:
  assumes "service_reachable E s" "money_wf (C_Amount cmd)" "prepareCommand E cmd = Inr p"
    "processInTx E dr (serial_views (svc_db s)) p now (svc_db s) = Inr (r, d')" "\<not> isKnownIdentityViolation e"
    "Process E \<lparr>begin_error = None, commit_result = CommitUnknown e\<rparr> env2 dr (serial_views (svc_db s)) cmd now el s = (x, s1)"
  shows "x = Inl e \<and> svc_db s1 = d' \<and>
    (\<exists>s2. Process E tx_ok env2' dr' (serial_views (svc_db s1)) cmd now' el' s1 = (Inr r, s2) \<and> svc_db s2 = d')"
proof -
  have inv: "service_inv E s" by (rule service.reachable_inv [OF assms(1)])
  then have i: "externals_ok E" "bank_inv E (svc_db s)" by (simp_all add: service_inv_def)
  have x: "x = Inl e" "svc_db s1 = d'"
    using assms(3-6) by (auto simp: Process_def WithTx_def)
  have "money_wf (C_Amount p)" using prepare_amount [OF assms(3)] assms(2) by simp
  then obtain t where t: "t \<in> set (db_wagers d')" "answers E p t" "replayResult E t = Inr r"
    "C_ID p = T_ID t \<or> C_ID p \<notin> T_ID ` set (db_wagers d')"
    using process_stores [OF assms(4) i(2,1)] by blast
  have "service_step E s s1" by (rule step_process [OF assms(2) serial_view assms(6)])
  with inv have inv1: "bank_inv E d'" using service.step_inv x(2) by (auto simp: service_inv_def)
  have v: "view_first (serial_views d') = d' \<or> replayExisting E p (view_first (serial_views d')) = Inr None"
    "view_second (serial_views d') = d'" by (simp_all add: serial_views_def)
  obtain r' where "replayResult E t = Inr r'" "processInTx E dr' (serial_views d') p now' d' = Inr (r', d')"
    using process_replay [OF inv1 t(1,2,4) v] by blast
  with t(3) Process_committed [OF assms(3), of dr' "serial_views (svc_db s1)" now' s1 r d'] x show ?thesis by auto
qed

theorem ambiguous_commit_retry_witness:
  "\<exists>s1 s2. Process example_externals \<lparr>begin_error = None, commit_result = CommitUnknown (ErrExternal ''reset'')\<rparr> tx_ok
      (demo_draws 1) (serial_views (svc_db demo_open)) (demo_command 1 Bet 40 ''x1'' []) 2 5 demo_open = (Inl (ErrExternal ''reset''), s1)
    \<and> Process example_externals tx_ok tx_ok (demo_draws 2) (serial_views (svc_db s1)) (demo_command 1 Bet 40 ''x1'' []) 3 5 s1
      = (Inr demo_bet_result, s2) \<and> svc_db s2 = svc_db demo_bet"
proof -
  let ?cmd = "demo_command 1 Bet 40 ''x1'' []"
  let ?env = "\<lparr>begin_error = None, commit_result = CommitUnknown (ErrExternal ''reset'')\<rparr>"
  obtain p where p: "prepareCommand example_externals ?cmd = Inr p"
    "processInTx example_externals (demo_draws 1) (serial_views (svc_db demo_open)) p 2 (svc_db demo_open) = Inr (demo_bet_result, svc_db demo_bet)"
    using Process_Inr_serial [OF demo_bet_eq] .
  obtain x s1 where x: "Process example_externals ?env tx_ok (demo_draws 1) (serial_views (svc_db demo_open)) ?cmd 2 5 demo_open = (x, s1)"
    by fastforce
  have m: "money_wf (C_Amount ?cmd)" by (simp add: demo_command_def demo_money)
  from ambiguous_commit_retry [OF demo_reachable(1) m p _ x, of tx_ok "demo_draws 2" 3 5] x show ?thesis
    by (auto simp: isKnownIdentityViolation_def)
qed


text \<open>C8: A request that reuses the identity of a recorded transaction with a different payload (the
  same idempotency key, or the same external identifier, of the provider, but not the same key and
  business fields) is refused as an idempotency conflict, counted as such, and changes no row. (A text PostgreSQL
  cannot represent in the other of the two identities is refused by the database before the comparison.)\<close>

theorem conflicting_request_refused:
  assumes "service_reachable E s" "t \<in> set (db_wagers (svc_db s))" "validateCommand cmd = Inr ()"
    "C_ID cmd \<notin> T_ID ` set (db_wagers (svc_db s))" "T_ProviderID t = C_ProviderID cmd"
    "T_IdempotencyKey t = C_IdempotencyKey cmd \<or> T_ExternalID t = C_ExternalID cmd"
    "(T_IdempotencyKey t, T_ExternalID t, T_WalletID t, T_PlayerID t, T_GameID t, T_RoundID t, T_Type t, T_Amount t, T_Currency t,
       T_ReferenceExternalID t) \<noteq>
     (C_IdempotencyKey cmd, C_ExternalID cmd, C_WalletID cmd, C_PlayerID cmd, C_GameID cmd, C_RoundID cmd, C_Type cmd,
       minor (C_Amount cmd), currency (C_Amount cmd), C_ReferenceExternalID cmd)"
  shows "let e = (if text_ok (C_ExternalID cmd) \<and> text_ok (C_IdempotencyKey cmd) then ErrIdempotencyConflict else PgError ''22021'' [])
    in Process E tx_ok env2 dr (serial_views (svc_db s)) cmd now el s =
      (Inl e, s\<lparr>svc_metrics := observeError e el (svc_metrics s)\<rparr>)"
proof -
  let ?d = "svc_db s" and ?p = "cmd\<lparr>C_PayloadHash := sha256_hex E (canonicalPayload E cmd)\<rparr>"
  have p: "prepareCommand E cmd = Inr ?p" using assms(3) by (simp add: prepare_Inr)
  have inv: "bank_inv E ?d" using reachable_bank [OF assms(1)] by simp
  have differs: "\<not> (T_IdempotencyKey t = C_IdempotencyKey cmd \<and> sameBusinessPayload t cmd)"
    using assms(7) by (auto simp: sameBusinessPayload_def)
  have same: "sameBusinessPayload u ?p = sameBusinessPayload u cmd" for u by (simp add: sameBusinessPayload_def)
  have prov: "text_ok (C_ProviderID cmd)" using stored_texts(1) [OF inv assms(2)] assms(5) by simp
  let ?e = "if text_ok (C_ExternalID cmd) \<and> text_ok (C_IdempotencyKey cmd) then ErrIdempotencyConflict else invalid_text"
  have i: "wagerRepo_FindByID (C_ID ?p) ?d = Inl ErrNoRows" using assms(4) by (simp add: wagers_by_id.lookup_Inl)
  have "findExistingTransaction ?p ?d = Inl ErrIdempotencyConflict" if ok: "text_ok (C_ExternalID cmd)" "text_ok (C_IdempotencyKey cmd)"
  proof (cases "wagerRepo_FindByIdempotency (C_ProviderID cmd) (C_IdempotencyKey cmd) ?d")
    case (Inr u)
    have u: "u \<in> set (db_wagers ?d)" "T_ProviderID u = C_ProviderID cmd" "T_IdempotencyKey u = C_IdempotencyKey cmd"
      using wagers_by_key.lookup_Inr [of "(C_ProviderID cmd, C_IdempotencyKey cmd)" ?d u] Inr by simp_all
    have "\<not> sameBusinessPayload u cmd"
    proof
      assume s: "sameBusinessPayload u cmd"
      then have "T_ExternalID u = C_ExternalID cmd" by (simp add: sameBusinessPayload_def)
      with u assms(2,5,6) inv have "u = t" unfolding bank_inv_parts distinct_map inj_on_def by auto
      with s u(3) differs show False by simp
    qed
    with i Inr same show ?thesis by (simp add: findExistingTransaction_def)
  next
    case (Inl e)
    then have e: "e = ErrNoRows" and none: "(C_ProviderID cmd, C_IdempotencyKey cmd) \<notin>
        (\<lambda>t. (T_ProviderID t, T_IdempotencyKey t)) ` set (db_wagers ?d)"
      using wagers_by_key.lookup_Inl [of "(C_ProviderID cmd, C_IdempotencyKey cmd)" ?d e] prov ok by simp_all
    with assms(2,5) have k: "T_IdempotencyKey t \<noteq> C_IdempotencyKey cmd" by (auto simp: image_iff)
    with assms(6) have "wagerRepo_FindByExternal (C_ProviderID cmd) (C_ExternalID cmd) ?d = Inr t"
      using wagers_by_external.lookup_row [of ?d t] inv assms(2,5) stored_texts [OF inv assms(2)] by (simp add: bank_inv_parts)
    with i Inl e k show ?thesis by (simp add: findExistingTransaction_def)
  qed
  moreover have "findExistingTransaction ?p ?d = Inl invalid_text" if "\<not> text_ok (C_IdempotencyKey cmd)"
    using i that by (simp add: findExistingTransaction_def wagerRepo_FindByIdempotency_def with_texts_def)
  ultimately have "processInTx E dr (serial_views ?d) ?p now ?d = Inl ?e"
    using prov by (auto simp: processInTx_eq with_texts_def replayExisting_def serial_views_def)
  with p show ?thesis by (simp add: Process_def WithTx_ok isKnownIdentityViolation_def)
qed

theorem conflicting_request_refused_witness:
  "fst (Process example_externals tx_ok tx_ok (demo_draws 2) (serial_views (svc_db demo_bet)) (demo_command 9 Bet 50 ''x1'' []) 3 5 demo_bet)
   = Inl ErrIdempotencyConflict"
proof -
  have "text_ok ''x1''" by code_simp
  with conflicting_request_refused [OF demo_reachable(2) demo_bet_row_in, of "demo_command 9 Bet 50 ''x1'' []"] demo_bet_ids show ?thesis
    by (simp add: demo_command_def validateCommand_def legacyIdentity_def sameBusinessPayload_def demo_bet_row_def
        transaction_row_def)
qed


text \<open>C40: A command in another currency than its wallet's is never recorded: whatever its type, the call fails
  with an error and no row changes, so that neither a rejection nor an event is left behind and a
  repetition meets the same error.\<close>

theorem foreign_currency_not_recorded:
  assumes "service_reachable E s" "money_wf (C_Amount cmd)" "w \<in> set (db_wallets (svc_db s))" "W_ID w = C_WalletID cmd"
    "W_Currency w \<noteq> currency (C_Amount cmd)"
  shows "\<exists>e s'. Process E tx_ok env2 dr (serial_views (svc_db s)) cmd now el s = (Inl e, s') \<and> svc_db s' = svc_db s"
proof -
  obtain r s' where r: "Process E tx_ok env2 dr (serial_views (svc_db s)) cmd now el s = (r, s')" by fastforce
  have i: "externals_ok E" "bank_inv E (svc_db s)" using reachable_bank [OF assms(1)] by simp_all
  have step: "service_step E s s'" by (rule step_process [OF assms(2) serial_view r])
  show ?thesis
  proof (cases r)
    case (Inl e)
    have "svc_db (snd (Process E tx_ok env2 dr (serial_views (svc_db s)) cmd now el s)) = svc_db s"
      by (rule Process_failed) (use r Inl in \<open>simp_all add: tx_ok_def\<close>)
    with r Inl show ?thesis by simp
  next
    case (Inr a)
    with r obtain p where p: "prepareCommand E cmd = Inr p" "processInTx E dr (serial_views (svc_db s)) p now (svc_db s) = Inr (a, svc_db s')"
      using Process_Inr_serial by blast
    have same: "C_WalletID p = C_WalletID cmd" "C_Amount p = C_Amount cmd" using p(1) by (auto simp: prepare_Inr)
    obtain t where t: "t \<in> set (db_wagers (svc_db s'))" "answers E p t"
      using process_stores [OF p(2) i(2,1)] same assms(2) by metis
    have inv': "bank_inv E (svc_db s')" using service.step_inv [OF _ step] i by (simp add: service_inv_def)
    then obtain v where v: "v \<in> set (db_wallets (svc_db s'))" "W_ID v = T_WalletID t" "W_Currency v = T_Currency t"
      using t(1) by (auto simp: bank_inv_parts)
    obtain w' where w': "w' \<in> set (db_wallets (svc_db s'))" "W_ID w' = W_ID w" "W_Currency w' = W_Currency w"
      using steps_wallets [OF service_step_bank [OF step i(2,1)] assms(3)] by blast
    have "T_WalletID t = C_WalletID cmd" "T_Currency t = currency (C_Amount cmd)"
      using t(2) same by (simp_all add: answers_def sameBusinessPayload_def)
    then have "v = w'" using inv' v w' assms(4) by (auto simp: bank_inv_parts distinct_map inj_on_def)
    then show ?thesis using v(3) w'(3) assms(5) \<open>T_Currency t = currency (C_Amount cmd)\<close> by simp
  qed
qed

theorem foreign_currency_not_recorded_witness:
  "\<exists>e s'. Process example_externals tx_ok tx_ok (demo_draws 2) (serial_views (svc_db demo_bet))
     ((demo_command 9 Bet 40 ''x9'' [])\<lparr>C_Amount := \<lparr>minor = 40, currency = ''USD''\<rparr>\<rparr>) 3 5 demo_bet = (Inl e, s') \<and> svc_db s' = svc_db demo_bet"
proof -
  let ?w = "hd (db_wallets (svc_db demo_bet))"
  have w: "?w \<in> set (db_wallets (svc_db demo_bet))" by (simp add: demo_bet_wallets)
  show ?thesis
    by (rule foreign_currency_not_recorded [OF demo_reachable(2) _ w])
      (simp_all add: demo_bet_wallets demo_command_def money_wf_def currencyPattern_def int64_defs)
qed

text \<open>C10: A command whose first lookup found nothing and which then waited for the wallet lock while
  another session committed the same request does not move money again: the second lookup sees the
  committed row, its stored outcome is returned and no row changes.\<close>

theorem waiting_command_replays:
  assumes "service_reachable E s" "t \<in> set (db_wagers (svc_db s))" "prepareCommand E cmd = Inr p" "answers E p t"
    "C_ID cmd = T_ID t \<or> C_ID cmd \<notin> T_ID ` set (db_wagers (svc_db s))"
    "replayExisting E p early = Inr None"
  shows "\<exists>r s'. Process E tx_ok env2 dr \<lparr>view_first = early, view_second = svc_db s\<rparr> cmd now el s = (Inr r, s')
    \<and> svc_db s' = svc_db s \<and> replayResult E t = Inr r"
proof -
  have i: "bank_inv E (svc_db s)" using reachable_bank [OF assms(1)] by simp
  have c: "C_ID p = T_ID t \<or> C_ID p \<notin> T_ID ` set (db_wagers (svc_db s))" using assms(3,5) by (auto simp: prepare_Inr)
  obtain r where "replayResult E t = Inr r"
    "processInTx E dr \<lparr>view_first = early, view_second = svc_db s\<rparr> p now (svc_db s) = Inr (r, svc_db s)"
    by (rule process_replay [OF i assms(2,4) c, of "\<lparr>view_first = early, view_second = svc_db s\<rparr>" dr now]) (simp_all add: assms(6))
  with Process_committed [OF assms(3)] show ?thesis by blast
qed

theorem waiting_command_replays_witness:
  "\<exists>r s'. Process example_externals tx_ok tx_ok (demo_draws 2) \<lparr>view_first = svc_db demo_open, view_second = svc_db demo_bet\<rparr>
     (demo_command 1 Bet 40 ''x1'' []) 3 5 demo_bet = (Inr r, s') \<and> svc_db s' = svc_db demo_bet"
proof -
  let ?p = "demo_command 1 Bet 40 ''x1'' [] \<lparr>C_PayloadHash := ''digest''\<rparr>"
  have p: "prepareCommand example_externals (demo_command 1 Bet 40 ''x1'' []) = Inr ?p" by (rule demo_prepared)
  have a: "answers example_externals ?p demo_bet_row"
    by (simp add: answers_def sameBusinessPayload_def demo_command_def demo_bet_row_def transaction_row_def)
  have "replayExisting example_externals ?p (svc_db demo_open) = Inr None" by code_simp
  from waiting_command_replays [OF demo_reachable(2) demo_bet_row_in p a _ this, of tx_ok "demo_draws 2" 3 5] show ?thesis
    by (auto simp: demo_command_def demo_bet_row_def transaction_row_def)
qed


text \<open>C11: A call that reports an error has changed no row, unless its commit was ambiguous; this holds for
  opening a wallet, commands, messages and pending references.\<close>

theorem failed_call_changes_nothing:
  assumes "\<And>e. commit_result env \<noteq> CommitUnknown e"
  shows "(fst (OpenWallet E env dr i player opening now s) = Inl e1 \<longrightarrow> svc_db (snd (OpenWallet E env dr i player opening now s)) = svc_db s)
    \<and> (fst (Process E env env2 dr vs cmd now el s) = Inl e2 \<longrightarrow> svc_db (snd (Process E env env2 dr vs cmd now el s)) = svc_db s)
    \<and> (fst (ProcessMessage E env dr vs c m h cmd now el s) = Inl e3 \<longrightarrow>
        svc_db (snd (ProcessMessage E env dr vs c m h cmd now el s)) = svc_db s)
    \<and> (snd (fst (ProcessPendingReference E env dr locked now k base s)) \<noteq> None \<longrightarrow>
        svc_db (snd (ProcessPendingReference E env dr locked now k base s)) = svc_db s)"
proof (intro conjI impI)
  note wt = WithTx_failed [OF _ assms]
  show "fst (OpenWallet E env dr i player opening now s) = Inl e1 \<Longrightarrow> svc_db (snd (OpenWallet E env dr i player opening now s)) = svc_db s"
    by (auto simp: OpenWallet_def split: prod.splits dest: wt)
  show "snd (fst (ProcessPendingReference E env dr locked now k base s)) \<noteq> None \<Longrightarrow>
      svc_db (snd (ProcessPendingReference E env dr locked now k base s)) = svc_db s"
    by (auto simp: ProcessPendingReference_def Let_def split: prod.splits sum.splits dest: wt)
  show "fst (ProcessMessage E env dr vs c m h cmd now el s) = Inl e3 \<Longrightarrow>
      svc_db (snd (ProcessMessage E env dr vs c m h cmd now el s)) = svc_db s"
    by (auto simp: ProcessMessage_def Let_def split: prod.splits sum.splits if_splits dest: wt)
  show "fst (Process E env env2 dr vs cmd now el s) = Inl e2 \<Longrightarrow> svc_db (snd (Process E env env2 dr vs cmd now el s)) = svc_db s"
    by (rule Process_failed [OF assms])
qed

theorem failed_call_changes_nothing_witness:
  "svc_db (snd (Process example_externals tx_ok tx_ok (demo_draws 1) (serial_views empty_db) (demo_command 1 Bet 40 ''x1'' []) 2 5
     \<lparr>svc_db = empty_db, svc_metrics = None\<rparr>)) = empty_db"
proof -
  have "fst (Process example_externals tx_ok tx_ok (demo_draws 1) (serial_views empty_db) (demo_command 1 Bet 40 ''x1'' []) 2 5
      \<lparr>svc_db = empty_db, svc_metrics = None\<rparr>) = Inl ErrNoRows" by code_simp
  then show ?thesis
    using failed_call_changes_nothing [of tx_ok example_externals "demo_draws 1" 7 "''p''" zero_Money 2 "\<lparr>svc_db = empty_db, svc_metrics = None\<rparr>"
        ErrNoRows tx_ok "serial_views empty_db" "demo_command 1 Bet 40 ''x1'' []" 5 ErrNoRows]
    by (simp add: tx_ok_def)
qed


section \<open>The effect of a new command\<close>

definition command_entry :: "draws \<Rightarrow> Command \<Rightarrow> WalletRecord \<Rightarrow> Result \<Rightarrow> Direction \<Rightarrow> time \<Rightarrow> LedgerRecord" where
  "command_entry dr cmd w r dir now = \<lparr>L_ID = draw_entry dr, L_WalletID = C_WalletID cmd, L_TransactionID = C_ID cmd,
     L_Direction = dir, L_Currency = currency (C_Amount cmd), L_Value = minor (C_Amount cmd),
     L_BalanceBefore = W_Balance w, L_BalanceAfter = R_Balance r, L_Timestamp = now\<rparr>"

text \<open>
  The rows a new command leaves: its transaction, and for a processed movement the wallet with the new
  balance and version and one ledger entry that leads from the old balance to the new one.
\<close>

definition movement_effect :: "draws \<Rightarrow> Command \<Rightarrow> WalletRecord \<Rightarrow> Result \<Rightarrow> time \<Rightarrow> db \<Rightarrow> db \<Rightarrow> bool" where
  "movement_effect dr cmd w r now d d' \<longleftrightarrow>
     (if R_State r = Processed \<and> C_Type cmd \<noteq> Loss
      then (\<exists>dir. R_Balance r = W_Balance w + signed_value dir (minor (C_Amount cmd)) \<and> (dir = Credit \<or> dir = Debit)
        \<and> db_ledger d' = db_ledger d @ [command_entry dr cmd w r dir now])
        \<and> db_wallets d' = update_where (\<lambda>x. W_ID x = W_ID w)
            (\<lambda>x. x\<lparr>W_Balance := R_Balance r, W_Version := W_Version w + 1, W_UpdatedAt := now\<rparr>) (db_wallets d)
      else db_ledger d' = db_ledger d \<and> db_wallets d' = db_wallets d)"

definition command_effect :: "externals \<Rightarrow> draws \<Rightarrow> Command \<Rightarrow> WalletRecord \<Rightarrow> Result \<Rightarrow> time \<Rightarrow> db \<Rightarrow> db \<Rightarrow> bool" where
  "command_effect E dr cmd w r now d d' \<longleftrightarrow>
     db_wagers d' = db_wagers d @ [transaction_row E cmd r now] \<and> movement_effect dr cmd w r now d d'"

lemma writeRow_tables:
  "writeRow E cmd r existing now d = Inr d1 \<Longrightarrow> db_wallets d1 = db_wallets d \<and> db_ledger d1 = db_ledger d \<and> db_outbox d1 = db_outbox d"
  by (auto simp: writeRow_def insertTransaction_def wagerRepo_Insert_def wagerRepo_UpdatePendingReference_def result_simps
      split: option.splits)

lemma applyOperation_moves:
  assumes "applyOperationInTx E dr cmd w txDomain reference existing now d = Inr (r, d')"
    "bank_inv E d" "externals_ok E" "command_ok cmd" "w \<in> set (db_wallets d)" "W_ID w = C_WalletID cmd"
    "C_Type cmd = Rollback \<longrightarrow> reference \<noteq> None"
  obtains d1 where "writeRow E cmd r existing now d = Inr d1" "db_wagers d' = db_wagers d1" "movement_effect dr cmd w r now d d'"
proof -
  have wok: "wallet_row_ok w" using bank_invD(3) [OF assms(2,5)] .
  let ?dir = "movement_direction (C_Type cmd) (map_option T_Type reference)"
  note app = applyOperation_Inr [OF assms(1,3) wok assms(4,7)]
  from app(2) obtain d1 d2 where wr: "writeRow E cmd r existing now d = Inr d1"
    and mv: "if R_State r = Processed \<and> C_Type cmd \<noteq> Loss
      then moveBalance E dr cmd w ?dir (minor (C_Amount cmd)) (R_Balance r) now d1 = Inr d2 else d2 = d1"
    and same: "same_tables d2 d'" by blast
  have d1: "db_wallets d1 = db_wallets d" "db_ledger d1 = db_ledger d" using writeRow_tables [OF wr] by simp_all
  show ?thesis
  proof (cases "R_State r = Processed \<and> C_Type cmd \<noteq> Loss")
    case False
    with mv same d1 wr show ?thesis by (intro that [of d1]) (auto simp: movement_effect_def same_tables_def)
  next
    case True
    with app(1) have cur: "W_Currency w = currency (C_Amount cmd)" by (auto simp: operation_result_def accepted_def split: if_splits)
    from assms(5) obtain us vs where split: "db_wallets d1 = us @ w # vs" unfolding d1 by (meson split_list)
    have dist: "distinct (map W_ID (db_wallets d1))" using bank_invD(2) [OF assms(2)] d1 by simp
    from True mv have mb: "moveBalance E dr cmd w ?dir (minor (C_Amount cmd)) (R_Balance r) now d1 = Inr d2" by simp
    obtain w' e where m: "d2 = d1\<lparr>db_wallets := us @ w' # vs, db_ledger := db_ledger d1 @ [e]\<rparr>"
      "w' = w\<lparr>W_Balance := R_Balance r, W_Version := W_Version w + 1, W_UpdatedAt := now\<rparr>"
      "e = command_entry dr cmd w r ?dir now" "R_Balance r = W_Balance w + signed_entry e"
      using moveBalance_Inr [OF mb assms(3) split assms(6) dist wok cur movement_direction_cases]
      unfolding command_entry_def by blast
    have "update_where (\<lambda>x. W_ID x = W_ID w) (\<lambda>x. x\<lparr>W_Balance := R_Balance r, W_Version := W_Version w + 1, W_UpdatedAt := now\<rparr>)
        (db_wallets d) = us @ w' # vs"
      using update_where_split [OF dist [unfolded split] refl] split d1 m(2) by simp
    moreover have "R_Balance r = W_Balance w + signed_value ?dir (minor (C_Amount cmd))"
      using m(4) unfolding m(3) by (simp add: command_entry_def)
    ultimately show ?thesis
      using True same m(1,3) d1 wr movement_direction_cases [of "C_Type cmd" "map_option T_Type reference"]
      by (intro that [of d1]) (auto simp: movement_effect_def same_tables_def)
  qed
qed

lemma applyOperation_effect:
  assumes "applyOperationInTx E dr cmd w txDomain reference None now d = Inr (r, d')"
    "bank_inv E d" "externals_ok E" "command_ok cmd" "w \<in> set (db_wallets d)" "W_ID w = C_WalletID cmd"
    "C_Type cmd = Rollback \<longrightarrow> reference \<noteq> None"
  shows "command_effect E dr cmd w r now d d'"
proof -
  obtain d1 where "insertTransaction E cmd r now d = Inr d1" "db_wagers d' = db_wagers d1" "movement_effect dr cmd w r now d d'"
    using applyOperation_moves [OF assms] by (auto simp: writeRow_def)
  with insertTransaction_Inr(1) [OF this(1)] show ?thesis by (simp add: command_effect_def)
qed

lemma persist_effect:
  assumes "persistRejected E dr cmd w now txDomain code d = Inr (r, d') \<or> persistPendingReference E dr cmd w now txDomain d = Inr (r, d')"
  shows "command_effect E dr cmd w r now d d'"
proof -
  from assms obtain d1 ty where "insertTransaction E cmd r now d = Inr d1" "R_State r \<noteq> Processed"
    "insertEvent E (draw_event dr) ty (C_Type cmd) (C_ID cmd) (C_WalletID cmd) r (W_Version w) now (C_IdempotencyKey cmd) [] d1 = Inr d'"
    by (auto simp: persistRejected_def persistPendingReference_def result_simps Let_def)
  with insertTransaction_Inr(1) [OF this(1)] insertEvent_Inr [OF this(3)] show ?thesis
    by (simp add: command_effect_def movement_effect_def same_tables_def)
qed

lemma execute_effect:
  assumes "executeInTx E dr v cmd now w d = Inr (r, d')" "bank_inv E d" "externals_ok E" "money_wf (C_Amount cmd)"
    "w \<in> set (db_wallets d)" "W_ID w = C_WalletID cmd"
  shows "command_effect E dr cmd w r now d d'"
proof -
  from assms(1) obtain tx where tx: "wager_New (uuid_String E (C_ID cmd)) (C_ExternalID cmd) (C_ProviderID cmd)
      (uuid_String E (C_WalletID cmd)) (C_Type cmd) (C_Amount cmd) = Inr tx"
    by (auto simp: executeInTx_def bindR_Inr_conv)
  note ok = wager_New_command_ok(1) [OF tx assms(4)]
  note app = applyOperation_effect [OF _ assms(2,3) ok assms(5,6)]
  show ?thesis
    using assms(1) tx
    by (auto simp: executeInTx_def split: if_splits sum.splits intro: persist_effect app)
qed

text \<open>C6: What a new command does: when the service answers a command that is not a repetition, the answer
  is the one the rules prescribe for the wallet and the referenced transaction (\<open>answer\<close>), one
  transaction row with that outcome is added, and the wallet and its ledger change exactly when the
  outcome is a processed movement, by the amount of the command.\<close>

theorem new_command_effect:
  assumes "service_reachable E s" "money_wf (C_Amount cmd)" "prepareCommand E cmd = Inr p"
    "findExistingTransaction p (svc_db s) = Inr None"
    "Process E tx_ok env2 dr (serial_views (svc_db s)) cmd now el s = (Inr r, s')"
  shows "\<exists>w \<in> set (db_wallets (svc_db s)). W_ID w = C_WalletID cmd \<and> r = answer (svc_db s) w p
    \<and> command_effect E dr p w r now (svc_db s) (svc_db s')"
proof -
  have i: "externals_ok E" "bank_inv E (svc_db s)" using reachable_bank [OF assms(1)] by simp_all
  have m: "money_wf (C_Amount p)" using prepare_amount [OF assms(3)] assms(2) by simp
  have "processInTx E dr (serial_views (svc_db s)) p now (svc_db s) = Inr (r, svc_db s')"
    using Process_Inr_serial [OF assms(5)] assms(3) by (metis sum.inject(2))
  moreover have "replayExisting E p (svc_db s) = Inr None" using assms(4) by (simp add: replayExisting_def)
  ultimately obtain w where w: "walletRepo_FindForUpdate (C_WalletID p) (svc_db s) = Inr w"
    and ex: "executeInTx E dr (svc_db s) p now w (svc_db s) = Inr (r, svc_db s')"
    using processInTx_Inr by (fastforce simp: serial_views_def)
  have w': "w \<in> set (db_wallets (svc_db s))" "W_ID w = C_WalletID p" using wallets_by_id.lookup_Inr [OF w] by simp_all
  have "view_of (svc_db s) (svc_db s)" by (simp add: view_of_def)
  with execute_step [OF ex i(2,1) m w'] execute_effect [OF ex i(2,1) m w'] w' assms(3) show ?thesis
    by (auto simp: prepare_Inr)
qed

theorem new_command_effect_witness:
  "\<exists>w \<in> set (db_wallets (svc_db demo_open)). W_ID w = 7 \<and>
     command_effect example_externals (demo_draws 1) (demo_command 1 Bet 40 ''x1'' [] \<lparr>C_PayloadHash := ''digest''\<rparr>) w demo_bet_result 2
       (svc_db demo_open) (svc_db demo_bet)"
proof -
  let ?p = "demo_command 1 Bet 40 ''x1'' [] \<lparr>C_PayloadHash := ''digest''\<rparr>"
  have f: "findExistingTransaction ?p (svc_db demo_open) = Inr None" by code_simp
  have m: "money_wf (C_Amount (demo_command 1 Bet 40 ''x1'' []))" by (simp add: demo_command_def demo_money)
  show ?thesis using new_command_effect [OF demo_reachable(1) m demo_prepared f demo_bet_eq] by (auto simp: demo_command_def)
qed

section \<open>When a command is answered\<close>

definition fresh_draws :: "draws \<Rightarrow> db \<Rightarrow> bool" where
  "fresh_draws dr d \<longleftrightarrow> draw_event dr \<notin> O_EventID ` set (db_outbox d) \<and> draw_change dr \<notin> O_EventID ` set (db_outbox d)
     \<and> draw_event dr \<noteq> draw_change dr \<and> draw_entry dr \<notin> L_ID ` set (db_ledger d)"

lemma check_all_ok: "list_all fst cs \<Longrightarrow> check_all cs = Inr ()"
  by (simp add: check_all_Inr)

lemma event_type_texts [simp]:
  "text_ok ''WagerTransactionProcessed''" "text_ok ''WalletBalanceChanged''" "text_ok ''WagerTransactionRejected''"
  "text_ok ''WagerTransactionPendingReference''"
  by code_simp+

lemma insertEvent_total:
  assumes "externals_ok E" "text_ok ty" "text_ok co" "1 \<le> v" "i \<notin> O_EventID ` set (db_outbox d)"
  shows "\<exists>d'. insertEvent E i ty k ag wid r v now co cs d = Inr d' \<and> O_EventID ` set (db_outbox d') = insert i (O_EventID ` set (db_outbox d))"
proof -
  have "\<exists>d'. outboxRepo_InsertWithMetadata i ty ag co ca v now data now d = Inr d'
      \<and> O_EventID ` set (db_outbox d') = insert i (O_EventID ` set (db_outbox d))" if "text_ok ca" for ca data
    using assms that
    by (auto simp: outboxRepo_InsertWithMetadata_def Let_def check_all_ok outbox_constraints_def list_ex_iff fresh_image)
  with externals_okD(7) [OF assms(1)] show ?thesis by (cases cs) (simp_all add: insertEvent_def Let_def)
qed

lemma insertFinancialEvents_total:
  assumes "externals_ok E" "text_ok co" "1 \<le> v" "fresh_draws dr d0" "db_outbox d = db_outbox d0"
  shows "\<exists>d'. insertFinancialEvents E dr k wid r v now co changed ch d = Inr d'"
proof -
  have "draw_event dr \<notin> O_EventID ` set (db_outbox d)" using assms by (simp add: fresh_draws_def)
  from insertEvent_total [OF assms(1) event_type_texts(1) assms(2,3) this] obtain d1 where d1:
    "insertEvent E (draw_event dr) ''WagerTransactionProcessed'' k (R_TransactionID r) wid r v now co [] d = Inr d1"
    "O_EventID ` set (db_outbox d1) = insert (draw_event dr) (O_EventID ` set (db_outbox d))" by blast
  then have "draw_change dr \<notin> O_EventID ` set (db_outbox d1)" using assms(4,5) by (auto simp: fresh_draws_def)
  from insertEvent_total [OF assms(1) event_type_texts(2) assms(2,3) this] obtain d2 where
    "insertEvent E (draw_change dr) ''WalletBalanceChanged'' k wid wid r v now co [ch] d1 = Inr d2" by blast
  with d1(1) show ?thesis by (cases changed) (auto simp: insertFinancialEvents_def)
qed

text \<open>
  What PostgreSQL requires of the texts of a command, and the service does not check: no byte 0, valid UTF-8,
  and index entries that fit a page.
\<close>

definition storable :: "externals \<Rightarrow> Command \<Rightarrow> bool" where
  "storable E cmd \<longleftrightarrow> list_all text_ok [C_ExternalID cmd, C_ProviderID cmd, C_PlayerID cmd, C_GameID cmd, C_RoundID cmd,
       C_IdempotencyKey cmd, C_PayloadHash cmd, C_ReferenceExternalID cmd]
     \<and> index_fits E (C_ProviderID cmd) (C_ExternalID cmd) \<and> index_fits E (C_ProviderID cmd) (C_IdempotencyKey cmd)
     \<and> (C_ReferenceExternalID cmd = [] \<or> index_fits E (C_ProviderID cmd) (C_ReferenceExternalID cmd))"

lemma storable_short:
  assumes "externals_ok E" "list_all text_ok (payload_texts cmd)" "text_ok (C_IdempotencyKey cmd)" "text_ok (C_PayloadHash cmd)"
    "length (C_ProviderID cmd) \<le> 1300" "length (C_ExternalID cmd) \<le> 1300" "length (C_IdempotencyKey cmd) \<le> 1300"
    "length (C_ReferenceExternalID cmd) \<le> 1300"
  shows "storable E cmd"
  using assms by (simp add: storable_def payload_texts_def externals_okD)

lemma currency_text: "currencyPattern c \<Longrightarrow> text_ok c"
  by (rule text_ok_ascii) (auto simp: currencyPattern_def list_all_iff byte_nat)

text \<open>What the transport and the database require of a new command.\<close>

definition admissible :: "externals \<Rightarrow> Command \<Rightarrow> WalletRecord \<Rightarrow> db \<Rightarrow> bool" where
  "admissible E cmd w d \<longleftrightarrow> validateCommand cmd = Inr () \<and> storable E cmd \<and> C_PayloadHash cmd \<noteq> [] \<and> command_ok cmd
     \<and> w \<in> set (db_wallets d) \<and> W_ID w = C_WalletID cmd \<and> W_Currency w = currency (C_Amount cmd)
     \<and> W_Version w < max_int64 \<and> findExistingTransaction cmd d = Inr None"

lemma findExisting_None:
  assumes "findExistingTransaction cmd d = Inr None" "T_ID t = C_ID cmd" "T_ProviderID t = C_ProviderID cmd"
    "T_ExternalID t = C_ExternalID cmd" "T_IdempotencyKey t = C_IdempotencyKey cmd"
  shows "fresh_tx t d"
proof -
  from assms(1) have "wagerRepo_FindByID (C_ID cmd) d = Inl ErrNoRows"
    "wagerRepo_FindByIdempotency (C_ProviderID cmd) (C_IdempotencyKey cmd) d = Inl ErrNoRows"
    "wagerRepo_FindByExternal (C_ProviderID cmd) (C_ExternalID cmd) d = Inl ErrNoRows"
    by (auto simp: findExistingTransaction_def split: sum.splits if_splits)
  with assms(2-) show ?thesis
    by (auto simp: fresh_tx_def wagerRepo_FindByID_def wagerRepo_FindByIdempotency_def wagerRepo_FindByExternal_def result_simps
        find_None_iff split: if_splits)
qed

lemma insertTransaction_total:
  assumes "admissible E cmd w d" "R_State r \<in> {Processed, Rejected, PendingReference}"
    "R_State r = Processed \<Longrightarrow> \<not> reversal_clash (C_ID cmd) (C_ProviderID cmd) (C_ReferenceExternalID cmd) Processed d"
    "text_ok (R_FailureCode r)"
  shows "insertTransaction E cmd r now d = Inr (d\<lparr>db_wagers := db_wagers d @ [transaction_row E cmd r now]\<rparr>)"
proof -
  let ?t = "transaction_row E cmd r now"
  have f: "fresh_tx ?t d" using assms(1) by (intro findExisting_None [of cmd]) (simp_all add: admissible_def transaction_row_def)
  have checks: "list_all fst (wager_transactions_checks ?t)"
    using assms(1,2,4)
    by (auto simp: wager_transactions_checks_def row_texts_def storable_def currency_text transaction_row_def admissible_def command_ok_def validateCommand_def
        validExternalType_iff validAmount_iff money_valid_def split: if_splits)
  have "\<not> reversal_clash (T_ID ?t) (T_ProviderID ?t) (T_ReferenceExternalID ?t) (T_State ?t) d"
    using assms(3) by (cases "R_State r = Processed") (auto simp: transaction_row_def reversal_clash_def)
  moreover have "\<exists>w \<in> set (db_wallets d). W_ID w = T_WalletID ?t \<and> W_Currency w = T_Currency ?t"
    using assms(1) by (auto simp: admissible_def transaction_row_def)
  moreover have "index_fits E (T_ProviderID ?t) (T_ExternalID ?t)" "index_fits E (T_ProviderID ?t) (T_IdempotencyKey ?t)"
    "reversal_entry_fits (index_fits E) (T_ProviderID ?t) (T_ReferenceExternalID ?t) (T_State ?t)"
    using assms(1) by (auto simp: admissible_def storable_def transaction_row_def reversal_entry_fits_def)
  ultimately have "list_all fst (wager_transactions_constraints (index_fits E) ?t d)"
    using f checks by (auto simp: wager_transactions_constraints_def fresh_tx_def list_ex_iff)
  then show ?thesis by (simp add: insertTransaction_def wagerRepo_Insert_def check_all_ok)
qed

lemma accepted_bounds:
  assumes "command_ok cmd" "C_Type cmd \<noteq> Loss" "wallet_row_ok w" "accepted w cmd reference"
    "dir = movement_direction (C_Type cmd) reference" "after = W_Balance w + signed_value dir (minor (C_Amount cmd))"
  shows "0 < minor (C_Amount cmd)" "minor (C_Amount cmd) \<le> max_int64" "currencyPattern (currency (C_Amount cmd))"
    "0 \<le> after" "after \<le> max_int64" "dir = Credit \<or> dir = Debit" "0 \<le> W_Balance w" "W_Balance w \<le> max_int64"
  using assms movement_direction_cases [of "C_Type cmd" reference]
  by (auto simp: command_ok_def validAmount_iff money_valid_def accepted_def wallet_row_ok_def)

lemma ledger_entry_total:
  assumes "externals_ok E" "currencyPattern c" "0 < m" "m \<le> max_int64" "0 \<le> b" "b \<le> max_int64" "0 \<le> after" "after \<le> max_int64"
    "after = b + signed_value dir m" "dir = Credit \<or> dir = Debit" "now \<noteq> 0"
  shows "bindR (ledger_New (uuid_String E i) (uuid_String E wid) (uuid_String E tid) dir \<lparr>minor = m, currency = c\<rparr>
      \<lparr>minor = b, currency = c\<rparr> \<lparr>minor = after, currency = c\<rparr> now) (ledgerRecord E) =
    Inr \<lparr>L_ID = i, L_WalletID = wid, L_TransactionID = tid, L_Direction = dir, L_Currency = c, L_Value = m,
      L_BalanceBefore = b, L_BalanceAfter = after, L_Timestamp = now\<rparr>"
proof -
  have val: "money_valid \<lparr>minor = m, currency = c\<rparr>" "money_valid \<lparr>minor = b, currency = c\<rparr>" "money_valid \<lparr>minor = after, currency = c\<rparr>"
    using assms by (auto simp: money_valid_def)
  have "ledger_New (uuid_String E i) (uuid_String E wid) (uuid_String E tid) dir \<lparr>minor = m, currency = c\<rparr>
      \<lparr>minor = b, currency = c\<rparr> \<lparr>minor = after, currency = c\<rparr> now = Inr \<lparr>entry_id = uuid_String E i,
      entry_walletID = uuid_String E wid, entry_transactionID = uuid_String E tid, entry_direction = dir,
      entry_value = \<lparr>minor = m, currency = c\<rparr>, entry_balanceBefore = \<lparr>minor = b, currency = c\<rparr>,
      entry_balanceAfter = \<lparr>minor = after, currency = c\<rparr>, entry_timestamp = now\<rparr>"
    unfolding ledger_New_Inr [OF val] using assms by (auto simp: externals_okD)
  with assms(1) show ?thesis by (simp add: ledgerRecord_def uuid_MustParse_def externals_okD)
qed

lemma moveBalance_entry:
  "moveBalance E dr cmd w dir m after now d =
     bindR (walletRepo_UpdateBalance (C_WalletID cmd) after (wrap64 (W_Version w + 1)) now d) (\<lambda>d1.
     bindR (moneyFromMinor m (currency (C_Amount cmd))) (\<lambda>val.
     bindR (moneyFromMinor (W_Balance w) (currency (C_Amount cmd))) (\<lambda>beforeMoney.
     bindR (moneyFromMinor after (currency (C_Amount cmd))) (\<lambda>afterMoney.
     bindR (bindR (ledger_New (uuid_String E (draw_entry dr)) (uuid_String E (C_WalletID cmd)) (uuid_String E (C_ID cmd))
              dir val beforeMoney afterMoney now) (ledgerRecord E)) (\<lambda>r. ledgerRepo_Insert r d1)))))"
  by (simp add: moveBalance_def bindR_def split: sum.split)

text \<open>What an operation needs of the wallet and the ledger; a new admissible command has it, and so does a
  pending one.\<close>

definition operable :: "Command \<Rightarrow> WalletRecord \<Rightarrow> db \<Rightarrow> bool" where
  "operable cmd w d \<longleftrightarrow> command_ok cmd \<and> text_ok (C_IdempotencyKey cmd) \<and> w \<in> set (db_wallets d) \<and> W_ID w = C_WalletID cmd
     \<and> W_Currency w = currency (C_Amount cmd) \<and> W_Version w < max_int64
     \<and> (\<forall>x \<in> set (db_ledger d). L_TransactionID x \<noteq> C_ID cmd)"

lemma admissible_operable:
  assumes "admissible E cmd w d" "bank_inv E d"
  shows "operable cmd w d"
proof -
  have "fresh_tx (transaction_row E cmd r 0) d" for r
    using assms(1) by (intro findExisting_None [of cmd]) (simp_all add: admissible_def transaction_row_def)
  then have "L_TransactionID x \<noteq> C_ID cmd" if "x \<in> set (db_ledger d)" for x
    using that assms(2) by (fastforce simp: bank_inv_def entries_ok_def fresh_tx_def transaction_row_def)
  with assms(1) show ?thesis by (auto simp: admissible_def operable_def storable_def)
qed

lemma moveBalance_total:
  assumes "operable cmd w d" "bank_inv E d" "externals_ok E" "fresh_draws dr d" "now \<noteq> 0" "C_Type cmd \<noteq> Loss"
    "accepted w cmd reference" "dir = movement_direction (C_Type cmd) reference"
    "after = W_Balance w + signed_value dir (minor (C_Amount cmd))" "d1 = d\<lparr>db_wagers := ws\<rparr>"
    "\<exists>t \<in> set ws. T_ID t = C_ID cmd \<and> T_Currency t = currency (C_Amount cmd)"
  shows "\<exists>d2. moveBalance E dr cmd w dir (minor (C_Amount cmd)) after now d1 = Inr d2 \<and> db_outbox d2 = db_outbox d"
proof -
  let ?c = "currency (C_Amount cmd)" and ?m = "minor (C_Amount cmd)"
  have a: "command_ok cmd" "w \<in> set (db_wallets d)" "W_ID w = C_WalletID cmd" "W_Currency w = ?c" "W_Version w < max_int64"
    using assms(1) by (auto simp: operable_def)
  have wok: "wallet_row_ok w" using bank_invD(3) [OF assms(2) a(2)] .
  note b = accepted_bounds [OF a(1) assms(6) wok assms(7-9)]
  have ver: "wrap64 (W_Version w + 1) = W_Version w + 1" "1 \<le> W_Version w + 1"
    using wok a(5) by (auto simp: wallet_row_ok_def wrap64_id int64_defs)
  let ?l = "\<lparr>L_ID = draw_entry dr, L_WalletID = C_WalletID cmd, L_TransactionID = C_ID cmd, L_Direction = dir,
      L_Currency = ?c, L_Value = ?m, L_BalanceBefore = W_Balance w, L_BalanceAfter = after, L_Timestamp = now\<rparr>"
  let ?d2 = "d1\<lparr>db_wallets := update_where (\<lambda>w. W_ID w = C_WalletID cmd)
      (\<lambda>w'. w'\<lparr>W_Balance := after, W_Version := W_Version w + 1, W_UpdatedAt := now\<rparr>) (db_wallets d1)\<rparr>"
  have up: "walletRepo_UpdateBalance (C_WalletID cmd) after (W_Version w + 1) now d1 = Inr ?d2"
    using b ver by (auto simp: walletRepo_UpdateBalance_def check_all_ok)
  have nt: "L_TransactionID x \<noteq> C_ID cmd" if "x \<in> set (db_ledger d)" for x
    using that assms(1) by (auto simp: operable_def)
  have wal: "\<exists>x \<in> set (db_wallets ?d2). W_ID x = C_WalletID cmd \<and> W_Currency x = ?c"
    by (rule bexI [of _ "w\<lparr>W_Balance := after, W_Version := W_Version w + 1, W_UpdatedAt := now\<rparr>"])
       (use a(2-4) assms(10) in \<open>auto simp: update_where_def intro!: rev_image_eqI [OF a(2)]\<close>)
  have "list_all fst (ledger_constraints ?l ?d2)"
    using b nt wal assms(4,9-11)
    by (auto simp: ledger_constraints_def list_ex_iff fresh_draws_def fresh_image)
  then have "moveBalance E dr cmd w dir ?m after now d1 = Inr (?d2\<lparr>db_ledger := db_ledger ?d2 @ [?l]\<rparr>)"
    using b up ver(1) ledger_entry_total [OF assms(3) b(3,1,2,7,8,4,5) assms(9) b(6) assms(5)]
    by (simp add: moveBalance_entry moneyFromMinor_eq ledgerRepo_Insert_def check_all_ok)
  then show ?thesis using assms(10) by simp
qed

lemma operation_events_total:
  assumes "externals_ok E" "text_ok (C_IdempotencyKey cmd)" "wallet_row_ok w" "W_Version w < max_int64" "fresh_draws dr d0"
    "db_outbox d = db_outbox d0"
  shows "\<exists>d'. operation_events E dr cmd w dir r now d = Inr d'"
proof -
  have v: "1 \<le> W_Version w" "wrap64 (W_Version w + 1) = W_Version w + 1" "1 \<le> W_Version w + 1"
    using assms(3,4) by (auto simp: wallet_row_ok_def wrap64_id int64_defs)
  have "draw_event dr \<notin> O_EventID ` set (db_outbox d)" using assms(5,6) by (simp add: fresh_draws_def)
  from insertEvent_total [OF assms(1) event_type_texts(3) assms(2) v(1) this] have
    "\<exists>d'. insertEvent E (draw_event dr) ''WagerTransactionRejected'' k ag wid r (W_Version w) now (C_IdempotencyKey cmd) cs d = Inr d'"
    for k ag wid cs by blast
  with v insertFinancialEvents_total [OF assms(1,2) v(1) assms(5,6)] insertFinancialEvents_total [OF assms(1,2) v(3) assms(5,6)] show ?thesis
    by (simp add: operation_events_def Let_def)
qed

lemma applyOperation_written:
  assumes "operable cmd w d" "bank_inv E d" "externals_ok E" "fresh_draws dr d" "now \<noteq> 0"
    "tx_state txDomain = Pending \<or> tx_state txDomain = PendingReference" "C_Type cmd = Rollback \<longrightarrow> reference \<noteq> None"
    "writeRow E cmd (operation_result w cmd (map_option T_Type reference)) existing now d = Inr (d\<lparr>db_wagers := ws\<rparr>)"
    "\<exists>t \<in> set ws. T_ID t = C_ID cmd \<and> T_Currency t = currency (C_Amount cmd)"
  shows "\<exists>d'. applyOperationInTx E dr cmd w txDomain reference existing now d = Inr (operation_result w cmd (map_option T_Type reference), d')"
proof -
  let ?ref = "map_option T_Type reference"
  let ?r = "operation_result w cmd ?ref" and ?dir = "movement_direction (C_Type cmd) ?ref"
  let ?d1 = "d\<lparr>db_wagers := ws\<rparr>"
  have a: "command_ok cmd" "w \<in> set (db_wallets d)" "W_Version w < max_int64" "text_ok (C_IdempotencyKey cmd)"
    using assms(1) by (auto simp: operable_def)
  have wok: "wallet_row_ok w" using bank_invD(3) [OF assms(2) a(2)] .
  have tr: "\<exists>t. wager_Transition txDomain (R_State ?r) = Inr t"
    using assms(6) by (auto simp: wager_Transition_def operation_result_def)
  have "\<exists>d2. (if R_State ?r = Processed \<and> C_Type cmd \<noteq> Loss
      then moveBalance E dr cmd w ?dir (minor (C_Amount cmd)) (R_Balance ?r) now ?d1 else Inr ?d1) = Inr d2 \<and> db_outbox d2 = db_outbox d"
  proof (cases "R_State ?r = Processed \<and> C_Type cmd \<noteq> Loss")
    case True
    then have "accepted w cmd ?ref" "R_Balance ?r = W_Balance w + signed_value ?dir (minor (C_Amount cmd))"
      by (auto simp: operation_result_def split: if_splits)
    with True moveBalance_total [OF assms(1-5) _ _ refl _ refl assms(9)] show ?thesis by simp
  qed auto
  then obtain d2 where "(if R_State ?r = Processed \<and> C_Type cmd \<noteq> Loss
      then moveBalance E dr cmd w ?dir (minor (C_Amount cmd)) (R_Balance ?r) now ?d1 else Inr ?d1) = Inr d2" "db_outbox d2 = db_outbox d"
    by blast
  moreover obtain d' where "operation_events E dr cmd w ?dir ?r now d2 = Inr d'"
    using operation_events_total [OF assms(3) a(4) wok a(3) assms(4) calculation(2)] by blast
  ultimately show ?thesis
    using tr assms(8) unfolding applyOperation_eq [OF assms(3) wok a(1) assms(7)] by auto
qed

lemma applyOperation_total:
  assumes "admissible E cmd w d" "bank_inv E d" "externals_ok E" "fresh_draws dr d" "now \<noteq> 0" "tx_state txDomain = Pending"
    "C_Type cmd = Rollback \<longrightarrow> reference \<noteq> None"
    "accepted w cmd (map_option T_Type reference) \<Longrightarrow>
      \<not> reversal_clash (C_ID cmd) (C_ProviderID cmd) (C_ReferenceExternalID cmd) Processed d"
  shows "\<exists>r d'. applyOperationInTx E dr cmd w txDomain reference None now d = Inr (r, d')"
proof -
  let ?r = "operation_result w cmd (map_option T_Type reference)"
  have "writeRow E cmd ?r None now d = Inr (d\<lparr>db_wagers := db_wagers d @ [transaction_row E cmd ?r now]\<rparr>)"
    unfolding writeRow_None [symmetric] using assms(8)
    by (intro insertTransaction_total [OF assms(1)]) (auto simp: operation_result_def split: if_splits)
  from applyOperation_written [OF admissible_operable [OF assms(1,2)] assms(2-5) disjI1 [OF assms(6)] assms(7) this] show ?thesis
    by (auto simp: transaction_row_def)
qed

lemma persist_total:
  assumes "admissible E cmd w d" "bank_inv E d" "externals_ok E" "fresh_draws dr d" "tx_state txDomain = Pending"
  shows "text_ok code \<Longrightarrow> \<exists>r d'. persistRejected E dr cmd w now txDomain code d = Inr (r, d')"
    "\<exists>r d'. persistPendingReference E dr cmd w now txDomain d = Inr (r, d')"
proof -
  have "w \<in> set (db_wallets d)" using assms(1) by (simp add: admissible_def)
  from bank_invD(3) [OF assms(2) this] have v: "1 \<le> W_Version w" by (simp add: wallet_row_ok_def)
  have key: "text_ok (C_IdempotencyKey cmd)" using assms(1) by (simp add: admissible_def storable_def)
  have ev: "\<exists>d'. insertEvent E (draw_event dr) ty (C_Type cmd) (C_ID cmd) (C_WalletID cmd) r (W_Version w) now (C_IdempotencyKey cmd) []
      (d\<lparr>db_wagers := x\<rparr>) = Inr d'" if "text_ok ty" for ty r x
    using insertEvent_total [OF assms(3) that key v, of "draw_event dr" "d\<lparr>db_wagers := x\<rparr>"] assms(4) by (simp add: fresh_draws_def) blast
  have ins: "R_State r = Rejected \<or> R_State r = PendingReference \<Longrightarrow> text_ok (R_FailureCode r) \<Longrightarrow>
      insertTransaction E cmd r now d = Inr (d\<lparr>db_wagers := db_wagers d @ [transaction_row E cmd r now]\<rparr>)" for r
    using insertTransaction_total [OF assms(1), of r now] by auto
  show "text_ok code \<Longrightarrow> \<exists>r d'. persistRejected E dr cmd w now txDomain code d = Inr (r, d')"
    using assms(5) by (auto simp: persistRejected_def wager_Transition_def Let_def bindR_Inr_conv ins intro: ev)
  show "\<exists>r d'. persistPendingReference E dr cmd w now txDomain d = Inr (r, d')"
    using assms(5) by (auto simp: persistPendingReference_def wager_Transition_def Let_def bindR_Inr_conv ins intro: ev)
qed

lemma execute_total:
  assumes "admissible E cmd w d" "bank_inv E d" "externals_ok E" "fresh_draws dr d" "now \<noteq> 0"
    "R_State (answer d w cmd) = Processed \<Longrightarrow>
      \<not> reversal_clash (C_ID cmd) (C_ProviderID cmd) (C_ReferenceExternalID cmd) Processed d"
  shows "\<exists>r d'. executeInTx E dr d cmd now w d = Inr (r, d')"
proof -
  have "command_ok cmd" using assms(1) by (simp add: admissible_def)
  then obtain tx where tx: "wager_New (uuid_String E (C_ID cmd)) (C_ExternalID cmd) (C_ProviderID cmd) (uuid_String E (C_WalletID cmd))
      (C_Type cmd) (C_Amount cmd) = Inr tx" "tx_state tx = Pending"
    using assms(3) by (auto simp: result_simps command_ok_def externals_okD)
  note per = persist_total [OF assms(1-4) tx(2)]
  note app = applyOperation_total [OF assms(1-5) tx(2)]
  have acc: "accepted w cmd ref \<Longrightarrow> R_State (operation_result w cmd ref) = Processed" for ref
    by (simp add: operation_result_def)
  show ?thesis
  proof (cases "C_PlayerID cmd = W_PlayerID w \<and> (C_Type cmd = Refund \<or> C_Type cmd = Rollback) \<and> C_ReferenceExternalID cmd \<noteq> []")
    case False
    have "C_PlayerID cmd = W_PlayerID w \<Longrightarrow> \<not> (C_Type cmd = Refund \<or> C_Type cmd = Rollback) \<Longrightarrow>
      \<exists>r d'. applyOperationInTx E dr cmd w tx None None now d = Inr (r, d')"
      using app [of None] assms(6) acc [of None] by (simp add: answer_eq)
    with False tx(1) per show ?thesis by (auto simp: executeInTx_def)
  next
    case True
    show ?thesis
    proof (cases "wagerRepo_FindByExternal (C_ProviderID cmd) (C_ReferenceExternalID cmd) d")
      case (Inl e)
      have "text_ok (C_ProviderID cmd)" "text_ok (C_ReferenceExternalID cmd)" using assms(1) by (auto simp: admissible_def storable_def)
      with Inl have "e = ErrNoRows" by (auto simp: wagerRepo_FindByExternal_def with_texts_def result_simps)
      with Inl True tx(1) per show ?thesis by (auto simp: executeInTx_def)
    next
      case (Inr rf)
      have "validReference cmd rf \<Longrightarrow> \<exists>r d'. applyOperationInTx E dr cmd w tx (Some rf) None now d = Inr (r, d')"
        using app [of "Some rf"] assms(6) acc [of "Some (T_Type rf)"] Inr True by (simp add: answer_eq)
      with Inr True tx(1) per show ?thesis by (auto simp: executeInTx_def)
    qed
  qed
qed

text \<open>C7: A valid new command is always answered: if the request passes validation, its type and amount
  are acceptable, PostgreSQL can store its texts (no byte 0, valid UTF-8, keys that fit an index, which the
  validation does not check), the wallet exists in its currency, its identities are new and the drawn
  identifiers are fresh, then the call succeeds (with a processed, rejected or pending outcome), unless the outcome
  would be a second processed transaction for the same reference.\<close>

theorem admissible_command_answered:
  assumes "service_reachable E s" "prepareCommand E cmd = Inr p" "admissible E p w (svc_db s)" "fresh_draws dr (svc_db s)" "now \<noteq> 0"
    "R_State (answer (svc_db s) w p) = Processed \<Longrightarrow>
      \<not> reversal_clash (C_ID p) (C_ProviderID p) (C_ReferenceExternalID p) Processed (svc_db s)"
  shows "\<exists>s'. Process E tx_ok env2 dr (serial_views (svc_db s)) cmd now el s = (Inr (answer (svc_db s) w p), s')"
proof -
  have i: "externals_ok E" "bank_inv E (svc_db s)" using reachable_bank [OF assms(1)] by simp_all
  from execute_total [OF assms(3) i(2,1) assms(4-6)] obtain r d' where
    ex: "executeInTx E dr (svc_db s) p now w (svc_db s) = Inr (r, d')" by blast
  have a: "w \<in> set (db_wallets (svc_db s))" "W_ID w = C_WalletID p" "findExistingTransaction p (svc_db s) = Inr None"
    "command_ok p" "text_ok (C_ProviderID p)" "text_ok (C_ExternalID p)" using assms(3) by (auto simp: admissible_def storable_def)
  have m: "money_wf (C_Amount p)" using a(4) by (auto simp: command_ok_def money_valid_def money_wf_def int64_defs)
  have "view_of (svc_db s) (svc_db s)" by (simp add: view_of_def)
  with execute_step [OF ex i(2,1) m a(1,2)] have r: "r = answer (svc_db s) w p" by simp
  have "walletRepo_FindForUpdate (C_WalletID p) (svc_db s) = Inr w"
    using wallets_by_id.lookup_row [OF bank_invD(2) [OF i(2)] a(1)] a(2) by simp
  then have "processInTx E dr (serial_views (svc_db s)) p now (svc_db s) = Inr (r, d')"
    using ex a(3,5,6) by (simp add: processInTx_eq with_texts_ok replayExisting_def serial_views_def)
  with Process_committed [OF assms(2)] r show ?thesis by blast
qed

theorem admissible_command_answered_witness:
  "\<exists>r s'. Process example_externals tx_ok tx_ok (demo_draws 1) (serial_views (svc_db demo_open)) (demo_command 1 Bet 40 ''x1'' []) 2 5
     demo_open = (Inr r, s')"
proof -
  let ?p = "demo_command 1 Bet 40 ''x1'' [] \<lparr>C_PayloadHash := ''digest''\<rparr>"
  have a: "admissible example_externals ?p (hd (db_wallets (svc_db demo_open))) (svc_db demo_open)" by code_simp
  have f: "fresh_draws (demo_draws 1) (svc_db demo_open)" by code_simp
  have "\<not> reversal_clash (C_ID ?p) (C_ProviderID ?p) (C_ReferenceExternalID ?p) Processed (svc_db demo_open)"
    by (simp add: reversal_clash_def demo_command_def)
  with admissible_command_answered [OF demo_reachable(1) demo_prepared a f, of 2] show ?thesis by fastforce
qed


end
