(* ===== verification/Pending_References.thy ===== *)
theory Pending_References
  imports Command_Processing
begin

text \<open>
  The outcomes of a claim of \<^verbatim>\<open>ProcessPendingReference\<close> on every branch: the reference is
  missing, waiting, failed, different, reversed already or valid; and what the worker does with a
  record that cannot be settled.
\<close>

section \<open>The branches of a claim\<close>

lemma claimed_record:
  assumes "wagerRepo_FindNextPendingReferenceForUpdate locked now d = Inr t"
  shows "t \<in> set (db_wagers d)" "T_State t = PendingReference"
  using assms
  by (auto simp: wagerRepo_FindNextPendingReferenceForUpdate_def result_simps pending_due_def dest!: min_by_Some)

lemma pending_command:
  assumes "tx_row_ok E t" "T_State t = PendingReference"
  obtains cmd where "commandFromRecord t = Inr cmd" "C_WalletID cmd = T_WalletID t" "command_ok cmd" "C_ID cmd = T_ID t"
    "C_Type cmd = Refund \<or> C_Type cmd = Rollback" "C_ProviderID cmd = T_ProviderID t" "C_ReferenceExternalID cmd = T_ReferenceExternalID t"
proof -
  let ?cmd = "\<lparr>C_ID = T_ID t, C_WalletID = T_WalletID t, C_ExternalID = T_ExternalID t,
       C_ProviderID = T_ProviderID t, C_PlayerID = T_PlayerID t, C_GameID = T_GameID t,
       C_RoundID = T_RoundID t, C_IdempotencyKey = T_IdempotencyKey t,
       C_PayloadHash = T_PayloadHash t, C_ReferenceExternalID = T_ReferenceExternalID t,
       C_Type = T_Type t, C_Amount = \<lparr>minor = T_Amount t, currency = T_Currency t\<rparr>\<rparr>"
  have c: "commandFromRecord t = Inr ?cmd" using assms(1) by (auto simp: commandFromRecord_Inr tx_row_ok_def)
  from record_command [OF assms c] c show ?thesis by (intro that [of ?cmd]) simp_all
qed

lemma updatePending_total:
  assumes "bank_inv E d" "db_wagers d = xs @ old # ys" "T_ID rec = T_ID old"
    "0 \<le> T_ReferenceAttempts rec" "T_ReferenceAttempts rec \<le> 2147483647" "T_State rec \<in> {Rejected, PendingReference}"
    "text_ok (T_FailureCode rec)"
  shows "wagerRepo_UpdatePendingReference (index_fits E) rec d = Inr (d\<lparr>db_wagers := xs @ old\<lparr>T_State := T_State rec, T_Result := T_Result rec,
      T_ReferenceAttempts := T_ReferenceAttempts rec, T_ReferenceNextAttemptAt := T_ReferenceNextAttemptAt rec,
      T_FailureCode := T_FailureCode rec, T_UpdatedAt := T_UpdatedAt rec\<rparr> # ys\<rparr>)"
proof -
  have "find (\<lambda>t. T_ID t = T_ID rec) (db_wagers d) = Some old"
    using assms(2,3) find_distinct_key [OF bank_invD(1) [OF assms(1)], of old] by simp
  then have "\<exists>d1. wagerRepo_UpdatePendingReference (index_fits E) rec d = Inr d1"
    using assms(4-7) by (auto simp: wagerRepo_UpdatePendingReference_def check_all_ok reversal_clash_def reversal_entry_fits_def)
  then obtain d1 where d1: "wagerRepo_UpdatePendingReference (index_fits E) rec d = Inr d1" ..
  with updatePending_Inr(1) [OF d1 assms(2,3) bank_invD(1) [OF assms(1)]] show ?thesis by simp
qed

text \<open>The row an unresolved attempt leaves, and the row of a rejection.\<close>

definition retried_row :: "WagerTransactionRecord \<Rightarrow> duration \<Rightarrow> time \<Rightarrow> WagerTransactionRecord" where
  "retried_row t base now = t\<lparr>T_ReferenceAttempts := T_ReferenceAttempts t + 1,
     T_ReferenceNextAttemptAt := Some (nextReferenceAttempt now base (T_ReferenceAttempts t + 1)), T_UpdatedAt := now\<rparr>"

definition refused_row ::
  "externals \<Rightarrow> WagerTransactionRecord \<Rightarrow> WalletRecord \<Rightarrow> int \<Rightarrow> string \<Rightarrow> time \<Rightarrow> WagerTransactionRecord" where
  "refused_row E t w attempts code now = t\<lparr>T_State := Rejected,
     T_Result := Some (marshalResult E \<lparr>R_TransactionID = T_ID t, R_State = Rejected, R_Balance = W_Balance w,
       R_Amount = \<lparr>minor = T_Amount t, currency = T_Currency t\<rparr>, R_FailureCode = code\<rparr>),
     T_ReferenceAttempts := attempts, T_ReferenceNextAttemptAt := None, T_FailureCode := code, T_UpdatedAt := now\<rparr>"

definition attempt_row ::
  "externals \<Rightarrow> WagerTransactionRecord \<Rightarrow> WalletRecord \<Rightarrow> int \<Rightarrow> duration \<Rightarrow> string \<Rightarrow> time \<Rightarrow> WagerTransactionRecord" where
  "attempt_row E t w m base code now =
     (if T_ReferenceAttempts t + 1 < m then retried_row t base now
      else refused_row E t w (T_ReferenceAttempts t + 1) code now)"

text \<open>The new row of a claimed record whose reference cannot be reversed now.\<close>

definition unresolved_row ::
  "externals \<Rightarrow> db \<Rightarrow> WagerTransactionRecord \<Rightarrow> WalletRecord \<Rightarrow> int \<Rightarrow> duration \<Rightarrow> time \<Rightarrow> WagerTransactionRecord" where
  "unresolved_row E d t w m base now =
     (case wagerRepo_FindByExternal (T_ProviderID t) (T_ReferenceExternalID t) d of
        Inl _ \<Rightarrow> attempt_row E t w m base FailureCodeReferenceNotFound now
      | Inr rf \<Rightarrow>
          if T_State rf = Pending \<or> T_State rf = PendingReference
          then attempt_row E t w m base FailureCodeReferenceNotResolved now
          else if T_State rf \<noteq> Processed then refused_row E t w (T_ReferenceAttempts t) FailureCodeReferenceNotSuccessful now
          else refused_row E t w (T_ReferenceAttempts t) FailureCodeReferenceInvalid now)"

lemma reject_total:
  assumes "bank_inv E d" "externals_ok E" "db_wagers d = xs @ t # ys" "T_State t = PendingReference"
    "draw_event dr \<notin> O_EventID ` set (db_outbox d)" "0 \<le> k" "k \<le> 2147483647"
    "w \<in> set (db_wallets d)" "W_ID w = T_WalletID t" "commandFromRecord t = Inr cmd" "text_ok code"
  shows "\<exists>d'. rejectPendingReferenceInTx E dr (t\<lparr>T_ReferenceAttempts := k\<rparr>) cmd now code d = Inr (False, d')
    \<and> db_wallets d' = db_wallets d \<and> db_ledger d' = db_ledger d \<and> db_wagers d' = xs @ refused_row E t w k code now # ys"
proof -
  have tin: "t \<in> set (db_wagers d)" using assms(3) by simp
  have cmd: "C_WalletID cmd = T_WalletID t" "command_ok cmd" "C_ID cmd = T_ID t"
    "C_Amount cmd = \<lparr>minor = T_Amount t, currency = T_Currency t\<rparr>" "C_IdempotencyKey cmd = T_IdempotencyKey t"
    using pending_command [OF bank_invD(4) [OF assms(1) tin] assms(4)] assms(10) by (auto simp: commandFromRecord_Inr)
  have w: "walletRepo_FindForUpdate (C_WalletID cmd) d = Inr w" "1 \<le> W_Version w"
    using wallets_by_id.lookup_row [OF bank_invD(2) [OF assms(1)] assms(8)] assms(9) cmd(1) bank_invD(3) [OF assms(1,8)]
    by (simp_all add: wallet_row_ok_def)
  obtain tx where tx: "wager_New (uuid_String E (C_ID cmd)) (C_ExternalID cmd) (C_ProviderID cmd) (uuid_String E (C_WalletID cmd))
      (C_Type cmd) (C_Amount cmd) = Inr tx" "tx_state tx = Pending"
    using cmd(2) assms(2) by (auto simp: result_simps command_ok_def externals_okD)
  let ?r = "\<lparr>R_TransactionID = C_ID cmd, R_State = Rejected, R_Balance = W_Balance w, R_Amount = C_Amount cmd, R_FailureCode = code\<rparr>"
  let ?d1 = "d\<lparr>db_wagers := xs @ refused_row E t w k code now # ys\<rparr>"
  have up: "wagerRepo_UpdatePendingReference (index_fits E) (t\<lparr>T_ReferenceAttempts := k, T_State := Rejected, T_Result := Some (marshalResult E ?r),
      T_ReferenceNextAttemptAt := None, T_FailureCode := code, T_UpdatedAt := now\<rparr>) d = Inr ?d1"
    using assms(6,7,11) cmd(3,4) by (subst updatePending_total [OF assms(1,3)]) (simp_all add: refused_row_def)
  have "draw_event dr \<notin> O_EventID ` set (db_outbox ?d1)" using assms(5) by simp
  from insertEvent_total [OF assms(2) event_type_texts(3) stored_texts(3) [OF assms(1) tin] w(2) this, folded cmd(5)] obtain d' where ev: "insertEvent E (draw_event dr) ''WagerTransactionRejected'' (C_Type cmd)
      (C_ID cmd) (C_WalletID cmd) ?r (W_Version w) now (C_IdempotencyKey cmd) [] ?d1 = Inr d'" by blast
  have "rejectPendingReferenceInTx E dr (t\<lparr>T_ReferenceAttempts := k\<rparr>) cmd now code d = Inr (False, d')"
    using w(1) tx up ev by (simp add: rejectPendingReferenceInTx_def wager_Transition_def Let_def)
  with insertEvent_Inr [OF ev] show ?thesis by (simp add: same_tables_def)
qed

lemma advance_total:
  assumes "bank_inv E d" "externals_ok E" "db_wagers d = xs @ t # ys" "T_State t = PendingReference"
    "draw_event dr \<notin> O_EventID ` set (db_outbox d)" "T_ReferenceAttempts t < 2147483647"
    "w \<in> set (db_wallets d)" "W_ID w = T_WalletID t" "text_ok code"
  shows "\<exists>b d'. advancePendingReferenceInTx E dr t now m base code d = Inr (b, d')
    \<and> db_wallets d' = db_wallets d \<and> db_ledger d' = db_ledger d \<and> db_wagers d' = xs @ attempt_row E t w m base code now # ys"
proof -
  have tin: "t \<in> set (db_wagers d)" using assms(3) by simp
  note ok = bank_invD(4) [OF assms(1) tin]
  have att: "0 \<le> T_ReferenceAttempts t" "wrap64 (T_ReferenceAttempts t + 1) = T_ReferenceAttempts t + 1"
    using ok assms(4,6) by (auto simp: tx_row_ok_def wrap64_id int64_defs)
  show ?thesis
  proof (cases "T_ReferenceAttempts t + 1 < m")
    case True
    let ?rec = "t\<lparr>T_ReferenceAttempts := T_ReferenceAttempts t + 1,
      T_ReferenceNextAttemptAt := Some (nextReferenceAttempt now base (T_ReferenceAttempts t + 1)), T_UpdatedAt := now\<rparr>"
    have "wagerRepo_UpdatePendingReference (index_fits E) ?rec d = Inr (d\<lparr>db_wagers := xs @ retried_row t base now # ys\<rparr>)"
      using updatePending_total [OF assms(1,3), of ?rec] att assms(4,6) stored_texts(5) [OF assms(1) tin] by (simp add: retried_row_def)
    with True att show ?thesis by (auto simp: advancePendingReferenceInTx_def attempt_row_def Let_def)
  next
    case False
    let ?ex = "t\<lparr>T_ReferenceAttempts := T_ReferenceAttempts t + 1\<rparr>"
    obtain cmd where cmd: "commandFromRecord t = Inr cmd" using pending_command [OF ok assms(4)] by blast
    then have ex: "commandFromRecord ?ex = Inr cmd" by (auto simp: commandFromRecord_Inr)
    have k: "0 \<le> T_ReferenceAttempts t + 1" "T_ReferenceAttempts t + 1 \<le> 2147483647" using att assms(6) by simp_all
    from reject_total [OF assms(1-5) k assms(7,8) cmd assms(9), of now] False att(2) ex show ?thesis
      by (auto simp: advancePendingReferenceInTx_def attempt_row_def Let_def)
  qed
qed

lemma unresolved_total:
  assumes "bank_inv E d" "externals_ok E" "db_wagers d = xs @ t # ys" "T_State t = PendingReference"
    "draw_event dr \<notin> O_EventID ` set (db_outbox d)" "T_ReferenceAttempts t < 2147483647"
    "w \<in> set (db_wallets d)" "W_ID w = T_WalletID t" "commandFromRecord t = Inr cmd"
    "\<And>rf. wagerRepo_FindByExternal (T_ProviderID t) (T_ReferenceExternalID t) d = Inr rf \<Longrightarrow> \<not> validReference cmd rf"
  shows "\<exists>b d'. processPendingReferenceInTx E dr t now m base d = Inr (b, d')
    \<and> db_wallets d' = db_wallets d \<and> db_ledger d' = db_ledger d \<and> db_wagers d' = xs @ unresolved_row E d t w m base now # ys"
proof -
  have tin: "t \<in> set (db_wagers d)" using assms(3) by simp
  have k: "0 \<le> T_ReferenceAttempts t" "T_ReferenceAttempts t \<le> 2147483647"
    using bank_invD(4) [OF assms(1) tin] assms(4,6) by (auto simp: tx_row_ok_def)
  note adv = advance_total [OF assms(1-8), where now = now and m = m and base = base]
  have "t\<lparr>T_ReferenceAttempts := T_ReferenceAttempts t\<rparr> = t" by simp
  with reject_total [OF assms(1-5) k assms(7-9), where now = now] have
    rej: "\<exists>d'. rejectPendingReferenceInTx E dr t cmd now code d = Inr (False, d') \<and> db_wallets d' = db_wallets d
      \<and> db_ledger d' = db_ledger d \<and> db_wagers d' = xs @ refused_row E t w (T_ReferenceAttempts t) code now # ys" if "text_ok code" for code
    using that by simp
  have texts: "text_ok (T_ProviderID t)" "text_ok (T_ReferenceExternalID t)" using stored_texts [OF assms(1) tin] by simp_all
  note eqs = processPendingReferenceInTx_def lock_identity with_texts_ok texts unresolved_row_def
  show ?thesis
  proof (cases "wagerRepo_FindByExternal (T_ProviderID t) (T_ReferenceExternalID t) d")
    case (Inl e)
    with texts have "e = ErrNoRows" by (auto simp: wagerRepo_FindByExternal_def with_texts_ok result_simps)
    with Inl assms(9) adv [of FailureCodeReferenceNotFound] show ?thesis by (simp add: eqs)
  next
    case (Inr rf)
    note inv = assms(10) [OF Inr]
    consider (waiting) "T_State rf = Pending \<or> T_State rf = PendingReference"
      | (failed) "T_State rf \<noteq> Pending" "T_State rf \<noteq> PendingReference" "T_State rf \<noteq> Processed"
      | (invalid) "T_State rf = Processed" by blast
    then show ?thesis
    proof cases
      case waiting
      with Inr assms(9) adv [of FailureCodeReferenceNotResolved] show ?thesis by (auto simp: eqs)
    next
      case failed
      with Inr assms(9) rej [of FailureCodeReferenceNotSuccessful] show ?thesis by (auto simp: eqs)
    next
      case invalid
      with Inr inv assms(9) rej [of FailureCodeReferenceInvalid] show ?thesis by (auto simp: eqs)
    qed
  qed
qed

text \<open>A valid reference.\<close>

lemma pending_entries:
  assumes "bank_inv E d" "t \<in> set (db_wagers d)" "T_State t = PendingReference" "x \<in> set (db_ledger d)"
  shows "L_TransactionID x \<noteq> T_ID t"
proof -
  have "moves_ok d" using assms(1) by (simp add: bank_inv_def)
  then have "entries_for (T_ID t) d = []" using assms(2,3) pending_not_moves by (auto simp: moves_ok_def)
  with assms(4) show ?thesis by (auto simp: entries_for_def filter_empty_conv)
qed

lemma settle_row:
  assumes "bank_inv E d" "db_wagers d = xs @ t # ys" "T_State t = PendingReference" "R_State r \<in> {Processed, Rejected}"
    "R_State r = Processed \<Longrightarrow> \<not> reversal_clash (T_ID t) (T_ProviderID t) (T_ReferenceExternalID t) Processed d"
    "text_ok (R_FailureCode r)" "index_fits E (T_ProviderID t) (T_ReferenceExternalID t)"
  shows "writeRow E cmd r (Some t) now d = Inr (d\<lparr>db_wagers := xs @ t\<lparr>T_State := R_State r, T_Result := Some (marshalResult E r),
      T_ReferenceNextAttemptAt := None, T_FailureCode := R_FailureCode r, T_UpdatedAt := now\<rparr> # ys\<rparr>)"
proof -
  let ?rec = "t\<lparr>T_State := R_State r, T_Result := Some (marshalResult E r), T_ReferenceNextAttemptAt := None,
      T_FailureCode := R_FailureCode r, T_UpdatedAt := now\<rparr>"
  have tin: "t \<in> set (db_wagers d)" using assms(2) by simp
  have k: "0 \<le> T_ReferenceAttempts t" "T_ReferenceAttempts t \<le> 2147483647"
    using bank_invD(4) [OF assms(1) tin] assms(3) by (auto simp: tx_row_ok_def)
  have "find (\<lambda>u. T_ID u = T_ID t) (db_wagers d) = Some t" using find_distinct_key [OF bank_invD(1) [OF assms(1)] tin] by simp
  then have "\<exists>d1. wagerRepo_UpdatePendingReference (index_fits E) ?rec d = Inr d1"
    using k assms(4-7) by (auto simp: wagerRepo_UpdatePendingReference_def check_all_ok reversal_clash_def reversal_entry_fits_def)
  then obtain d1 where d1: "wagerRepo_UpdatePendingReference (index_fits E) ?rec d = Inr d1" ..
  have "T_ID ?rec = T_ID t" by simp
  from updatePending_Inr(1) [OF d1 assms(2) this bank_invD(1) [OF assms(1)]] d1 show ?thesis by (simp add: writeRow_def)
qed

lemma valid_settles:
  assumes "bank_inv E d" "externals_ok E" "db_wagers d = xs @ t # ys" "T_State t = PendingReference" "fresh_draws dr d" "now \<noteq> 0"
    "w \<in> set (db_wallets d)" "W_ID w = T_WalletID t" "W_Version w < max_int64" "commandFromRecord t = Inr cmd"
    "wagerRepo_FindByExternal (T_ProviderID t) (T_ReferenceExternalID t) d = Inr rf" "validReference cmd rf"
    "accepted w cmd (Some (T_Type rf)) \<Longrightarrow> \<not> reversal_clash (T_ID t) (T_ProviderID t) (T_ReferenceExternalID t) Processed d"
  defines "r \<equiv> operation_result w cmd (Some (T_Type rf))"
  shows "\<exists>d'. processPendingReferenceInTx E dr t now m base d = Inr (False, d') \<and> movement_effect dr cmd w r now d d'
    \<and> db_wagers d' = xs @ t\<lparr>T_State := R_State r, T_Result := Some (marshalResult E r),
        T_ReferenceNextAttemptAt := None, T_FailureCode := R_FailureCode r, T_UpdatedAt := now\<rparr> # ys"
proof -
  have tin: "t \<in> set (db_wagers d)" using assms(3) by simp
  note ok = bank_invD(4) [OF assms(1) tin]
  have c: "C_WalletID cmd = T_WalletID t" "command_ok cmd" "C_ID cmd = T_ID t" "currency (C_Amount cmd) = T_Currency t"
    "C_IdempotencyKey cmd = T_IdempotencyKey t"
    using pending_command [OF ok assms(4)] assms(10) by (auto simp: commandFromRecord_Inr)
  obtain tx where tx: "wager_New (uuid_String E (C_ID cmd)) (C_ExternalID cmd) (C_ProviderID cmd) (uuid_String E (C_WalletID cmd))
      (C_Type cmd) (C_Amount cmd) = Inr tx" "tx_state tx = Pending"
    using c(2) assms(2) by (auto simp: result_simps command_ok_def externals_okD)
  then obtain tx' where tx': "wager_Transition tx PendingReference = Inr tx'" "tx_state tx' = PendingReference"
    by (auto simp: wager_Transition_def)
  from bank_inv_parts assms(1) tin obtain v where "v \<in> set (db_wallets d)" "W_ID v = T_WalletID t" "W_Currency v = T_Currency t"
    by (auto simp: bank_inv_parts)
  moreover from this have "v = w" using assms(7,8) bank_invD(2) [OF assms(1)] by (auto simp: distinct_map inj_on_def)
  ultimately have cur: "W_Currency w = T_Currency t" by simp
  have op: "operable cmd w d"
    using c cur assms(7-9) pending_entries [OF assms(1) tin assms(4)] stored_texts(3) [OF assms(1) tin] by (auto simp: operable_def)
  have "R_State r \<in> {Processed, Rejected}" by (simp add: r_def operation_result_def)
  moreover have "R_State r = Processed \<Longrightarrow> \<not> reversal_clash (T_ID t) (T_ProviderID t) (T_ReferenceExternalID t) Processed d"
    using assms(13) by (auto simp: r_def operation_result_def split: if_splits)
  moreover have "text_ok (R_FailureCode r)" by (simp add: r_def operation_result_def)
  moreover have "rf \<in> set (db_wagers d)" "T_ProviderID rf = T_ProviderID t" "T_ExternalID rf = T_ReferenceExternalID t"
    using wagers_by_external.lookup_Inr [of "(T_ProviderID t, T_ReferenceExternalID t)" d rf] assms(11) by simp_all
  with stored_texts(6) [OF assms(1)] have "index_fits E (T_ProviderID t) (T_ReferenceExternalID t)" by metis
  ultimately have row: "writeRow E cmd r (Some t) now d = Inr (d\<lparr>db_wagers := xs @ t\<lparr>T_State := R_State r,
      T_Result := Some (marshalResult E r), T_ReferenceNextAttemptAt := None, T_FailureCode := R_FailureCode r, T_UpdatedAt := now\<rparr> # ys\<rparr>)"
    by (rule settle_row [OF assms(1,3,4)])
  have ref: "C_Type cmd = Rollback \<longrightarrow> Some rf \<noteq> None" by simp
  from applyOperation_written [OF op assms(1,2,5,6) disjI2 [OF tx'(2)] ref, unfolded option.map, folded r_def, OF row] c
  obtain d' where app: "applyOperationInTx E dr cmd w tx' (Some rf) (Some t) now d = Inr (r, d')" by auto
  have w: "W_ID w = C_WalletID cmd" using assms(8) c(1) by simp
  obtain d1 where "writeRow E cmd r (Some t) now d = Inr d1" "db_wagers d' = db_wagers d1" "movement_effect dr cmd w r now d d'"
    using applyOperation_moves [OF app assms(1,2) c(2) assms(7) w ref] by blast
  moreover have "walletRepo_FindForUpdate (C_WalletID cmd) d = Inr w"
    using wallets_by_id.lookup_row [OF bank_invD(2) [OF assms(1)] assms(7)] w by simp
  moreover have "T_State rf = Processed" using assms(12) by (simp add: validReference_def split: if_splits)
  ultimately show ?thesis
    using assms(10-12) tx tx' app row stored_texts [OF assms(1) tin]
    by (auto simp: processPendingReferenceInTx_def lock_identity with_texts_ok)
qed

text \<open>A valid reference that another transaction has reversed already.\<close>

lemma clash_stuck:
  assumes "bank_inv E d" "externals_ok E" "t \<in> set (db_wagers d)" "T_State t = PendingReference"
    "w \<in> set (db_wallets d)" "W_ID w = T_WalletID t" "commandFromRecord t = Inr cmd"
    "wagerRepo_FindByExternal (T_ProviderID t) (T_ReferenceExternalID t) d = Inr rf" "validReference cmd rf"
    "accepted w cmd (Some (T_Type rf))" "reversal_clash (T_ID t) (T_ProviderID t) (T_ReferenceExternalID t) Processed d"
  shows "processPendingReferenceInTx E dr t now m base d = Inl (unique_violation ''wager_transactions_reversal_idx'')"
proof -
  note ok = bank_invD(4) [OF assms(1,3)]
  have k: "0 \<le> T_ReferenceAttempts t" "T_ReferenceAttempts t \<le> 2147483647" using ok assms(4) by (auto simp: tx_row_ok_def)
  have c: "C_WalletID cmd = T_WalletID t" "command_ok cmd" using pending_command [OF ok assms(4)] assms(7) by (auto simp: commandFromRecord_Inr)
  obtain tx where tx: "wager_New (uuid_String E (C_ID cmd)) (C_ExternalID cmd) (C_ProviderID cmd) (uuid_String E (C_WalletID cmd))
      (C_Type cmd) (C_Amount cmd) = Inr tx" "tx_state tx = Pending"
    using c(2) assms(2) by (auto simp: result_simps command_ok_def externals_okD)
  have wok: "wallet_row_ok w" using bank_invD(3) [OF assms(1,5)] .
  let ?r = "operation_result w cmd (Some (T_Type rf))"
  have r: "R_State ?r = Processed" using assms(10) by (simp add: operation_result_def)
  have f: "find (\<lambda>u. T_ID u = T_ID t) (db_wagers d) = Some t" using find_distinct_key [OF bank_invD(1) [OF assms(1)] assms(3)] by simp
  then have wr: "writeRow E cmd ?r (Some t) now d = Inl (unique_violation ''wager_transactions_reversal_idx'')"
    using r k assms(10,11) by (simp add: writeRow_def wagerRepo_UpdatePendingReference_def check_all.simps operation_result_def)
  have ref: "C_Type cmd = Rollback \<longrightarrow> Some rf \<noteq> None" by simp
  obtain tx' where tx': "wager_Transition tx PendingReference = Inr tx'" "tx_state tx' = PendingReference"
    using tx(2) by (auto simp: wager_Transition_def)
  have "applyOperationInTx E dr cmd w tx' (Some rf) (Some t) now d = Inl (unique_violation ''wager_transactions_reversal_idx'')"
    unfolding applyOperation_eq [OF assms(2) wok c(2) ref] using wr r tx'(2) by (simp add: wager_Transition_def)
  moreover have "walletRepo_FindForUpdate (C_WalletID cmd) d = Inr w"
    using wallets_by_id.lookup_row [OF bank_invD(2) [OF assms(1)] assms(5)] assms(6) c(1) by simp
  moreover have "T_State rf = Processed" using assms(9) by (simp add: validReference_def split: if_splits)
  ultimately show ?thesis
    using assms(7-9) tx tx' stored_texts [OF assms(1,3)] by (simp add: processPendingReferenceInTx_def lock_identity with_texts_ok)
qed
section \<open>The claim\<close>

lemma claimed_wallet:
  assumes "bank_inv E d" "t \<in> set (db_wagers d)"
  obtains w where "w \<in> set (db_wallets d)" "W_ID w = T_WalletID t"
  using assms by (auto simp: bank_inv_parts)

text \<open>The transaction of a claim, from the transaction of the claimed record.\<close>

lemma claim_Inr:
  assumes "wagerRepo_FindNextPendingReferenceForUpdate locked now (svc_db s) = Inr t"
    "processPendingReferenceInTx E dr t now (max 1 m) base (svc_db s) = Inr (b, d')"
  shows "\<exists>s'. ProcessPendingReference E tx_ok dr locked now m base s = ((True, None), s') \<and> svc_db s' = d'"
proof -
  have "(if m < 1 then 1 else m) = max 1 m" by (simp add: max_def)
  with assms show ?thesis by (simp add: ProcessPendingReference_def claimPendingReferenceInTx_def WithTx_ok Let_def)
qed

lemma claim_Inl:
  assumes "wagerRepo_FindNextPendingReferenceForUpdate locked now (svc_db s) = Inr t"
    "processPendingReferenceInTx E dr t now (max 1 m) base (svc_db s) = Inl e"
  shows "ProcessPendingReference E tx_ok dr locked now m base s = ((True, Some e), s)"
proof -
  have "(if m < 1 then 1 else m) = max 1 m" by (simp add: max_def)
  with assms show ?thesis
    by (simp add: ProcessPendingReference_def claimPendingReferenceInTx_def claimed_some_def WithTx_ok Let_def) (simp add: tx_ok_def)
qed

lemma replace_row:
  assumes "distinct (map T_ID (xs @ t # ys))"
  shows "xs @ u # ys = map (\<lambda>x. if T_ID x = T_ID t then u else x) (xs @ t # ys)"
  using update_where_split [OF assms refl, of "\<lambda>_. u"] by (simp add: update_where_def)

text \<open>The oldest due record stays the next one to be claimed as time passes.\<close>

lemma claim_stays:
  assumes "wagerRepo_FindNextPendingReferenceForUpdate locked now d = Inr t" "now \<le> now'" "distinct (map T_ID (db_wagers d))"
  shows "wagerRepo_FindNextPendingReferenceForUpdate locked now' d = Inr t"
proof -
  let ?key = "\<lambda>t. (T_ReferenceNextAttemptAt t, T_ID t)"
  from assms(1) have "min_by ?key (filter (pending_due locked now) (db_wagers d)) = Some t"
    by (simp add: wagerRepo_FindNextPendingReferenceForUpdate_def result_simps)
  note t = min_by_Some [OF this]
  have due: "pending_due locked now' t" using t assms(2) by (auto simp: pending_due_def split: option.splits)
  then have "filter (pending_due locked now') (db_wagers d) \<noteq> []" using t by (auto simp: filter_empty_conv)
  then have "min_by ?key (filter (pending_due locked now') (db_wagers d)) \<noteq> None" unfolding min_by_None .
  then obtain u where um: "min_by ?key (filter (pending_due locked now') (db_wagers d)) = Some u" unfolding not_None_eq ..
  note u = min_by_Some [OF um]
  have le: "?key u \<le> ?key t" using u due t by auto
  have "pending_due locked now u"
  proof (rule ccontr)
    assume n: "\<not> pending_due locked now u"
    with u obtain k where k: "T_ReferenceNextAttemptAt u = Some k" "now < k"
      by (auto simp: pending_due_def split: option.splits)
    with t have "T_ReferenceNextAttemptAt t < T_ReferenceNextAttemptAt u"
      by (auto simp: pending_due_def split: option.splits)
    with le show False by (auto simp: less_eq_prod_def)
  qed
  with t u have "?key t \<le> ?key u" by auto
  with le have "?key t = ?key u" by (rule antisym [rotated])
  then have "T_ID t = T_ID u" by simp
  then have "u = t" using t u assms(3) by (auto simp: distinct_map inj_on_def)
  with um show ?thesis by (simp add: wagerRepo_FindNextPendingReferenceForUpdate_def)
qed

section \<open>A concrete run\<close>

text \<open>
  On a wallet with 1.00 BRL: the refund \<^verbatim>\<open>x2\<close> of a bet that is not known yet, the bet
  \<^verbatim>\<open>x1\<close> of 0.40 itself, and a rollback \<^verbatim>\<open>x3\<close> of the bet that overtakes the
  reference worker. \<open>late_facts\<close> collects what the examples need of one state.
\<close>

definition late_refund :: Service where
  "late_refund = snd (demo_process 2 (demo_command 2 Refund 40 ''x2'' ''x1'') demo_open)"

definition late_bet :: Service where
  "late_bet = snd (demo_process 1 (demo_command 1 Bet 40 ''x1'' []) late_refund)"

definition late_rollback :: Service where
  "late_rollback = snd (demo_process 3 (demo_command 3 Rollback 40 ''x3'' ''x1'') late_bet)"

lemma late_reachable:
  "service_reachable example_externals late_refund" "service_reachable example_externals late_bet"
  "service_reachable example_externals late_rollback"
proof -
  have p: "service_reachable example_externals s \<Longrightarrow> service_reachable example_externals
      (snd (demo_process n (demo_command i k 40 x ref) s))" for n i k x ref s
    by (erule reach_step) (rule demo_process_step, simp add: demo_command_def demo_money)
  show "service_reachable example_externals late_refund" unfolding late_refund_def by (intro p demo_reachable)
  then show "service_reachable example_externals late_bet" unfolding late_bet_def by (intro p)
  then show "service_reachable example_externals late_rollback" unfolding late_rollback_def by (intro p)
qed

definition late_command :: Command where
  "late_command = demo_command 2 Refund 40 ''x2'' ''x1'' \<lparr>C_PayloadHash := ''digest''\<rparr>"

definition late_row :: "Service \<Rightarrow> WagerTransactionRecord" where
  "late_row s = the (find (\<lambda>t. T_ID t = 2) (db_wagers (svc_db s)))"

definition late_reference :: "Service \<Rightarrow> WagerTransactionRecord result" where
  "late_reference s = wagerRepo_FindByExternal (T_ProviderID (late_row s)) (T_ReferenceExternalID (late_row s)) (svc_db s)"

definition late_view where
  "late_view s = (let t = late_row s; d = svc_db s in
     (wagerRepo_FindNextPendingReferenceForUpdate [] 5 d = Inr t, fresh_draws (demo_draws 5) d, commandFromRecord t, late_reference s,
      (T_ID t, T_State t, T_ReferenceAttempts t, T_WalletID t),
      reversal_clash 2 (T_ProviderID t) (T_ReferenceExternalID t) Processed d, db_wallets d,
      map (\<lambda>x. (T_ID x, T_State x, T_ReferenceAttempts x, T_ReferenceNextAttemptAt x)) (db_wagers d)))"

definition late_wallet :: "int \<Rightarrow> int \<Rightarrow> WalletRecord" where
  "late_wallet balance version = \<lparr>W_ID = 7, W_PlayerID = ''p'', W_Currency = ''BRL'', W_Balance = balance, W_Version = version,
     W_CreatedAt = 1, W_UpdatedAt = 2\<rparr>"

lemma late_refund_view: "late_view late_refund = (True, True, Inr late_command, Inl ErrNoRows, (2, PendingReference, 0, 7), False,
    [late_wallet 100 1 \<lparr>W_UpdatedAt := 1\<rparr>], [(100, Processed, 0, None), (2, PendingReference, 0, Some 2)])"
  by code_simp

lemma late_bet_view: "late_view late_bet = (True, True, Inr late_command, Inr demo_bet_row, (2, PendingReference, 0, 7), False,
    [late_wallet 60 2], [(100, Processed, 0, None), (2, PendingReference, 0, Some 2), (1, Processed, 0, None)])"
  by code_simp

lemma late_rollback_view: "late_view late_rollback = (True, True, Inr late_command, Inr demo_bet_row, (2, PendingReference, 0, 7), True,
    [late_wallet 100 3], [(100, Processed, 0, None), (2, PendingReference, 0, Some 2), (1, Processed, 0, None), (3, Processed, 0, None)])"
  by code_simp

lemma late_rules:
  "may_reverse late_command demo_bet_row" "T_Type demo_bet_row = Bet" "C_Type late_command = Refund"
  "accepted (late_wallet 60 v) late_command (Some Bet)" "accepted (late_wallet 100 v) late_command (Some Bet)"
  "operation_result (late_wallet 60 v) late_command (Some Bet) = \<lparr>R_TransactionID = 2, R_State = Processed, R_Balance = 100,
     R_Amount = \<lparr>minor = 40, currency = ''BRL''\<rparr>, R_FailureCode = []\<rparr>"
  by (simp_all add: validReference_iff [symmetric] validReference_def demo_bet_row_def transaction_row_def demo_bet_result_def late_command_def demo_command_def
      legacyIdentity_def accepted_def operation_result_def movement_direction_def late_wallet_def max_int64_def)

section \<open>Properties\<close>

text \<open>C29: A claimed reversal whose reference cannot be reversed yet leaves the wallets and the ledger
  alone. While the reference is unknown or itself waiting, each claim adds one attempt and a delay, and
  the attempt that reaches the configured maximum (at least one) rejects the reversal with
  REFERENCE_NOT_FOUND or REFERENCE_NOT_RESOLVED; a reference that failed or does not match rejects it at
  once. No other transaction changes.\<close>

theorem unresolved_reference_outcome:
  assumes "service_reachable E s" "wagerRepo_FindNextPendingReferenceForUpdate locked now (svc_db s) = Inr t"
    "commandFromRecord t = Inr cmd"
    "\<forall>rf. wagerRepo_FindByExternal (T_ProviderID t) (T_ReferenceExternalID t) (svc_db s) = Inr rf \<longrightarrow> \<not> may_reverse cmd rf"
    "draw_event dr \<notin> O_EventID ` set (db_outbox (svc_db s))" "T_ReferenceAttempts t < 2147483647"
  shows "\<exists>w s'. w \<in> set (db_wallets (svc_db s)) \<and> W_ID w = T_WalletID t
    \<and> ProcessPendingReference E tx_ok dr locked now m base s = ((True, None), s')
    \<and> db_wallets (svc_db s') = db_wallets (svc_db s) \<and> db_ledger (svc_db s') = db_ledger (svc_db s)
    \<and> db_wagers (svc_db s') = map (\<lambda>x. if T_ID x = T_ID t then unresolved_row E (svc_db s) t w (max 1 m) base now else x)
        (db_wagers (svc_db s))"
proof -
  have i: "externals_ok E" "bank_inv E (svc_db s)" using reachable_bank [OF assms(1)] by simp_all
  note t = claimed_record [OF assms(2)]
  from t(1) obtain xs ys where split: "db_wagers (svc_db s) = xs @ t # ys" by (meson split_list)
  obtain w where w: "w \<in> set (db_wallets (svc_db s))" "W_ID w = T_WalletID t" using claimed_wallet [OF i(2) t(1)] .
  obtain b d' where d': "processPendingReferenceInTx E dr t now (max 1 m) base (svc_db s) = Inr (b, d')"
    "db_wallets d' = db_wallets (svc_db s)" "db_ledger d' = db_ledger (svc_db s)"
    "db_wagers d' = xs @ unresolved_row E (svc_db s) t w (max 1 m) base now # ys"
    using unresolved_total [OF i(2,1) split t(2) assms(5,6) w assms(3)] assms(4) [folded validReference_iff] by blast
  obtain s' where "ProcessPendingReference E tx_ok dr locked now m base s = ((True, None), s')" "svc_db s' = d'"
    using claim_Inr [OF assms(2) d'(1)] by blast
  moreover have "db_wagers d' = map (\<lambda>x. if T_ID x = T_ID t then unresolved_row E (svc_db s) t w (max 1 m) base now else x)
      (db_wagers (svc_db s))"
    unfolding d'(4) split by (rule replace_row [OF bank_invD(1) [OF i(2), unfolded split]])
  ultimately show ?thesis using d'(2,3) w by blast
qed

text \<open>The first of two allowed attempts to resolve the refund of the run, before the bet is known.\<close>

theorem unresolved_reference_outcome_witness:
  "\<exists>s'. ProcessPendingReference example_externals tx_ok (demo_draws 5) [] 5 2 1000 late_refund = ((True, None), s')
    \<and> db_wallets (svc_db s') = db_wallets (svc_db late_refund)
    \<and> map (\<lambda>t. (T_ID t, T_State t, T_ReferenceAttempts t, T_ReferenceNextAttemptAt t)) (db_wagers (svc_db s')) =
        [(100, Processed, 0, None), (2, PendingReference, 1, Some 1005)]"
proof -
  let ?t = "late_row late_refund" and ?s = late_refund
  have n: "wagerRepo_FindNextPendingReferenceForUpdate [] 5 (svc_db ?s) = Inr ?t" "commandFromRecord ?t = Inr late_command"
    and ev: "draw_event (demo_draws 5) \<notin> O_EventID ` set (db_outbox (svc_db ?s))"
    and id: "T_ID ?t = 2" "T_State ?t = PendingReference" "T_ReferenceAttempts ?t = 0"
    and f: "wagerRepo_FindByExternal (T_ProviderID ?t) (T_ReferenceExternalID ?t) (svc_db ?s) = Inl ErrNoRows"
    and facts: "map (\<lambda>x. (T_ID x, T_State x, T_ReferenceAttempts x, T_ReferenceNextAttemptAt x)) (db_wagers (svc_db ?s)) =
      [(100, Processed, 0, None), (2, PendingReference, 0, Some 2)]"
    using late_refund_view by (simp_all add: late_view_def Let_def late_reference_def fresh_draws_def)
  have nx: "nextReferenceAttempt 5 1000 1 = 1005" by code_simp
  have u: "unresolved_row example_externals (svc_db ?s) ?t w (max 1 2) 1000 5 = retried_row ?t 1000 5" for w
    using f id by (simp add: unresolved_row_def attempt_row_def)
  obtain x y where xy: "db_wagers (svc_db ?s) = [x, y]" using facts by auto
  from unresolved_reference_outcome [OF late_reachable(1) n _ ev, of 2 1000] f id obtain s' where
    "ProcessPendingReference example_externals tx_ok (demo_draws 5) [] 5 2 1000 ?s = ((True, None), s')"
    "db_wallets (svc_db s') = db_wallets (svc_db ?s)"
    "db_wagers (svc_db s') = map (\<lambda>x. if T_ID x = T_ID ?t then retried_row ?t 1000 5 else x) (db_wagers (svc_db ?s))"
    unfolding u by auto
  with facts id nx xy show ?thesis by (auto simp: retried_row_def)
qed

text \<open>C28: A claimed reversal whose reference is processed and matches is settled by that very claim: the
  record takes the outcome the rules prescribe for the wallet as it is now (processed, or rejected for
  lack of funds), stored so that a replay returns it, and the balance and the ledger change exactly
  when the outcome is processed. The only exception is a reference that another transaction has
  reversed already.\<close>

theorem resolved_reference_settled:
  assumes "service_reachable E s" "wagerRepo_FindNextPendingReferenceForUpdate locked now (svc_db s) = Inr t"
    "commandFromRecord t = Inr cmd" "wagerRepo_FindByExternal (T_ProviderID t) (T_ReferenceExternalID t) (svc_db s) = Inr rf"
    "may_reverse cmd rf" "fresh_draws dr (svc_db s)" "now \<noteq> 0" "w \<in> set (db_wallets (svc_db s))" "W_ID w = T_WalletID t"
    "W_Version w < max_int64"
    "accepted w cmd (Some (T_Type rf)) \<longrightarrow> \<not> reversal_clash (T_ID t) (T_ProviderID t) (T_ReferenceExternalID t) Processed (svc_db s)"
  shows "\<exists>s' t' r. ProcessPendingReference E tx_ok dr locked now m base s = ((True, None), s')
    \<and> r = operation_result w cmd (Some (T_Type rf)) \<and> movement_effect dr cmd w r now (svc_db s) (svc_db s')
    \<and> db_wagers (svc_db s') = map (\<lambda>x. if T_ID x = T_ID t then t' else x) (db_wagers (svc_db s))
    \<and> same_identity t t' \<and> T_State t' = R_State r \<and> R_State r \<in> {Processed, Rejected} \<and> replayResult E t' = Inr r"
proof -
  have i: "externals_ok E" "bank_inv E (svc_db s)" using reachable_bank [OF assms(1)] by simp_all
  note t = claimed_record [OF assms(2)]
  from t(1) obtain xs ys where split: "db_wagers (svc_db s) = xs @ t # ys" by (meson split_list)
  let ?r = "operation_result w cmd (Some (T_Type rf))"
  let ?t = "t\<lparr>T_State := R_State ?r, T_Result := Some (marshalResult E ?r),
        T_ReferenceNextAttemptAt := None, T_FailureCode := R_FailureCode ?r, T_UpdatedAt := now\<rparr>"
  obtain d' where d': "processPendingReferenceInTx E dr t now (max 1 m) base (svc_db s) = Inr (False, d')"
    "movement_effect dr cmd w ?r now (svc_db s) d'" "db_wagers d' = xs @ ?t # ys"
    using valid_settles [OF i(2,1) split t(2) assms(6-10,3,4) assms(5) [folded validReference_iff]] assms(11) by blast
  obtain s' where s': "ProcessPendingReference E tx_ok dr locked now m base s = ((True, None), s')" "svc_db s' = d'"
    using claim_Inr [OF assms(2) d'(1)] by blast
  have rows: "db_wagers d' = map (\<lambda>x. if T_ID x = T_ID t then ?t else x) (db_wagers (svc_db s))"
    unfolding d'(3) split by (rule replace_row [OF bank_invD(1) [OF i(2), unfolded split]])
  have ok: "command_ok cmd" using pending_command [OF bank_invD(4) [OF i(2) t(1)] t(2)] assms(3) by auto
  have "row_for E cmd ?r ?t" using assms(3) by (auto simp: commandFromRecord_Inr row_for_def)
  with row_for_replay [OF i(1) this operation_result_of [OF bank_invD(3) [OF i(2) assms(8)] ok]] ok
  have "replayResult E ?t = Inr ?r" by (simp add: command_ok_def)
  moreover have "same_identity t ?t" by (simp add: same_identity_def)
  moreover have "R_State ?r \<in> {Processed, Rejected}" by (simp add: operation_result_def)
  ultimately show ?thesis using s' d'(2) rows by (intro exI [of _ s'] exI [of _ ?t] exI [of _ ?r]) simp
qed

theorem resolved_reference_settled_witness:
  "\<exists>s' t'. ProcessPendingReference example_externals tx_ok (demo_draws 5) [] 5 2 1000 late_bet = ((True, None), s')
    \<and> map W_Balance (db_wallets (svc_db s')) = [100] \<and> T_State t' = Processed
    \<and> db_wagers (svc_db s') = map (\<lambda>x. if T_ID x = 2 then t' else x) (db_wagers (svc_db late_bet))"
proof -
  let ?s = late_bet and ?t = "late_row late_bet" and ?w = "late_wallet 60 2"
  have n: "wagerRepo_FindNextPendingReferenceForUpdate [] 5 (svc_db ?s) = Inr ?t" "commandFromRecord ?t = Inr late_command"
    and f: "wagerRepo_FindByExternal (T_ProviderID ?t) (T_ReferenceExternalID ?t) (svc_db ?s) = Inr demo_bet_row"
    and ev: "fresh_draws (demo_draws 5) (svc_db ?s)" and id: "T_ID ?t = 2" "T_WalletID ?t = 7" "db_wallets (svc_db ?s) = [?w]"
    and nc: "\<not> reversal_clash 2 (T_ProviderID ?t) (T_ReferenceExternalID ?t) Processed (svc_db ?s)"
    using late_bet_view by (simp_all add: late_view_def Let_def late_reference_def)
  have five: "(5::int) \<noteq> 0" and w: "?w \<in> set (db_wallets (svc_db ?s))" "W_ID ?w = T_WalletID ?t" "W_Version ?w < max_int64"
    using id by (simp_all add: max_int64_def late_wallet_def)
  from resolved_reference_settled [OF late_reachable(2) n f late_rules(1) ev five w, of 2 1000] id nc show ?thesis
    by (auto simp: movement_effect_def update_where_def late_rules)
qed

text \<open>C30: A reversal that is pending when another transaction reverses the same reference is never settled:
  the update breaks the unique index on the reference, the transaction is rolled back without
  recording the attempt, and the record, being the oldest due one, is claimed again at once. However
  often the worker iterates, at whatever later times, it runs every iteration, never pauses between
  them and leaves the database as it was; the pending records behind this one are never reached.\<close>

theorem reversed_reference_starves_worker:
  assumes "service_reachable E s" "wagerRepo_FindNextPendingReferenceForUpdate locked now (svc_db s) = Inr t"
    "commandFromRecord t = Inr cmd" "wagerRepo_FindByExternal (T_ProviderID t) (T_ReferenceExternalID t) (svc_db s) = Inr rf"
    "may_reverse cmd rf" "w \<in> set (db_wallets (svc_db s))" "W_ID w = T_WalletID t" "accepted w cmd (Some (T_Type rf))"
    "reversal_clash (T_ID t) (T_ProviderID t) (T_ReferenceExternalID t) Processed (svc_db s)"
    "\<forall>k \<in> set ticks. tick_env k = tx_ok \<and> tick_locked k = locked \<and> now \<le> tick_now k"
  shows "\<exists>s'. ReferenceWorker_run E config ticks s = (length ticks, s') \<and> svc_db s' = svc_db s
    \<and> list_all (\<lambda>k. fst (ReferenceWorker_iteration E config k s) = Again) ticks"
proof -
  have i: "externals_ok E" "bank_inv E (svc_db s)" using reachable_bank [OF assms(1)] by simp_all
  note t = claimed_record [OF assms(2)]
  note stuck = clash_stuck [OF i(2,1) t assms(6,7,3,4) assms(5) [folded validReference_iff] assms(8,9)]
  have it: "\<exists>s2. ReferenceWorker_iteration E config k s1 = (Again, s2) \<and> svc_db s2 = svc_db s"
    if "k \<in> set ticks" "svc_db s1 = svc_db s" for k s1
  proof -
    have k: "tick_env k = tx_ok" "tick_locked k = locked" "now \<le> tick_now k" using assms(10) that(1) by auto
    have "wagerRepo_FindNextPendingReferenceForUpdate locked (tick_now k) (svc_db s1) = Inr t"
      using claim_stays [OF assms(2) k(3) bank_invD(1) [OF i(2)]] that(2) by simp
    from claim_Inl [OF this] stuck that(2) k show ?thesis by (simp add: ReferenceWorker_iteration_def)
  qed
  have "\<exists>s2. ReferenceWorker_run E config ks s1 = (length ks, s2) \<and> svc_db s2 = svc_db s"
    if "set ks \<subseteq> set ticks" "svc_db s1 = svc_db s" for ks s1
    using that
  proof (induction ks arbitrary: s1)
    case (Cons k ks)
    then obtain s2 where "ReferenceWorker_iteration E config k s1 = (Again, s2)" "svc_db s2 = svc_db s" using it [of k s1] by auto
    moreover from Cons.prems Cons.IH [OF _ this(2)] obtain s3 where
      "ReferenceWorker_run E config ks s2 = (length ks, s3)" "svc_db s3 = svc_db s" by auto
    ultimately show ?case by simp
  qed simp
  moreover have "list_all (\<lambda>k. fst (ReferenceWorker_iteration E config k s) = Again) ticks"
    using it [OF _ refl] by (force simp: list_all_iff)
  ultimately show ?thesis by blast
qed

theorem reversed_reference_starves_worker_witness:
  "\<exists>s'. ReferenceWorker_run example_externals \<lparr>rw_PollInterval = 1000000000, rw_MaxAttempts = 10, rw_Backoff = 1000000000\<rparr>
      (map (\<lambda>n. \<lparr>tick_env = tx_ok, tick_draws = demo_draws 5, tick_locked = [], tick_now = 5 + int n, tick_cancelled = False\<rparr>) [0..<1000])
      late_rollback = (1000, s') \<and> svc_db s' = svc_db late_rollback"
proof -
  let ?s = late_rollback and ?t = "late_row late_rollback" and ?w = "late_wallet 100 3"
  have n: "wagerRepo_FindNextPendingReferenceForUpdate [] 5 (svc_db ?s) = Inr ?t" "commandFromRecord ?t = Inr late_command"
    and f: "wagerRepo_FindByExternal (T_ProviderID ?t) (T_ReferenceExternalID ?t) (svc_db ?s) = Inr demo_bet_row"
    and id: "T_ID ?t = 2" "T_WalletID ?t = 7" "db_wallets (svc_db ?s) = [?w]"
    and c: "reversal_clash 2 (T_ProviderID ?t) (T_ReferenceExternalID ?t) Processed (svc_db ?s)"
    using late_rollback_view by (simp_all add: late_view_def Let_def late_reference_def)
  have w: "?w \<in> set (db_wallets (svc_db ?s))" "W_ID ?w = T_WalletID ?t" using id by (simp_all add: late_wallet_def)
  have a: "accepted ?w late_command (Some (T_Type demo_bet_row))" by (simp add: late_rules)
  let ?ticks = "map (\<lambda>n. \<lparr>tick_env = tx_ok, tick_draws = demo_draws 5, tick_locked = [], tick_now = 5 + int n, tick_cancelled = False\<rparr>) [0..<1000]"
  have "\<forall>k \<in> set ?ticks. tick_env k = tx_ok \<and> tick_locked k = [] \<and> 5 \<le> tick_now k" by auto
  from reversed_reference_starves_worker [OF late_reachable(3) n f late_rules(1) w a c [folded id(1)] this] show ?thesis by auto
qed

end
