(* ===== verification/Outbox_Properties.thy ===== *)
theory Outbox_Properties
  imports Service_Runs
begin

text \<open>
  The outbox in every reachable state of the process, and what one call of the worker does: events of an
  aggregate are published in the order in which they were written, a claim excludes other workers until
  its lease expires and is useless afterwards, a publication that fails is retried with a growing delay
  until the attempts are exhausted, and a worker that meets no failure empties the outbox.
\<close>

section \<open>One event\<close>

lemma claimed_event_simps [simp]:
  "O_EventID (claimed_event now token e) = O_EventID e" "O_AggregateID (claimed_event now token e) = O_AggregateID e"
  "O_OrderingID (claimed_event now token e) = O_OrderingID e" "O_OccurredAt (claimed_event now token e) = O_OccurredAt e"
  "O_Attempts (claimed_event now token e) = O_Attempts e + 1" "O_Status (claimed_event now token e) = CLAIMED"
  "O_ClaimToken (claimed_event now token e) = Some token" "O_ClaimedAt (claimed_event now token e) = Some now"
  by (simp_all add: claimed_event_def)

text \<open>The event a claim takes.\<close>

definition next_event :: "uuid list \<Rightarrow> time \<Rightarrow> duration \<Rightarrow> db \<Rightarrow> OutboxRecord option" where
  "next_event locked now lease d = min_by (\<lambda>e. (O_NextAttemptAt e, O_EventID e))
     (filter (\<lambda>e. claimable now lease d e \<and> O_EventID e \<notin> set locked) (db_outbox d))"

lemma next_eventD: "next_event locked now lease d = Some e \<Longrightarrow> e \<in> set (db_outbox d) \<and> claimable now lease d e"
  by (auto simp: next_event_def dest!: min_by_Some)

lemma claim_eq:
  "outboxRepo_ClaimOneRecord token locked now lease d =
     (case next_event locked now lease d of None \<Rightarrow> Inl ErrNoRows | Some e \<Rightarrow> claim_event token now e d)"
  by (simp add: outboxRepo_ClaimOneRecord_def next_event_def)

abbreviation with_event :: "uuid \<Rightarrow> OutboxRecord \<Rightarrow> OutboxRecord list \<Rightarrow> OutboxRecord list" where
  "with_event i e' \<equiv> map (\<lambda>x. if O_EventID x = i then e' else x)"

lemma claim_next:
  assumes "next_event locked now lease d = Some e" "O_Attempts e < 2147483647" "distinct (map O_EventID (db_outbox d))"
  shows "outboxRepo_ClaimOneRecord token locked now lease d =
    Inr (claimed_event now token e, d\<lparr>db_outbox := with_event (O_EventID e) (claimed_event now token e) (db_outbox d)\<rparr>)"
proof -
  have e: "e \<in> set (db_outbox d)" using next_eventD [OF assms(1)] by simp
  then have "update_where (\<lambda>x. O_EventID x = O_EventID e) (claimed_event now token) (db_outbox d) =
      with_event (O_EventID e) (claimed_event now token e) (db_outbox d)"
    using assms(3) by (auto simp: update_where_def distinct_map inj_on_def)
  with assms(1,2) show ?thesis by (simp add: claim_eq claim_event_def)
qed

text \<open>A mark by the holder of the claim changes its event, any other mark changes nothing.\<close>

lemma mark_held:
  assumes "distinct (map O_EventID (db_outbox d))" "e \<in> set (db_outbox d)" "holds_claim i token e"
  shows "mark_rows tx_ok i token f d = (Inr (), d\<lparr>db_outbox := with_event i (f e) (db_outbox d)\<rparr>)"
proof -
  have u: "x \<in> set (db_outbox d) \<Longrightarrow> holds_claim i token x \<longleftrightarrow> x = e" for x
    using assms by (auto simp: holds_claim_def distinct_map inj_on_def)
  have "filter (holds_claim i token) (db_outbox d) = filter (\<lambda>x. x = e) (db_outbox d)" using u by (intro filter_cong) auto
  moreover have "distinct (db_outbox d)" using assms(1) by (simp add: distinct_map)
  ultimately have "length (filter (holds_claim i token) (db_outbox d)) = 1"
    using assms(2) by (simp add: distinct_length_filter)
  moreover have "update_where (holds_claim i token) f (db_outbox d) = with_event i (f e) (db_outbox d)"
    using u assms by (auto simp: update_where_def holds_claim_def distinct_map inj_on_def)
  ultimately show ?thesis by (simp add: mark_rows_def WithTx_ok)
qed

lemma mark_lost:
  assumes "\<And>e. e \<in> set (db_outbox d) \<Longrightarrow> \<not> holds_claim i token e"
  shows "mark_rows tx_ok i token f d = (Inl ErrOutboxClaimLost, d)"
proof -
  have "filter (holds_claim i token) (db_outbox d) = []" "update_where (holds_claim i token) f (db_outbox d) = db_outbox d"
    using assms by (auto simp: filter_empty_conv intro: update_where_id)
  then show ?thesis by (simp add: mark_rows_def WithTx_ok)
qed

text \<open>The message of an event, and whether its publication succeeds.\<close>

definition event_message :: "externals \<Rightarrow> string \<Rightarrow> json \<Rightarrow> OutboxRecord \<Rightarrow> sent_message" where
  "event_message E url body e = \<lparr>sm_queue = url, sm_body = body, sm_group = uuid_String E (O_AggregateID e),
     sm_deduplication = uuid_String E (O_EventID e)\<rparr>"

text \<open>A tick that meets no failure of the database and no other session.\<close>

definition quiet :: "outbox_tick \<Rightarrow> bool" where
  "quiet k \<longleftrightarrow> tick_claim k = tx_ok \<and> tick_mark k = tx_ok \<and> tick_interfere k = id"

definition postponed_event :: "OutboxConfig \<Rightarrow> outbox_tick \<Rightarrow> string \<Rightarrow> OutboxRecord \<Rightarrow> OutboxRecord" where
  "postponed_event config k err e = retried_event (if O_Attempts e + 1 \<ge> ob_MaxAttempts config then FAILED else PENDING)
     (nextAttempt (tick_time k) (ob_Backoff config) (O_Attempts e + 1)) err (claimed_event (tick_time k) (tick_token k) e)"

lemma with_event_twice: "O_EventID a = i \<Longrightarrow> with_event i b (with_event i a xs) = with_event i b xs"
  by (simp add: comp_def)

lemma with_event_distinct:
  assumes "O_EventID a = i" "distinct (map O_EventID xs)"
  shows "distinct (map O_EventID (with_event i a xs))"
proof -
  have "map O_EventID (with_event i a xs) = map O_EventID xs" using assms(1) by auto
  with assms(2) show ?thesis by metis
qed

lemma processOne_quiet:
  assumes "quiet k" "next_event (tick_skip k) (tick_time k) (ob_ClaimLease config) (relay_db r) = Some e"
    "O_Attempts e < 2147483647" "distinct (map O_EventID (db_outbox (relay_db r)))"
  shows "\<exists>r'. processOne E config k r = ((True, None), r') \<and>
    (case marshalEnvelope E (claimed_event (tick_time k) (tick_token k) e) of
       Inl err \<Rightarrow> rl_sent r' = rl_sent r \<and> relay_db r' = (relay_db r)\<lparr>db_outbox :=
           with_event (O_EventID e) (postponed_event config k err e) (db_outbox (relay_db r))\<rparr>
     | Inr body \<Rightarrow> (case Client_SendEvent (tick_url k) (tick_send k) body (uuid_String E (O_AggregateID e))
           (uuid_String E (O_EventID e)) (rl_client r) of (err, ms, c) \<Rightarrow>
         rl_client r' = c \<and> rl_sent r' = rl_sent r @ ms \<and> relay_db r' = (relay_db r)\<lparr>db_outbox := with_event (O_EventID e)
           (case err of None \<Rightarrow> published_event (tick_time k) (claimed_event (tick_time k) (tick_token k) e)
            | Some err \<Rightarrow> postponed_event config k err e) (db_outbox (relay_db r))\<rparr>))"
proof -
  let ?d = "relay_db r" and ?e = "claimed_event (tick_time k) (tick_token k) e"
  let ?d1 = "?d\<lparr>db_outbox := with_event (O_EventID e) ?e (db_outbox ?d)\<rparr>"
  have e: "e \<in> set (db_outbox ?d)" using next_eventD [OF assms(2)] by simp
  have cl: "outboxRepo_ClaimOneRecord (tick_token k) (tick_skip k) (tick_time k) (ob_ClaimLease config) ?d = Inr (?e, ?d1)"
    by (rule claim_next [OF assms(2-4)])
  have d1: "distinct (map O_EventID (db_outbox ?d1))" "?e \<in> set (db_outbox ?d1)"
    using with_event_distinct [OF _ assms(4), of ?e] e by (simp, force)
  have held: "holds_claim (O_EventID e) (tick_token k) ?e" by (simp add: holds_claim_def)
  have mark: "mark_rows tx_ok (O_EventID e) (tick_token k) f ?d1 = (Inr (), ?d\<lparr>db_outbox := with_event (O_EventID e) (f ?e) (db_outbox ?d)\<rparr>)" for f
    using mark_held [OF d1 held, of f] with_event_twice [of ?e "O_EventID e"] by (simp del: map_map)
  note eqs = processOne_def set_relay_db_def retry_def outboxRepo_MarkRetry_def outboxRepo_MarkPublished_def postponed_event_def Let_def WithTx_ok
  show ?thesis
  proof (cases "marshalEnvelope E ?e")
    case (Inl err)
    with assms(1) cl mark show ?thesis by (simp add: eqs quiet_def)
  next
    case (Inr body)
    obtain err ms c where send: "Client_SendEvent (tick_url k) (tick_send k) body (uuid_String E (O_AggregateID e))
        (uuid_String E (O_EventID e)) (rl_client r) = (err, ms, c)" using prod_cases3 by blast
    show ?thesis
    proof (cases err)
      case None
      with Inr send assms(1) cl mark show ?thesis by (simp add: eqs quiet_def)
    next
      case (Some x)
      with Inr send assms(1) cl mark show ?thesis by (simp add: eqs quiet_def)
    qed
  qed
qed

section \<open>A batch without failures\<close>

abbreviation unpublished :: "OutboxRecord \<Rightarrow> bool" where
  "unpublished e \<equiv> O_Status e \<noteq> PUBLISHED"

text \<open>The message that announces an event.\<close>

definition announces :: "externals \<Rightarrow> sent_message \<Rightarrow> OutboxRecord \<Rightarrow> bool" where
  "announces E m e \<longleftrightarrow> marshalEnvelope E e = Inr (sm_body m) \<and> sm_group m = uuid_String E (O_AggregateID e)
     \<and> sm_deduplication m = uuid_String E (O_EventID e)"

text \<open>An outbox whose unpublished events are due, and ticks at which every call succeeds.\<close>

definition drainable :: "time \<Rightarrow> Relay \<Rightarrow> bool" where
  "drainable now r \<longleftrightarrow> distinct (map O_EventID (db_outbox (relay_db r))) \<and> distinct (map O_OrderingID (db_outbox (relay_db r)))
     \<and> cl_eventQueueURL (rl_client r) \<noteq> [] \<and> (\<forall>e \<in> set (db_outbox (relay_db r)). unpublished e \<longrightarrow> O_Status e = PENDING
          \<and> O_NextAttemptAt e \<le> now \<and> year_ok (O_OccurredAt e) \<and> O_Attempts e < 2147483647)"

definition fair :: "time \<Rightarrow> outbox_tick \<Rightarrow> bool" where
  "fair now k \<longleftrightarrow> quiet k \<and> tick_skip k = [] \<and> tick_send k = SendOk \<and> now \<le> tick_time k"

lemma marshal_claimed: "marshalEnvelope E (claimed_event now token e) = marshalEnvelope E e"
  by (simp add: marshalEnvelope_def claimed_event_def)

text \<open>The unpublished event with the least position can always be claimed.\<close>

lemma next_exists:
  assumes "drainable now r" "fair now k" "e \<in> set (db_outbox (relay_db r))" "unpublished e"
  obtains e' where "next_event (tick_skip k) (tick_time k) lease (relay_db r) = Some e'" "unpublished e'"
proof -
  let ?os = "db_outbox (relay_db r)"
  obtain m where m: "min_by O_OrderingID (filter unpublished ?os) = Some m"
    using assms(3,4) by (cases "min_by O_OrderingID (filter unpublished ?os)") (auto simp: filter_empty_conv)
  from min_by_Some [OF m] have min: "m \<in> set ?os" "unpublished m" "\<And>p. p \<in> set ?os \<Longrightarrow> unpublished p \<Longrightarrow> O_OrderingID m \<le> O_OrderingID p"
    by auto
  have "predecessors_published (relay_db r) m" using min(3) by (fastforce simp: predecessors_published_def list_ex_iff)
  with min assms(1,2) have "claimable (tick_time k) lease (relay_db r) m" by (auto simp: drainable_def claimable_def fair_def)
  with min(1) assms(2) have "filter (\<lambda>e. claimable (tick_time k) lease (relay_db r) e \<and> O_EventID e \<notin> set (tick_skip k)) ?os \<noteq> []"
    by (auto simp: filter_empty_conv fair_def)
  then obtain e' where e': "next_event (tick_skip k) (tick_time k) lease (relay_db r) = Some e'"
    unfolding next_event_def by (cases "min_by (\<lambda>e. (O_NextAttemptAt e, O_EventID e))
      (filter (\<lambda>e. claimable (tick_time k) lease (relay_db r) e \<and> O_EventID e \<notin> set (tick_skip k)) ?os)") auto
  from next_eventD [OF this] have "unpublished e'" by (auto simp: claimable_def)
  with e' show ?thesis by (rule that)
qed

lemma next_none:
  assumes "\<And>e. e \<in> set (db_outbox d) \<Longrightarrow> O_Status e = PUBLISHED"
  shows "next_event locked now lease d = None"
proof -
  have "filter (\<lambda>e. claimable now lease d e \<and> O_EventID e \<notin> set locked) (db_outbox d) = []"
    using assms by (auto simp: filter_empty_conv claimable_def)
  then show ?thesis by (simp add: next_event_def)
qed

text \<open>One call publishes one event and leaves the others as they are.\<close>

lemma publish_one:
  assumes "drainable now r" "fair now k" "next_event (tick_skip k) (tick_time k) (ob_ClaimLease config) (relay_db r) = Some e" "unpublished e"
  obtains r' m where "processOne E config k r = ((True, None), r')" "rl_sent r' = rl_sent r @ [m]" "announces E m e" "drainable now r'"
    "mset (filter unpublished (db_outbox (relay_db r))) = add_mset e (mset (filter unpublished (db_outbox (relay_db r'))))"
    "predecessors_published (relay_db r) e"
proof -
  let ?os = "db_outbox (relay_db r)"
  let ?p = "published_event (tick_time k) (claimed_event (tick_time k) (tick_token k) e)"
  note e = next_eventD [OF assms(3)]
  have q: "quiet k" and send: "tick_send k = SendOk" using assms(2) by (simp_all add: fair_def)
  have ok: "O_Attempts e < 2147483647" "year_ok (O_OccurredAt e)" "distinct (map O_EventID ?os)" "cl_eventQueueURL (rl_client r) \<noteq> []"
    using assms(1,4) e by (auto simp: drainable_def)
  obtain body where body: "marshalEnvelope E e = Inr body" using ok(2) by (simp add: marshalEnvelope_def)
  let ?m = "\<lparr>sm_queue = cl_eventQueueURL (rl_client r), sm_body = body, sm_group = uuid_String E (O_AggregateID e),
     sm_deduplication = uuid_String E (O_EventID e)\<rparr>"
  have "Client_SendEvent (tick_url k) (tick_send k) body (uuid_String E (O_AggregateID e)) (uuid_String E (O_EventID e)) (rl_client r) =
      (None, [?m], rl_client r)"
    using ok(4) send by (simp add: Client_SendEvent_def Client_EventQueueURL_def Let_def)
  with processOne_quiet [OF q assms(3) ok(1,3), of E] body obtain r' where
    r': "processOne E config k r = ((True, None), r')" "rl_client r' = rl_client r" "rl_sent r' = rl_sent r @ [?m]"
      "relay_db r' = (relay_db r)\<lparr>db_outbox := with_event (O_EventID e) ?p ?os\<rparr>"
    by (auto simp: marshal_claimed)
  have key: "O_EventID ?p = O_EventID e" "O_OrderingID ?p = O_OrderingID e" "O_Status ?p = PUBLISHED"
    by (simp_all add: published_event_def)
  have os': "db_outbox (relay_db r') = with_event (O_EventID e) ?p ?os" unfolding r'(4) by simp
  have same: "x \<in> set ?os \<Longrightarrow> O_EventID x = O_EventID e \<longleftrightarrow> x = e" for x
    using e ok(3) by (auto simp: distinct_map inj_on_def)
  have ords: "map O_OrderingID (with_event (O_EventID e) ?p ?os) = map O_OrderingID ?os"
    using same key by (auto simp: comp_def)
  have "distinct (map O_OrderingID (with_event (O_EventID e) ?p ?os))"
    unfolding ords using assms(1) by (simp add: drainable_def)
  then have dr: "drainable now r'"
    using assms(1) r'(2) with_event_distinct [OF key(1) ok(3)] key(3) unfolding drainable_def os'
    by (auto simp del: map_map)
  have "mset (filter unpublished ?os) = add_mset e (mset (filter unpublished (with_event (O_EventID e) ?p ?os)))"
  proof -
    have *: "mset (filter unpublished xs) = (if e \<in> set xs then {#e#} else {#}) + mset (filter unpublished (with_event (O_EventID e) ?p xs))"
      if "set xs \<subseteq> set ?os" "distinct xs" for xs
      using that
    proof (induction xs)
      case (Cons x xs)
      then show ?case using assms(4) key(3) same [of x] by (cases "x = e") auto
    qed simp
    have "distinct ?os" using ok(3) by (simp add: distinct_map)
    from * [OF subset_refl this] e show ?thesis by simp
  qed
  with os' have "mset (filter unpublished ?os) = add_mset e (mset (filter unpublished (db_outbox (relay_db r'))))" by simp
  moreover have "announces E ?m e" using body by (simp add: announces_def)
  moreover have "predecessors_published (relay_db r) e" using e by (simp add: claimable_def)
  ultimately show ?thesis using that r'(1,3) dr by blast
qed

abbreviation aggregate_order :: "OutboxRecord \<Rightarrow> OutboxRecord \<Rightarrow> bool" where
  "aggregate_order a b \<equiv> O_AggregateID a = O_AggregateID b \<longrightarrow> O_OrderingID a < O_OrderingID b"

text \<open>What remains unpublished beside an event whose predecessors are published comes after it.\<close>

lemma first_of_aggregate:
  assumes "drainable now r" "e \<in> set (db_outbox (relay_db r))" "predecessors_published (relay_db r) e"
    "mset (filter unpublished (db_outbox (relay_db r))) = mset (e # xs)" "x \<in> set xs"
  shows "aggregate_order e x"
proof
  let ?os = "db_outbox (relay_db r)"
  assume agg: "O_AggregateID e = O_AggregateID x"
  have "x \<in> set (e # xs)" using assms(5) by simp
  then have x: "x \<in> set ?os" "unpublished x" using arg_cong [OF assms(4), of set_mset] by auto
  have "distinct (filter unpublished ?os)" using assms(1) by (simp add: drainable_def distinct_map)
  then have "distinct (e # xs)" using mset_eq_imp_distinct_iff [OF assms(4)] by simp
  then have "x \<noteq> e" using assms(5) by auto
  with x(1) assms(1,2) have "O_OrderingID x \<noteq> O_OrderingID e" by (auto simp: drainable_def distinct_map inj_on_def)
  moreover have "\<not> O_OrderingID x < O_OrderingID e" using assms(3) x agg by (auto simp: predecessors_published_def list_ex_iff)
  ultimately show "O_OrderingID e < O_OrderingID x" by simp
qed

text \<open>
  A batch publishes as many events as it has ticks, or all of them; what it publishes precedes, in its
  aggregate, what it leaves.
\<close>

lemma batch_publishes:
  assumes "drainable now r" "list_all (fair now) ks"
  shows "\<exists>r' es ms. process_batch E config ks r = (length es, r') \<and> rl_sent r' = rl_sent r @ ms \<and> list_all2 (announces E) ms es
    \<and> drainable now r' \<and> mset (filter unpublished (db_outbox (relay_db r))) = mset (es @ filter unpublished (db_outbox (relay_db r')))
    \<and> sorted_wrt aggregate_order es \<and> (\<forall>e \<in> set es. \<forall>x \<in> set (filter unpublished (db_outbox (relay_db r'))). aggregate_order e x)
    \<and> (length es = length ks \<or> filter unpublished (db_outbox (relay_db r')) = [])"
  using assms
proof (induction ks arbitrary: r)
  case Nil
  then show ?case by (intro exI [of _ r] exI [of _ "[]"]) simp
next
  case (Cons k ks)
  let ?os = "db_outbox (relay_db r)"
  show ?case
  proof (cases "\<exists>e \<in> set ?os. unpublished e")
    case False
    then have "next_event (tick_skip k) (tick_time k) (ob_ClaimLease config) (relay_db r) = None" by (intro next_none) auto
    moreover have "tick_claim k = tx_ok" using Cons.prems(2) by (simp add: fair_def quiet_def)
    ultimately have "processOne E config k r = ((False, Some ErrNoRows), set_relay_db (relay_db r) r)"
      by (simp add: processOne_def claim_eq WithTx_ok)
    moreover have "set_relay_db (relay_db r) r = r" by (simp add: set_relay_db_def)
    moreover have "filter unpublished ?os = []" using False by (auto simp: filter_empty_conv)
    ultimately show ?thesis using Cons.prems(1) by (intro exI [of _ r] exI [of _ "[]"]) auto
  next
    case True
    then obtain e0 where e0: "e0 \<in> set ?os" "unpublished e0" by blast
    have fair: "fair now k" using Cons.prems(2) by simp
    obtain e where nx: "next_event (tick_skip k) (tick_time k) (ob_ClaimLease config) (relay_db r) = Some e" "unpublished e"
      using next_exists [OF Cons.prems(1) fair e0] .
    obtain r1 m where r1: "processOne E config k r = ((True, None), r1)" "rl_sent r1 = rl_sent r @ [m]" "announces E m e" "drainable now r1"
      "mset (filter unpublished ?os) = add_mset e (mset (filter unpublished (db_outbox (relay_db r1))))" "predecessors_published (relay_db r) e"
      using publish_one [OF Cons.prems(1) fair nx] .
    from Cons.IH [OF r1(4)] Cons.prems(2) obtain r' es ms where
      r': "process_batch E config ks r1 = (length es, r')" "rl_sent r' = rl_sent r1 @ ms" "list_all2 (announces E) ms es" "drainable now r'"
        "mset (filter unpublished (db_outbox (relay_db r1))) = mset (es @ filter unpublished (db_outbox (relay_db r')))"
        "sorted_wrt aggregate_order es" "\<forall>e \<in> set es. \<forall>x \<in> set (filter unpublished (db_outbox (relay_db r'))). aggregate_order e x"
        "length es = length ks \<or> filter unpublished (db_outbox (relay_db r')) = []" by (auto simp del: mset_filter mset_append)
    let ?rest = "filter unpublished (db_outbox (relay_db r'))"
    have all: "mset (filter unpublished ?os) = mset ((e # es) @ ?rest)" using r1(5) r'(5) by (simp del: mset_filter)
    have first: "aggregate_order e x" if "x \<in> set (es @ ?rest)" for x
      by (rule first_of_aggregate [OF Cons.prems(1) next_eventD [OF nx(1), THEN conjunct1] r1(6), of "es @ ?rest"]) (use all that in simp_all)
    have "process_batch E config (k # ks) r = (length (e # es), r')" using r1(1) r'(1) by simp
    moreover have "rl_sent r' = rl_sent r @ (m # ms)" using r1(2) r'(2) by simp
    moreover have "list_all2 (announces E) (m # ms) (e # es)" using r1(3) r'(3) by simp
    moreover have "sorted_wrt aggregate_order (e # es)" using first r'(6) by simp
    moreover have "\<forall>a \<in> set (e # es). \<forall>x \<in> set ?rest. aggregate_order a x" using first r'(7) by auto
    moreover have "length (e # es) = length (k # ks) \<or> ?rest = []" using r'(8) by auto
    ultimately show ?thesis using r'(4) all by blast
  qed
qed

text \<open>Rounds of the loop, each with at least one tick, publish all that is waiting.\<close>

definition fair_round :: "time \<Rightarrow> outbox_round \<Rightarrow> bool" where
  "fair_round now b \<longleftrightarrow> (\<forall>i. fair now (round_ticks b i))"

lemma observeLag_simps [simp]:
  "relay_db (observeLag err now r) = relay_db r" "rl_client (observeLag err now r) = rl_client r"
  "rl_sent (observeLag err now r) = rl_sent r" "drainable t (observeLag err now r) = drainable t r"
  by (simp_all add: observeLag_def drainable_def split: option.split)

lemma loop_drains:
  assumes "drainable now r" "list_all (fair_round now) bs" "1 \<le> ob_BatchSize config"
    "length (filter unpublished (db_outbox (relay_db r))) \<le> length bs"
  shows "\<exists>es ms. rl_sent (outbox_loop E config bs r) = rl_sent r @ ms \<and> list_all2 (announces E) ms es
    \<and> mset es = mset (filter unpublished (db_outbox (relay_db r))) \<and> sorted_wrt aggregate_order es
    \<and> (\<forall>e \<in> set (db_outbox (relay_db (outbox_loop E config bs r))). O_Status e = PUBLISHED)"
  using assms(1,2,4)
proof (induction bs arbitrary: r)
  case Nil
  then show ?case by (intro exI [of _ "[]"]) (auto simp: filter_empty_conv)
next
  case (Cons b bs)
  let ?ks = "map (round_ticks b) [0..<nat (ob_BatchSize config)]" and ?r = "observeLag (round_lag b) (round_now b) r"
  have ks: "list_all (fair now) ?ks" "?ks \<noteq> []" using Cons.prems(2) assms(3) by (auto simp: fair_round_def list_all_iff)
  have "drainable now ?r" using Cons.prems(1) by simp
  from batch_publishes [OF this ks(1), of E config] obtain r' es ms where
    r': "process_batch E config ?ks ?r = (length es, r')" "rl_sent r' = rl_sent r @ ms" "list_all2 (announces E) ms es" "drainable now r'"
      "mset (filter unpublished (db_outbox (relay_db r))) = mset (es @ filter unpublished (db_outbox (relay_db r')))" "sorted_wrt aggregate_order es"
      "\<forall>e \<in> set es. \<forall>x \<in> set (filter unpublished (db_outbox (relay_db r'))). aggregate_order e x"
      "length es = length ?ks \<or> filter unpublished (db_outbox (relay_db r')) = []" by (auto simp del: mset_filter mset_append)
  let ?rest = "filter unpublished (db_outbox (relay_db r'))"
  show ?case
  proof (cases "es = [] \<and> round_cancelled b")
    case True
    with r'(8) ks(2) have "?rest = []" by simp
    moreover have "outbox_loop E config (b # bs) r = r'" using r'(1) True by simp
    ultimately show ?thesis using r'(2,3,5) True by (intro exI [of _ "[]"]) (auto simp: filter_empty_conv)
  next
    case False
    have "length ?rest \<le> length bs"
    proof (cases "es = []")
      case True
      with r'(8) ks(2) show ?thesis by auto
    next
      case False
      with arg_cong [OF r'(5), of size] Cons.prems(3) show ?thesis by (cases es) (auto simp del: mset_filter)
    qed
    from Cons.IH [OF r'(4) _ this] Cons.prems(2) obtain es' ms' where
      rest: "rl_sent (outbox_loop E config bs r') = rl_sent r' @ ms'" "list_all2 (announces E) ms' es'" "mset es' = mset ?rest"
        "sorted_wrt aggregate_order es'" "\<forall>e \<in> set (db_outbox (relay_db (outbox_loop E config bs r'))). O_Status e = PUBLISHED" by auto
    have "outbox_loop E config (b # bs) r = outbox_loop E config bs r'" using r'(1) False by auto
    moreover have "mset (es @ es') = mset (filter unpublished (db_outbox (relay_db r)))" using r'(5) rest(3) by (simp del: mset_filter)
    moreover have "sorted_wrt aggregate_order (es @ es')"
      using r'(6,7) rest(4) arg_cong [OF rest(3), of set_mset] by (auto simp: sorted_wrt_append)
    moreover have "list_all2 (announces E) (ms @ ms') (es @ es')" using r'(3) rest(2) by (rule list_all2_appendI)
    ultimately show ?thesis using r'(2) rest(1,5) by (intro exI [of _ "es @ es'"] exI [of _ "ms @ ms'"]) simp
  qed
qed

section \<open>The worker as part of the process\<close>

lemma set_relay_service: "rl_service (set_relay_db d r) = (rl_service r)\<lparr>svc_db := d\<rparr>"
  by (simp add: set_relay_db_def)

text \<open>Whatever one call meets, it performs steps of the process, if the other sessions do.\<close>

lemma processOne_steps:
  assumes "\<And>s. (service_step E)\<^sup>*\<^sup>* s (s\<lparr>svc_db := tick_interfere k (svc_db s)\<rparr>)" "processOne E config k r = (x, r')"
  shows "(service_step E)\<^sup>*\<^sup>* (rl_service r) (rl_service r')"
proof -
  let ?s = "rl_service r"
  obtain res d1 where cl: "WithTx (tick_claim k) (outboxRepo_ClaimOneRecord (tick_token k) (tick_skip k) (tick_time k) (ob_ClaimLease config))
      (svc_db ?s) = (res, d1)" by fastforce
  have s1: "service_step E ?s (?s\<lparr>svc_db := d1\<rparr>)" using cl by (rule step_claim)
  show ?thesis
  proof (cases res)
    case (Inl err)
    with cl assms(2) have "rl_service r' = ?s\<lparr>svc_db := d1\<rparr>" by (auto simp: processOne_def set_relay_service)
    with s1 show ?thesis by simp
  next
    case (Inr e)
    let ?d2 = "tick_interfere k d1"
    from assms(1) [of "?s\<lparr>svc_db := d1\<rparr>"] s1 have s2: "(service_step E)\<^sup>*\<^sup>* ?s (?s\<lparr>svc_db := ?d2\<rparr>)"
      by (simp add: converse_rtranclp_into_rtranclp)
    have mark: "(service_step E)\<^sup>*\<^sup>* ?s (?s\<lparr>svc_db := d3\<rparr>)"
      if "(res', d3) = retry config (tick_mark k) e (tick_token k) (tick_time k) err ?d2 \<or>
        (res', d3) = outboxRepo_MarkPublished (tick_mark k) (O_EventID e) (tick_token k) (tick_time k) ?d2" for res' d3 err
    proof -
      have "service_step E (?s\<lparr>svc_db := ?d2\<rparr>) (?s\<lparr>svc_db := d3\<rparr>)"
        using that step_published [of _ _ _ _ "?s\<lparr>svc_db := ?d2\<rparr>" res' d3] step_retried [of _ _ _ _ _ _ _ "?s\<lparr>svc_db := ?d2\<rparr>" res' d3]
        by (fastforce simp: retry_def)
      with s2 show ?thesis by (rule rtranclp.rtrancl_into_rtrancl)
    qed
    have obs: "(service_step E)\<^sup>*\<^sup>* ?s (?s\<lparr>svc_db := d3, svc_metrics := m\<rparr>)" if "(service_step E)\<^sup>*\<^sup>* ?s (?s\<lparr>svc_db := d3\<rparr>)" for d3 m
      using that step_observe [of E "?s\<lparr>svc_db := d3\<rparr>" m] by (simp add: rtranclp.rtrancl_into_rtrancl)
    have swap: "?s\<lparr>svc_metrics := m, svc_db := d3\<rparr> = ?s\<lparr>svc_db := d3, svc_metrics := m\<rparr>" for m d3 by simp
    obtain r3 d3 where "rl_service r' = ?s\<lparr>svc_db := d3\<rparr> \<or> (\<exists>m. rl_service r' = ?s\<lparr>svc_db := d3, svc_metrics := m\<rparr>)"
      "(\<exists>err. (r3, d3) = retry config (tick_mark k) e (tick_token k) (tick_time k) err ?d2) \<or>
        (r3, d3) = outboxRepo_MarkPublished (tick_mark k) (O_EventID e) (tick_token k) (tick_time k) ?d2"
    proof (cases "marshalEnvelope E e")
      case (Inl err)
      obtain r3 d3 where m: "(r3, d3) = retry config (tick_mark k) e (tick_token k) (tick_time k) err ?d2" by (metis surj_pair)
      then have "rl_service r' = ?s\<lparr>svc_db := d3\<rparr>"
        using Inl Inr cl assms(2) by (auto simp: processOne_def set_relay_service Let_def split: prod.splits)
      with m show ?thesis using that [of d3 r3] by blast
    next
      case (Inr body)
      obtain err ms c where send: "Client_SendEvent (tick_url k) (tick_send k) body (uuid_String E (O_AggregateID e))
          (uuid_String E (O_EventID e)) (rl_client r) = (err, ms, c)" using prod_cases3 by blast
      show ?thesis
      proof (cases err)
        case None
        obtain r3 d3 where m: "(r3, d3) = outboxRepo_MarkPublished (tick_mark k) (O_EventID e) (tick_token k) (tick_time k) ?d2"
          by (metis surj_pair)
        then have "rl_service r' = ?s\<lparr>svc_db := d3\<rparr>"
          using None Inr send \<open>res = Inr e\<close> cl assms(2) by (auto simp: processOne_def set_relay_service Let_def split: prod.splits)
        with m show ?thesis using that [of d3 r3] by blast
      next
        case (Some x)
        obtain r3 d3 where m: "(r3, d3) = retry config (tick_mark k) e (tick_token k) (tick_time k) x ?d2" by (metis surj_pair)
        then have "rl_service r' = ?s\<lparr>svc_db := d3, svc_metrics := ObserveRetry ''outbox'' (svc_metrics ?s)\<rparr>"
          using Some Inr send \<open>res = Inr e\<close> cl assms(2)
          by (auto simp: processOne_def set_relay_service Let_def swap split: prod.splits)
        with m show ?thesis using that [of d3 r3] by blast
      qed
    qed
    with mark obs show ?thesis by metis
  qed
qed

section \<open>A concrete worker\<close>

text \<open>The outbox of the opened wallet, worked off by a worker that meets no failure.\<close>

definition demo_relay :: Relay where
  "demo_relay = \<lparr>rl_service = demo_open, rl_client = \<lparr>cl_queueName = ''in'', cl_eventQueueName = ''ev'', cl_queueURL = [],
     cl_eventQueueURL = ''http://sqs/ev''\<rparr>, rl_sent = []\<rparr>"

definition demo_tick :: "send_outcome \<Rightarrow> outbox_tick" where
  "demo_tick send = \<lparr>tick_claim = tx_ok, tick_token = 900, tick_skip = [], tick_time = 10, tick_url = Inr None, tick_send = send,
     tick_interfere = id, tick_mark = tx_ok\<rparr>"

definition demo_config :: OutboxConfig where
  "demo_config = \<lparr>ob_PollInterval = 0, ob_BatchSize = 0, ob_MaxAttempts = 0, ob_Backoff = 5, ob_ClaimLease = 0\<rparr>"

definition demo_round :: outbox_round where
  "demo_round = \<lparr>round_lag = None, round_now = 10, round_ticks = (\<lambda>_. demo_tick SendOk), round_cancelled = False\<rparr>"

definition outbox_view :: "OutboxRecord list \<Rightarrow> (uuid \<times> OutboxStatus \<times> time \<times> time \<times> int) list" where
  "outbox_view = map (\<lambda>e. (O_EventID e, O_Status e, O_NextAttemptAt e, O_OccurredAt e, O_Attempts e))"

lemma demo_outbox: "outbox_view (db_outbox (svc_db demo_open)) = [(300, PENDING, 1, 1, 0), (400, PENDING, 1, 1, 0)]"
  by code_simp

lemma demo_events:
  obtains e f where "db_outbox (svc_db demo_open) = [e, f]" "O_EventID e = 300" "O_EventID f = 400"
    "O_Status e = PENDING" "O_Status f = PENDING" "O_NextAttemptAt e = 1" "O_NextAttemptAt f = 1"
    "O_OccurredAt e = 1" "O_OccurredAt f = 1" "O_Attempts e = 0" "O_Attempts f = 0"
  using demo_outbox by (auto simp: outbox_view_def map_eq_Cons_conv)

lemma demo_year: "year_ok 1"
  by (simp add: year_ok_def)

lemma demo_quiet: "quiet (demo_tick o1)"
  by (simp add: quiet_def demo_tick_def)

text \<open>The first event claimed.\<close>

lemma demo_claim:
  obtains e d where "outboxRepo_ClaimOneRecord 900 [] 10 5 (svc_db demo_open) = Inr (e, d)" "O_EventID e = 300"
    "map O_Status (db_outbox d) = [CLAIMED, PENDING]" "service_reachable example_externals (demo_open\<lparr>svc_db := d\<rparr>)"
proof -
  have "case outboxRepo_ClaimOneRecord 900 [] 10 5 (svc_db demo_open) of Inl _ \<Rightarrow> False
      | Inr (e, d) \<Rightarrow> O_EventID e = 300 \<and> map O_Status (db_outbox d) = [CLAIMED, PENDING]"
    by code_simp
  then obtain e d where c: "outboxRepo_ClaimOneRecord 900 [] 10 5 (svc_db demo_open) = Inr (e, d)" "O_EventID e = 300"
      "map O_Status (db_outbox d) = [CLAIMED, PENDING]"
    by (auto split: sum.splits)
  then have "service_step example_externals demo_open (demo_open\<lparr>svc_db := d\<rparr>)"
    by (intro step_claim [of tx_ok 900 "[]" 10 5]) (simp add: WithTx_ok)
  with demo_reachable(1) have "service_reachable example_externals (demo_open\<lparr>svc_db := d\<rparr>)" by (rule reach_step)
  with c show ?thesis by (rule that)
qed

section \<open>Properties\<close>

text \<open>C17: In every reachable state, under any interleaving of service calls and outbox workers with failing
  and ambiguous statements, an event that has been claimed, published or given up has only published
  predecessors in its aggregate: the published events of an aggregate are always its oldest ones. The
  claim columns are set exactly while the event is claimed, the publication time exactly when it is
  published.\<close>

theorem outbox_published_in_order:
  assumes "service_reachable E s" "e \<in> set (db_outbox (svc_db s))"
  shows "(O_Status e \<noteq> PENDING \<longrightarrow> (\<forall>p \<in> set (db_outbox (svc_db s)). O_AggregateID p = O_AggregateID e \<longrightarrow>
      O_OrderingID p < O_OrderingID e \<longrightarrow> O_Status p = PUBLISHED))
    \<and> (O_ClaimToken e \<noteq> None \<longleftrightarrow> O_Status e = CLAIMED) \<and> (O_ClaimedAt e \<noteq> None \<longleftrightarrow> O_Status e = CLAIMED)
    \<and> (O_PublishedAt e \<noteq> None \<longleftrightarrow> O_Status e = PUBLISHED)"
proof -
  have "relay_ok (svc_db s)" using reachable_bank [OF assms(1)] by (simp add: bank_inv_def)
  with assms(2) have e: "event_ok e" "O_Status e \<noteq> PENDING \<longrightarrow> predecessors_published (svc_db s) e" by (simp_all add: relay_ok_def)
  then show ?thesis by (auto simp: event_ok_def predecessors_published_def list_ex_iff)
qed

theorem outbox_published_in_order_witness:
  "\<exists>d :: db. map O_Status (db_outbox d) = [CLAIMED, PENDING] \<and> O_ClaimToken (hd (db_outbox d)) \<noteq> None"
proof -
  obtain e0 d where "outboxRepo_ClaimOneRecord 900 [] 10 5 (svc_db demo_open) = Inr (e0, d)" "O_EventID e0 = 300"
    and d: "map O_Status (db_outbox d) = [CLAIMED, PENDING]" "service_reachable example_externals (demo_open\<lparr>svc_db := d\<rparr>)"
    by (rule demo_claim)
  then obtain e f where e: "db_outbox d = [e, f]" "O_Status e = CLAIMED" by (auto simp: map_eq_Cons_conv)
  with outbox_published_in_order [OF d(2), of e] d(1) show ?thesis by (intro exI [of _ d]) simp
qed

text \<open>C18: A claim is exclusive until its lease expires, and worthless once another worker has taken the
  event over: from a claim at \<open>now\<close> on, in every later state in which that claim still stands, no
  claim before \<open>now + lease\<close> takes the event; and after any claim with another token, a mark
  with the old token is refused as a lost claim and changes nothing.\<close>

theorem outbox_claim_exclusive:
  assumes "service_reachable E s" "0 < lease" "lease \<le> max_int64"
    "outboxRepo_ClaimOneRecord token locked now lease (svc_db s) = Inr (e, d)"
  shows "(\<forall>token' locked' now' d' e' d''. e \<in> set (db_outbox d') \<longrightarrow> distinct (map O_EventID (db_outbox d')) \<longrightarrow> now' < now + lease \<longrightarrow>
      outboxRepo_ClaimOneRecord token' locked' now' lease d' = Inr (e', d'') \<longrightarrow> O_EventID e' \<noteq> O_EventID e)
    \<and> (\<forall>old publishedAt. old \<noteq> token \<longrightarrow> outboxRepo_MarkPublished tx_ok (O_EventID e) old publishedAt d = (Inl ErrOutboxClaimLost, d))
    \<and> (\<forall>old attempts nxt err m. old \<noteq> token \<longrightarrow>
        outboxRepo_MarkRetry tx_ok (O_EventID e) old attempts nxt err m d = (Inl ErrOutboxClaimLost, d))"
proof -
  have i: "bank_inv E (svc_db s)" using reachable_bank [OF assms(1)] by simp
  then have dist: "distinct (map O_EventID (db_outbox (svc_db s)))" by (simp add: bank_inv_def outbox_ok_def)
  from assms(4) obtain e0 where nx: "next_event locked now lease (svc_db s) = Some e0" and small: "O_Attempts e0 < 2147483647"
    by (auto simp: claim_eq claim_event_def split: option.splits if_splits)
  from claim_next [OF nx small dist, of token] assms(4) have e: "e = claimed_event now token e0"
    and d: "db_outbox d = with_event (O_EventID e0) e (db_outbox (svc_db s))" by auto
  have lost: "x \<in> set (db_outbox d) \<Longrightarrow> old \<noteq> token \<Longrightarrow> \<not> holds_claim (O_EventID e) old x" for x old
    unfolding d e by (auto simp: holds_claim_def)
  have neg: "wrap64 (- lease) = - lease" using assms(2,3) by (intro wrap64_id) (simp add: int64_defs)
  have excl: "O_EventID e' \<noteq> O_EventID e"
    if "e \<in> set (db_outbox d')" "distinct (map O_EventID (db_outbox d'))" "now' < now + lease"
      "outboxRepo_ClaimOneRecord token' locked' now' lease d' = Inr (e', d'')" for token' locked' now' d' e' d''
  proof
    assume same: "O_EventID e' = O_EventID e"
    from that(4) obtain x where x: "next_event locked' now' lease d' = Some x" "O_EventID e' = O_EventID x"
      by (auto simp: claim_eq claim_event_def split: option.splits if_splits)
    note xx = next_eventD [OF x(1)]
    with that(1,2) same x(2) have "x = e" by (auto simp: distinct_map inj_on_def)
    with xx that(3) show False unfolding e by (auto simp: claimable_def neg)
  qed
  have "outboxRepo_MarkPublished tx_ok (O_EventID e) old publishedAt d = (Inl ErrOutboxClaimLost, d)" if "old \<noteq> token" for old publishedAt
    unfolding outboxRepo_MarkPublished_def by (rule mark_lost) (use lost that in blast)
  moreover have "outboxRepo_MarkRetry tx_ok (O_EventID e) old attempts nxt err m d = (Inl ErrOutboxClaimLost, d)" if "old \<noteq> token"
    for old attempts nxt err m
    unfolding outboxRepo_MarkRetry_def Let_def by (rule mark_lost) (use lost that in blast)
  ultimately show ?thesis using excl by blast
qed

theorem outbox_claim_exclusive_witness:
  "\<exists>e d. outboxRepo_ClaimOneRecord 900 [] 10 5 (svc_db demo_open) = Inr (e, d) \<and> O_EventID e = 300
     \<and> outboxRepo_MarkPublished tx_ok 300 901 20 d = (Inl ErrOutboxClaimLost, d)"
proof -
  obtain e d where c: "outboxRepo_ClaimOneRecord 900 [] 10 5 (svc_db demo_open) = Inr (e, d)" "O_EventID e = 300"
    by (rule demo_claim) blast
  from outbox_claim_exclusive [OF demo_reachable(1) _ _ c(1)] c show ?thesis by (auto simp: int64_defs)
qed

text \<open>C19: One call of the worker in any reachable state, when the database answers and no other session
  interferes: with nothing to claim it reports no rows and changes nothing; otherwise exactly one event is
  touched, the claimable one with the least due time and identifier. It becomes PUBLISHED when its message is accepted, and its message
  is the only one sent; when the envelope or the publication fails it becomes PENDING again at the time the
  backoff gives for its attempts, or FAILED when the attempts reach the configured maximum.\<close>

theorem outbox_process_one:
  assumes "service_reachable E (rl_service r)" "quiet k" "processOne E config k r = (res, r')"
    "list_all (\<lambda>e. O_Attempts e < 2147483647) (db_outbox (relay_db r))"
  shows "case next_event (tick_skip k) (tick_time k) (ob_ClaimLease config) (relay_db r) of
      None \<Rightarrow> res = (False, Some ErrNoRows) \<and> r' = r
    | Some e \<Rightarrow> res = (True, None) \<and>
        (case marshalEnvelope E e of
           Inl err \<Rightarrow> rl_sent r' = rl_sent r \<and> relay_db r' = (relay_db r)\<lparr>db_outbox :=
             with_event (O_EventID e) (postponed_event config k err e) (db_outbox (relay_db r))\<rparr>
         | Inr body \<Rightarrow> (case Client_SendEvent (tick_url k) (tick_send k) body (uuid_String E (O_AggregateID e))
               (uuid_String E (O_EventID e)) (rl_client r) of (sendErr, ms, c) \<Rightarrow>
             rl_client r' = c \<and> rl_sent r' = rl_sent r @ ms \<and> relay_db r' = (relay_db r)\<lparr>db_outbox := with_event (O_EventID e)
               (case sendErr of None \<Rightarrow> published_event (tick_time k) (claimed_event (tick_time k) (tick_token k) e)
                | Some err \<Rightarrow> postponed_event config k err e) (db_outbox (relay_db r))\<rparr>))"
proof (cases "next_event (tick_skip k) (tick_time k) (ob_ClaimLease config) (relay_db r)")
  case None
  with assms(2,3) have "res = (False, Some ErrNoRows)" "r' = set_relay_db (relay_db r) r"
    by (auto simp: processOne_def claim_eq WithTx_ok quiet_def)
  with None show ?thesis by (simp add: set_relay_db_def)
next
  case (Some e)
  have "distinct (map O_EventID (db_outbox (relay_db r)))"
    using reachable_bank [OF assms(1)] by (simp add: bank_inv_def outbox_ok_def)
  moreover have "O_Attempts e < 2147483647" using next_eventD [OF Some] assms(4) by (simp add: list_all_iff)
  ultimately show ?thesis using processOne_quiet [OF assms(2) Some, of E] assms(3) Some
    by (simp add: marshal_claimed)
qed

theorem outbox_process_one_witness:
  "\<exists>r' e. processOne example_externals (ob_config (NewWorker demo_config)) (demo_tick (SendFailed ''down'')) demo_relay = ((True, None), r')
     \<and> rl_sent r' = [] \<and> e \<in> set (db_outbox (relay_db r')) \<and> O_EventID e = 300 \<and> O_Status e = PENDING \<and> O_NextAttemptAt e = 15"
proof -
  let ?k = "demo_tick (SendFailed ''down'')" and ?c = "ob_config (NewWorker demo_config)"
  obtain e f where e: "db_outbox (svc_db demo_open) = [e, f]" "O_EventID e = 300" "O_OccurredAt e = 1" "O_Attempts e = 0" "O_Attempts f = 0"
    by (rule demo_events) blast
  have nx: "next_event (tick_skip ?k) (tick_time ?k) (ob_ClaimLease ?c) (relay_db demo_relay) = Some e"
  proof -
    have "map_option O_EventID (next_event (tick_skip ?k) (tick_time ?k) (ob_ClaimLease ?c) (relay_db demo_relay)) = Some 300"
      by code_simp
    then obtain x where x: "next_event (tick_skip ?k) (tick_time ?k) (ob_ClaimLease ?c) (relay_db demo_relay) = Some x" "O_EventID x = 300"
      by auto
    have "O_EventID f = 400" using e(1) demo_outbox by (simp add: outbox_view_def)
    with next_eventD [OF x(1)] x e(1) show ?thesis by (auto simp: demo_relay_def)
  qed
  obtain res r' where p: "processOne example_externals ?c ?k demo_relay = (res, r')" by fastforce
  obtain body where "marshalEnvelope example_externals e = Inr body" using e(3) demo_year by (simp add: marshalEnvelope_def)
  moreover have "Client_SendEvent (tick_url ?k) (tick_send ?k) body g x (rl_client demo_relay) = (Some ''down'', [], rl_client demo_relay)" for g x
    by (simp add: Client_SendEvent_def Client_EventQueueURL_def demo_relay_def demo_tick_def Let_def)
  moreover have "O_NextAttemptAt (postponed_event ?c ?k ''down'' e) = 15" "O_Status (postponed_event ?c ?k ''down'' e) = PENDING"
    "O_EventID (postponed_event ?c ?k ''down'' e) = 300"
    using e by (simp_all add: postponed_event_def NewWorker_def demo_config_def demo_tick_def nextAttempt_def retried_event_def Let_def wrap64_def)
  moreover have "rl_sent demo_relay = []" "db_outbox (relay_db demo_relay) = [e, f]" using e by (simp_all add: demo_relay_def)
  ultimately show ?thesis
    using outbox_process_one [OF _ demo_quiet p] demo_reachable(1) e nx p by (auto simp: demo_relay_def)
qed

text \<open>C20: The loop of the worker, configured as \<open>NewWorker\<close> does, empties the outbox of any
  reachable state in which no event is claimed or given up and every one is due, provided the calls
  succeed: with as many rounds as there are unpublished events all of them are published, each is announced
  exactly once, and the announcements of an aggregate are sent in the order in which its events were
  written.\<close>

theorem outbox_drains:
  assumes "service_reachable E (rl_service r)" "cl_eventQueueURL (rl_client r) \<noteq> []" "list_all (fair_round now) rounds"
    "list_all (\<lambda>e. O_Status e = PUBLISHED \<or> (O_Status e = PENDING \<and> O_NextAttemptAt e \<le> now \<and> year_ok (O_OccurredAt e)
        \<and> O_Attempts e < 2147483647)) (db_outbox (relay_db r))"
    "length (filter (\<lambda>e. O_Status e \<noteq> PUBLISHED) (db_outbox (relay_db r))) \<le> length rounds"
  shows "\<exists>es ms. rl_sent (outbox_loop E (ob_config (NewWorker config)) rounds r) = rl_sent r @ ms \<and> list_all2 (announces E) ms es
    \<and> mset es = mset (filter (\<lambda>e. O_Status e \<noteq> PUBLISHED) (db_outbox (relay_db r)))
    \<and> sorted_wrt (\<lambda>a b. O_AggregateID a = O_AggregateID b \<longrightarrow> O_OrderingID a < O_OrderingID b) es
    \<and> (\<forall>e \<in> set (db_outbox (relay_db (outbox_loop E (ob_config (NewWorker config)) rounds r))). O_Status e = PUBLISHED)"
proof (rule loop_drains [OF _ assms(3) _ assms(5)])
  have o: "outbox_ok (relay_db r)" using reachable_bank [OF assms(1)] by (simp add: bank_inv_def)
  then have "distinct (map O_OrderingID (db_outbox (relay_db r)))" by (simp add: outbox_ok_def strict_sorted_iff)
  with o assms(2,4) show "drainable now r" by (auto simp: drainable_def outbox_ok_def list_all_iff)
  show "1 \<le> ob_BatchSize (ob_config (NewWorker config))" by (simp add: NewWorker_def Let_def)
qed

theorem outbox_drains_witness:
  "list_all (\<lambda>e. O_Status e = PUBLISHED)
     (db_outbox (relay_db (outbox_loop example_externals (ob_config (NewWorker demo_config)) [demo_round, demo_round] demo_relay)))"
proof -
  obtain e f where "db_outbox (svc_db demo_open) = [e, f]" "O_Status e = PENDING" "O_Status f = PENDING" "O_NextAttemptAt e = 1"
    "O_NextAttemptAt f = 1" "O_OccurredAt e = 1" "O_OccurredAt f = 1" "O_Attempts e = 0" "O_Attempts f = 0"
    by (rule demo_events) blast
  then have "list_all (\<lambda>e. O_Status e = PUBLISHED \<or> (O_Status e = PENDING \<and> O_NextAttemptAt e \<le> 10 \<and> year_ok (O_OccurredAt e)
      \<and> O_Attempts e < 2147483647)) (db_outbox (relay_db demo_relay))"
    "length (filter (\<lambda>e. O_Status e \<noteq> PUBLISHED) (db_outbox (relay_db demo_relay))) \<le> length [demo_round, demo_round]"
    by (simp_all add: demo_relay_def demo_year)
  moreover have "list_all (fair_round 10) [demo_round, demo_round]"
    by (simp add: fair_round_def fair_def demo_round_def demo_quiet) (simp add: demo_tick_def)
  moreover have "service_reachable example_externals (rl_service demo_relay)" "cl_eventQueueURL (rl_client demo_relay) \<noteq> []"
    using demo_reachable(1) by (simp_all add: demo_relay_def)
  ultimately show ?thesis using outbox_drains [of example_externals demo_relay 10 "[demo_round, demo_round]" demo_config]
    unfolding list_all_iff [of _ "db_outbox (relay_db (outbox_loop example_externals (ob_config (NewWorker demo_config)) [demo_round, demo_round] demo_relay))"]
    by blast
qed

text \<open>C39: The delays of the two workers. A retry is never scheduled in the past. While the base doubled thirty
  times is an \<open>int64\<close>, attempt \<open>k\<close> waits exactly the base doubled \<open>k - 1\<close> times, thirty at most, so that the
  delays grow and stay bounded. With a larger base the product wraps around, and only a negative one is
  caught: a base of 2^34 nanoseconds gives attempt 31 and all later ones no delay.\<close>

theorem retry_schedule:
  assumes "f = nextReferenceAttempt \<or> f = nextAttempt"
  shows "now \<le> f now base k
    \<and> (0 < base \<and> base * 2 ^ 30 \<le> max_int64 \<longrightarrow> f now base k = now + base * 2 ^ nat (max 0 (min 30 (k - 1)))
        \<and> (k \<le> l \<longrightarrow> f now base k \<le> f now base l) \<and> f now base k \<le> now + base * 2 ^ 30)
    \<and> (31 \<le> k \<longrightarrow> f now (2 ^ 34) k = now)"
proof -
  have fits: "base * 2 ^ nat (clamp_shift k) \<le> max_int64" if "0 < base" "base * 2 ^ 30 \<le> max_int64"
    using outbox_backoff.power_clamp [OF that(1), of k] that(2) by linarith
  have wraps: "f now (2 ^ 34) k = now" if "31 \<le> k"
    using that assms by (auto simp: outbox_backoff.nxt_pos reference_backoff.nxt_pos clamp_shift_def wrap64_def min_def Let_def)
  from assms show ?thesis
  proof
    assume f: "f = nextReferenceAttempt"
    show ?thesis
      using wraps reference_backoff.not_before reference_backoff.mono [of base k l now] reference_backoff.mono [of base k k now]
        reference_backoff.exact [OF _ fits, of now] unfolding f clamp_shift_def by blast
  next
    assume f: "f = nextAttempt"
    show ?thesis
      using wraps outbox_backoff.not_before outbox_backoff.mono [of base k l now] outbox_backoff.mono [of base k k now]
        outbox_backoff.exact [OF _ fits, of now] unfolding f clamp_shift_def by blast
  qed
qed

theorem retry_schedule_witness: "nextAttempt 5 1000 4 = 8005 \<and> nextAttempt 5 (2 ^ 34) 40 = 5"
  using retry_schedule [of nextAttempt 5 1000 4 4] retry_schedule [of nextAttempt 5 1000 40 40] by (simp add: max_int64_def)

end
