(* ===== verification/Go_Library.thy ===== *)
theory Go_Library
  imports Prelude
begin

text \<open>
  What the adapters use of Go's standard library: \<^verbatim>\<open>strings.TrimSpace\<close>,
  \<^verbatim>\<open>strings.Split\<close>, \<^verbatim>\<open>strconv.Atoi\<close>, \<^verbatim>\<open>strconv.ParseBool\<close>,
  \<^verbatim>\<open>time.ParseDuration\<close>, the unpadded URL alphabet of \<^verbatim>\<open>encoding/base64\<close> and the
  way \<^verbatim>\<open>encoding/json\<close> stores a document in a struct. A string is the list of its bytes.
\<close>

section \<open>Strings\<close>

text \<open>The UTF-8 encodings of the runes \<^verbatim>\<open>unicode.IsSpace\<close> accepts.\<close>

definition space_runes :: "string list" where
  "space_runes = [[CHR 0x09], [CHR 0x0A], [CHR 0x0B], [CHR 0x0C], [CHR 0x0D], [CHR 0x20],
     [CHR 0xC2, CHR 0x85], [CHR 0xC2, CHR 0xA0], [CHR 0xE1, CHR 0x9A, CHR 0x80],
     [CHR 0xE2, CHR 0x80, CHR 0x80], [CHR 0xE2, CHR 0x80, CHR 0x81], [CHR 0xE2, CHR 0x80, CHR 0x82],
     [CHR 0xE2, CHR 0x80, CHR 0x83], [CHR 0xE2, CHR 0x80, CHR 0x84], [CHR 0xE2, CHR 0x80, CHR 0x85],
     [CHR 0xE2, CHR 0x80, CHR 0x86], [CHR 0xE2, CHR 0x80, CHR 0x87], [CHR 0xE2, CHR 0x80, CHR 0x88],
     [CHR 0xE2, CHR 0x80, CHR 0x89], [CHR 0xE2, CHR 0x80, CHR 0x8A], [CHR 0xE2, CHR 0x80, CHR 0xA8],
     [CHR 0xE2, CHR 0x80, CHR 0xA9], [CHR 0xE2, CHR 0x80, CHR 0xAF], [CHR 0xE2, CHR 0x81, CHR 0x9F],
     [CHR 0xE3, CHR 0x80, CHR 0x80]]"

definition leading :: "string list \<Rightarrow> string \<Rightarrow> string option" where
  "leading ps s = find (\<lambda>p. p \<noteq> [] \<and> take (length p) s = p) ps"

lemma leading_Some:
  assumes "leading ps s = Some p"
  shows "p \<in> set ps \<and> p \<noteq> [] \<and> s = p @ drop (length p) s"
proof -
  have "p \<in> set ps" "p \<noteq> []" "take (length p) s = p" using assms find_SomeD unfolding leading_def by fast+
  then show ?thesis by (metis append_take_drop_id)
qed

lemma leading_None: "leading ps s = None \<longleftrightarrow> (\<forall>p \<in> set ps. p \<noteq> [] \<longrightarrow> take (length p) s \<noteq> p)"
  by (auto simp: leading_def find_None_iff)

function strip_leading :: "string list \<Rightarrow> string \<Rightarrow> string" where
  "strip_leading ps s = (case leading ps s of None \<Rightarrow> s | Some p \<Rightarrow> strip_leading ps (drop (length p) s))"
  by pat_completeness auto
termination
proof (relation "measure (length \<circ> snd)")
  fix ps s p assume "leading ps s = Some p"
  then have "p \<noteq> []" "s = p @ drop (length p) s" by (auto dest: leading_Some)
  then have "0 < length p" "length s = length p + length (drop (length p) s)" by (simp, metis length_append)
  then have "length (drop (length p) s) < length s" by linarith
  then show "((ps, drop (length p) s), (ps, s)) \<in> measure (length \<circ> snd)" by simp
qed simp

declare strip_leading.simps [simp del]

definition TrimSpace :: "string \<Rightarrow> string" where
  "TrimSpace s = rev (strip_leading (map rev space_runes) (rev (strip_leading space_runes s)))"

text \<open>\<^verbatim>\<open>strings.Trim(s, "/")\<close> and \<^verbatim>\<open>strings.Split(s, "/")\<close> with the separator as argument.\<close>

definition trim_char :: "char \<Rightarrow> string \<Rightarrow> string" where
  "trim_char c s = rev (dropWhile (\<lambda>x. x = c) (rev (dropWhile (\<lambda>x. x = c) s)))"

fun split_on :: "char \<Rightarrow> string \<Rightarrow> string list" where
  "split_on c [] = [[]]"
| "split_on c (x # s) = (if x = c then [] # split_on c s else case split_on c s of [] \<Rightarrow> [[x]] | p # ps \<Rightarrow> (x # p) # ps)"

section \<open>Numbers\<close>

definition go_Atoi :: "string \<Rightarrow> int option" where
  "go_Atoi s =
     (let neg = (take 1 s = ''-''); ds = (if take 1 s = ''-'' \<or> take 1 s = ''+'' then drop 1 s else s);
          v = dec_value 0 ds; x = (if neg then - v else v)
      in if ds = [] \<or> \<not> list_all is_digit ds \<or> \<not> int64_ok x then None else Some x)"

definition go_ParseBool :: "string \<Rightarrow> bool option" where
  "go_ParseBool s =
     (if s \<in> set [''1'', ''t'', ''T'', ''TRUE'', ''true'', ''True''] then Some True
      else if s \<in> set [''0'', ''f'', ''F'', ''FALSE'', ''false'', ''False''] then Some False
      else None)"

text \<open>
  \<^verbatim>\<open>time.ParseDuration\<close>. The part of a fraction is computed in floating point:
  \<open>frac f unit scale\<close> is \<^verbatim>\<open>uint64(float64(f) * (float64(unit) / scale))\<close>.
\<close>

definition duration_unit :: "string \<Rightarrow> int option" where
  "duration_unit u = map_of [(''ns'', 1), (''us'', 1000), ([CHR 0xC2, CHR 0xB5, CHR ''s''], 1000),
     ([CHR 0xCE, CHR 0xBC, CHR ''s''], 1000), (''ms'', 1000000), (''s'', 1000000000), (''m'', 60000000000),
     (''h'', 3600000000000)] u"

fun leadingFraction :: "int \<Rightarrow> nat \<Rightarrow> string \<Rightarrow> int \<times> nat" where
  "leadingFraction f k [] = (f, k)"
| "leadingFraction f k (c # s) =
     (if f > 922337203685477580 \<or> f * 10 + digit_value c > 9223372036854775808 then (f, k)
      else leadingFraction (f * 10 + digit_value c) (k + 1) s)"

definition unit_char :: "char \<Rightarrow> bool" where
  "unit_char c \<longleftrightarrow> c \<noteq> CHR ''.'' \<and> \<not> is_digit c"

text \<open>One number with its unit: the nanoseconds and the rest of the text.\<close>

definition duration_part :: "(int \<Rightarrow> int \<Rightarrow> int \<Rightarrow> int) \<Rightarrow> string \<Rightarrow> (int \<times> string) option" where
  "duration_part frac s =
     (let whole = takeWhile is_digit s; s1 = dropWhile is_digit s;
          dot = (take 1 s1 = ''.''); s2 = (if dot then drop 1 s1 else s1);
          fraction = (if dot then takeWhile is_digit s2 else []); s3 = (if dot then dropWhile is_digit s2 else s2);
          v = dec_value 0 whole; (f, k) = leadingFraction 0 0 fraction;
          u = takeWhile unit_char s3
      in if v > 9223372036854775808 \<or> (whole = [] \<and> fraction = []) then None
         else case duration_unit u of
           None \<Rightarrow> None
         | Some unit \<Rightarrow>
             let w = v * unit + (if f > 0 then frac f unit (10 ^ k) else 0)
             in if v > 9223372036854775808 div unit \<or> w > 9223372036854775808 then None
                else Some (w, dropWhile unit_char s3))"

lemma duration_part_shorter:
  assumes "duration_part frac s = Some (w, rest)"
  shows "length rest < length s"
proof -
  let ?s1 = "dropWhile is_digit s"
  let ?s3 = "if take 1 ?s1 = ''.'' then dropWhile is_digit (drop 1 ?s1) else ?s1"
  have "length ?s1 \<le> length s" by (rule length_dropWhile_le)
  moreover have "length (dropWhile is_digit (drop 1 ?s1)) \<le> length ?s1"
    using length_dropWhile_le [of is_digit "drop 1 ?s1"] by simp
  ultimately have "length ?s3 \<le> length s" by auto
  moreover from assms have "takeWhile unit_char ?s3 \<noteq> []" and rest: "rest = dropWhile unit_char ?s3"
    by (auto simp: duration_part_def duration_unit_def Let_def split: prod.splits option.splits if_splits)
  then have "length rest < length ?s3"
    using arg_cong [OF takeWhile_dropWhile_id [of unit_char ?s3], of length] unfolding rest
    by (metis length_append length_greater_0_conv less_add_same_cancel2)
  ultimately show ?thesis by simp
qed

function duration_parts :: "(int \<Rightarrow> int \<Rightarrow> int \<Rightarrow> int) \<Rightarrow> int \<Rightarrow> string \<Rightarrow> int option" where
  "duration_parts frac d s =
     (if s = [] then Some d
      else case duration_part frac s of
        None \<Rightarrow> None
      | Some (w, rest) \<Rightarrow> if d + w > 9223372036854775808 then None else duration_parts frac (d + w) rest)"
  by pat_completeness auto
termination by (relation "measure (\<lambda>(_, _, s). length s)") (auto dest: duration_part_shorter)

declare duration_parts.simps [simp del]

definition go_ParseDuration :: "(int \<Rightarrow> int \<Rightarrow> int \<Rightarrow> int) \<Rightarrow> string \<Rightarrow> duration option" where
  "go_ParseDuration frac s =
     (let neg = (take 1 s = ''-''); s1 = (if take 1 s = ''-'' \<or> take 1 s = ''+'' then drop 1 s else s)
      in if s1 = ''0'' then Some 0
         else if s1 = [] then None
         else case duration_parts frac 0 s1 of
           None \<Rightarrow> None
         | Some d \<Rightarrow> if neg then Some (- d) else if d > max_int64 then None else Some d)"

section \<open>Unpadded base64 with the URL alphabet\<close>

definition base64_alphabet :: string where
  "base64_alphabet = ''ABCDEFGHIJKLMNOPQRSTUVWXYZabcdefghijklmnopqrstuvwxyz0123456789-_''"

definition sextet_char :: "nat \<Rightarrow> char" where
  "sextet_char n = base64_alphabet ! n"

definition sextet_value :: "char \<Rightarrow> nat option" where
  "sextet_value c = map_of (zip base64_alphabet [0..<64]) c"

fun sextets :: "nat list \<Rightarrow> nat list" where
  "sextets [] = []"
| "sextets [a] = [a div 4, a mod 4 * 16]"
| "sextets [a, b] = [a div 4, a mod 4 * 16 + b div 16, b mod 16 * 4]"
| "sextets (a # b # c # s) = [a div 4, a mod 4 * 16 + b div 16, b mod 16 * 4 + c div 64, c mod 64] @ sextets s"

fun octets :: "nat list \<Rightarrow> nat list option" where
  "octets [] = Some []"
| "octets [x] = None"
| "octets [x, y] = Some [x * 4 + y div 16]"
| "octets [x, y, z] = Some [x * 4 + y div 16, y mod 16 * 16 + z div 4]"
| "octets (x # y # z # w # s) =
     map_option (\<lambda>r. [x * 4 + y div 16, y mod 16 * 16 + z div 4, z mod 4 * 64 + w] @ r) (octets s)"

definition base64_Encode :: "string \<Rightarrow> string" where
  "base64_Encode s = map sextet_char (sextets (map of_char s))"

text \<open>The decoder skips line breaks.\<close>

definition base64_Decode :: "string \<Rightarrow> string option" where
  "base64_Decode s =
     (let vs = map sextet_value (filter (\<lambda>c. c \<noteq> CHR 0x0A \<and> c \<noteq> CHR 0x0D) s)
      in if None \<in> set vs then None else map_option (map char_of) (octets (map the vs)))"

lemma sextet_char_props:
  assumes "n < 64"
  shows "sextet_value (sextet_char n) = Some n" "sextet_char n \<noteq> CHR 0x0A" "sextet_char n \<noteq> CHR 0x0D"
proof -
  have "list_all (\<lambda>n. sextet_value (sextet_char n) = Some n \<and> sextet_char n \<noteq> CHR 0x0A \<and> sextet_char n \<noteq> CHR 0x0D) [0..<64]"
    by code_simp
  with assms show "sextet_value (sextet_char n) = Some n" "sextet_char n \<noteq> CHR 0x0A" "sextet_char n \<noteq> CHR 0x0D"
    by (auto simp: list_all_iff)
qed

lemma sextets_octets: "list_all (\<lambda>b. b < 256) bs \<Longrightarrow> octets (sextets bs) = Some bs \<and> list_all (\<lambda>x. x < 64) (sextets bs)"
proof (induction bs rule: sextets.induct)
  case (2 a)
  then show ?case by (auto simp: less_mult_imp_div_less)
next
  case (3 a b)
  have "(a mod 4 * 16 + b div 16) mod 16 * 16 + b mod 16 * 4 div 4 = b" using 3 by (simp add: less_mult_imp_div_less)
  moreover have "a div 4 * 4 + (a mod 4 * 16 + b div 16) div 16 = a" using 3 by (simp add: less_mult_imp_div_less)
  ultimately show ?case using 3 by (auto simp: less_mult_imp_div_less)
next
  case (4 a b c s)
  then have *: "a < 256" "b < 256" "c < 256" by simp_all
  have "a div 4 * 4 + (a mod 4 * 16 + b div 16) div 16 = a" using * by (simp add: less_mult_imp_div_less)
  moreover have "(a mod 4 * 16 + b div 16) mod 16 * 16 + (b mod 16 * 4 + c div 64) div 4 = b" using * by (simp add: less_mult_imp_div_less)
  moreover have "(b mod 16 * 4 + c div 64) mod 4 * 64 + c mod 64 = c" using * by (simp add: less_mult_imp_div_less)
  moreover have "a mod 4 * 16 + b div 16 < 64" "b mod 16 * 4 + c div 64 < 64" using * by linarith+
  ultimately show ?case using 4 * by (simp add: less_mult_imp_div_less)
qed simp

lemma base64_roundtrip: "base64_Decode (base64_Encode s) = Some s"
proof -
  let ?bs = "map of_char s :: nat list"
  have "list_all (\<lambda>b. b < 256) ?bs" by (auto simp: list_all_iff)
  note o = sextets_octets [OF this]
  have keep: "filter (\<lambda>c. c \<noteq> CHR 0x0A \<and> c \<noteq> CHR 0x0D) (base64_Encode s) = base64_Encode s"
    using o sextet_char_props(2,3) by (auto simp: filter_id_conv base64_Encode_def list_all_iff)
  have "map sextet_value (base64_Encode s) = map Some (sextets ?bs)"
    using o sextet_char_props(1) by (simp add: base64_Encode_def list_all_iff)
  then show ?thesis using keep o by (simp add: base64_Decode_def Let_def comp_def)
qed

section \<open>JSON into a struct\<close>

text \<open>
  \<^verbatim>\<open>encoding/json\<close> finds the field of a member by its exact name or else by its folded name:
  upper case, with the two runes outside ASCII that fold to a letter of it.
\<close>

function foldName :: "string \<Rightarrow> string" where
  "foldName s =
     (case s of
        [] \<Rightarrow> []
      | a # r \<Rightarrow>
          if a = CHR 0xE2 \<and> take 2 r = [CHR 0x84, CHR 0xAA] then CHR ''K'' # foldName (drop 2 r)
          else if a = CHR 0xC5 \<and> take 1 r = [CHR 0xBF] then CHR ''S'' # foldName (drop 1 r)
          else (if 97 \<le> (of_char a :: nat) \<and> (of_char a :: nat) \<le> 122 then char_of (of_char a - 32 :: nat) else a) # foldName r)"
  by pat_completeness auto
termination by (relation "measure length") auto

declare foldName.simps [simp del]

type_synonym 'r fields = "(string \<times> ('r \<Rightarrow> json \<Rightarrow> 'r result)) list"

definition field_for :: "'r fields \<Rightarrow> string \<Rightarrow> ('r \<Rightarrow> json \<Rightarrow> 'r result) option" where
  "field_for fields k =
     (case map_of fields k of
        Some f \<Rightarrow> Some f
      | None \<Rightarrow> map_option snd (find (\<lambda>(n, _). foldName n = foldName k) fields))"

text \<open>
  A struct takes its members in order and null leaves what is there; a member without a field is an error
  if unknown fields are disallowed (\<open>strict\<close>).
\<close>

fun decode_members :: "bool \<Rightarrow> 'r fields \<Rightarrow> 'r \<Rightarrow> (string \<times> json) list \<Rightarrow> 'r result" where
  "decode_members strict fields r [] = Inr r"
| "decode_members strict fields r ((k, v) # ms) =
     (case field_for fields k of
        None \<Rightarrow> if strict then Inl ErrInvalidJSON else decode_members strict fields r ms
      | Some f \<Rightarrow> bindR (f r v) (\<lambda>r'. decode_members strict fields r' ms))"

definition decode_struct :: "bool \<Rightarrow> 'r fields \<Rightarrow> 'r \<Rightarrow> json \<Rightarrow> 'r result" where
  "decode_struct strict fields r v =
     (case v of JNull \<Rightarrow> Inr r | JObject ms \<Rightarrow> decode_members strict fields r ms | _ \<Rightarrow> Inl ErrInvalidJSON)"

definition string_field :: "(string \<Rightarrow> 'r \<Rightarrow> 'r) \<Rightarrow> 'r \<Rightarrow> json \<Rightarrow> 'r result" where
  "string_field upd r v = (case v of JNull \<Rightarrow> Inr r | JString s \<Rightarrow> Inr (upd s r) | _ \<Rightarrow> Inl ErrInvalidJSON)"

definition struct_field :: "bool \<Rightarrow> 's fields \<Rightarrow> ('r \<Rightarrow> 's) \<Rightarrow> ('s \<Rightarrow> 'r \<Rightarrow> 'r) \<Rightarrow> 'r \<Rightarrow> json \<Rightarrow> 'r result" where
  "struct_field strict fields get upd r v = bindR (decode_struct strict fields (get r) v) (\<lambda>x. Inr (upd x r))"

text \<open>
  What a \<^verbatim>\<open>json.Decoder\<close> reads from a text: its documents in turn, up to the end of the text or
  to a place where no document can be read.
\<close>

datatype json_stream = StreamEOF | StreamError | StreamDoc json json_stream

definition decode_single :: "(json \<Rightarrow> 'r result) \<Rightarrow> error \<Rightarrow> json_stream \<Rightarrow> 'r result" where
  "decode_single dec err body =
     (case body of
        StreamDoc j rest \<Rightarrow>
          (case dec j of
             Inl _ \<Rightarrow> Inl err
           | Inr r \<Rightarrow> if rest = StreamEOF then Inr r else Inl err)
      | _ \<Rightarrow> Inl err)"

end
