(* ===== verification/Messaging.thy ===== *)
theory Messaging
  imports Financial Sqs Go_Library
begin

text \<open>
  The SQS transport: \<^verbatim>\<open>internal/transport/messaging\<close>. \<open>DecodeMessage\<close> of
  \<^verbatim>\<open>envelope.go\<close> turns a message body into a command, and the consumer of
  \<^verbatim>\<open>consumer.go\<close> polls the queue, processes each message and deletes it, postpones it or releases it.
  The calls the consumer makes on the queue are the list \<open>cn_calls\<close>; what the broker, the clock and the
  shutdown do to it is an argument.
\<close>

section \<open>Envelope\<close>

record moneyWire =
  wire_Amount :: string
  wire_Currency :: string

record messageTransaction =
  mt_ProviderID :: string
  mt_ExternalID :: string
  mt_IdempotencyKey :: string
  mt_PlayerID :: string
  mt_WalletID :: string
  mt_RoundID :: string
  mt_GameID :: string
  mt_Kind :: string
  mt_ReferenceExternalID :: string
  mt_Money :: moneyWire

record messageEnvelope =
  me_MessageID :: string
  me_Type :: string
  me_OccurredAt :: string
  me_Data :: messageTransaction

definition moneyWire_fields :: "moneyWire fields" where
  "moneyWire_fields =
     [(''amount'', string_field (\<lambda>s. wire_Amount_update (\<lambda>_. s))), (''currency'', string_field (\<lambda>s. wire_Currency_update (\<lambda>_. s)))]"

definition messageTransaction_fields :: "messageTransaction fields" where
  "messageTransaction_fields =
     [(''providerId'', string_field (\<lambda>s. mt_ProviderID_update (\<lambda>_. s))),
      (''externalTransactionId'', string_field (\<lambda>s. mt_ExternalID_update (\<lambda>_. s))),
      (''idempotencyKey'', string_field (\<lambda>s. mt_IdempotencyKey_update (\<lambda>_. s))),
      (''playerId'', string_field (\<lambda>s. mt_PlayerID_update (\<lambda>_. s))),
      (''walletId'', string_field (\<lambda>s. mt_WalletID_update (\<lambda>_. s))),
      (''roundId'', string_field (\<lambda>s. mt_RoundID_update (\<lambda>_. s))),
      (''gameId'', string_field (\<lambda>s. mt_GameID_update (\<lambda>_. s))),
      (''kind'', string_field (\<lambda>s. mt_Kind_update (\<lambda>_. s))),
      (''referenceExternalTransactionId'', string_field (\<lambda>s. mt_ReferenceExternalID_update (\<lambda>_. s))),
      (''money'', struct_field True moneyWire_fields mt_Money (\<lambda>m. mt_Money_update (\<lambda>_. m)))]"

definition messageEnvelope_fields :: "messageEnvelope fields" where
  "messageEnvelope_fields =
     [(''messageId'', string_field (\<lambda>s. me_MessageID_update (\<lambda>_. s))),
      (''type'', string_field (\<lambda>s. me_Type_update (\<lambda>_. s))),
      (''occurredAt'', string_field (\<lambda>s. me_OccurredAt_update (\<lambda>_. s))),
      (''data'', struct_field True messageTransaction_fields me_Data (\<lambda>m. me_Data_update (\<lambda>_. m)))]"

definition zero_envelope :: messageEnvelope where
  "zero_envelope = \<lparr>me_MessageID = [], me_Type = [], me_OccurredAt = [], me_Data = \<lparr>mt_ProviderID = [], mt_ExternalID = [],
     mt_IdempotencyKey = [], mt_PlayerID = [], mt_WalletID = [], mt_RoundID = [], mt_GameID = [], mt_Kind = [],
     mt_ReferenceExternalID = [], mt_Money = \<lparr>wire_Amount = [], wire_Currency = []\<rparr>\<rparr>\<rparr>"

record DecodedMessage =
  dm_MessageID :: string
  dm_OccurredAt :: time
  dm_Command :: Command
  dm_PayloadHash :: string

definition wagerTransactionRequested :: string where
  "wagerTransactionRequested = ''WagerTransactionRequested''"

definition messageType :: "string \<Rightarrow> Type result" where
  "messageType raw =
     (let k = Type_of_string (TrimSpace raw)
      in if k \<in> set [Bet, Win, Loss, Refund, Rollback] then Inr k
         else if k = Opening then Inl ErrMalformedMessage
         else Inl ErrUnsupportedMessageType)"

text \<open>\<open>newID\<close> is the identifier drawn for the command; the loop over the required fields is over a map,
  so only the class of its error is determined.\<close>

definition DecodeMessage :: "externals \<Rightarrow> uuid \<Rightarrow> json_stream \<Rightarrow> DecodedMessage result" where
  "DecodeMessage E newID body =
     bindR (decode_single (decode_struct True messageEnvelope_fields zero_envelope) ErrMalformedMessage body) (\<lambda>envelope.
       let messageID = TrimSpace (me_MessageID envelope); data = me_Data envelope
       in if messageID = [] then Inl ErrMalformedMessage
          else if TrimSpace (me_Type envelope) \<noteq> wagerTransactionRequested then Inl ErrUnsupportedMessageType
          else case time_Parse E (TrimSpace (me_OccurredAt envelope)) of
            None \<Rightarrow> Inl ErrMalformedMessage
          | Some occurredAt \<Rightarrow>
              let providerID = TrimSpace (mt_ProviderID data); externalID = TrimSpace (mt_ExternalID data);
                  idempotencyKey = TrimSpace (mt_IdempotencyKey data); playerID = TrimSpace (mt_PlayerID data);
                  roundID = TrimSpace (mt_RoundID data); gameID = TrimSpace (mt_GameID data)
              in if [] \<in> set [providerID, externalID, idempotencyKey, playerID, roundID, gameID] then Inl ErrMalformedMessage
                 else case uuid_Parse E (TrimSpace (mt_WalletID data)) of
                   None \<Rightarrow> Inl ErrMalformedMessage
                 | Some walletID \<Rightarrow>
                     (case money_New (wire_Amount (mt_Money data)) (wire_Currency (mt_Money data)) of
                        Inl _ \<Rightarrow> Inl ErrMalformedMessage
                      | Inr amount \<Rightarrow>
                          bindR (messageType (mt_Kind data)) (\<lambda>k.
                            let command = \<lparr>C_ID = newID, C_WalletID = walletID, C_ExternalID = externalID, C_ProviderID = providerID,
                                  C_PlayerID = playerID, C_GameID = gameID, C_RoundID = roundID, C_IdempotencyKey = idempotencyKey,
                                  C_PayloadHash = [], C_ReferenceExternalID = TrimSpace (mt_ReferenceExternalID data),
                                  C_Type = k, C_Amount = amount\<rparr>
                            in case canonicalPayloadHash E command of
                                 Inl _ \<Rightarrow> Inl ErrMalformedMessage
                               | Inr payloadHash \<Rightarrow>
                                   Inr \<lparr>dm_MessageID = messageID, dm_OccurredAt = occurredAt, dm_Command = command,
                                        dm_PayloadHash = payloadHash\<rparr>)))"

section \<open>Consumer\<close>

definition defaultConsumerName :: string where
  "defaultConsumerName = ''wager-transaction-consumer''"

record ConsumerConfig =
  cc_ConsumerName :: string
  cc_VisibilityTimeout :: duration
  cc_WaitTime :: duration
  cc_MaxMessages :: int
  cc_RetryVisibilityBackoff :: duration
  cc_MaxReceiveCount :: int

datatype consumer_run = ConsumerRunning | ConsumerCancelled

record Consumer =
  cn_config :: ConsumerConfig
  cn_active :: "consumer_run option"

definition NewConsumer :: "ConsumerConfig \<Rightarrow> Consumer" where
  "NewConsumer config =
     (let c1 = (if cc_ConsumerName config = [] then config\<lparr>cc_ConsumerName := defaultConsumerName\<rparr> else config);
          c2 = (if cc_MaxMessages c1 \<le> 0 \<or> cc_MaxMessages c1 > 10 then c1\<lparr>cc_MaxMessages := 1\<rparr> else c1);
          c3 = (if cc_WaitTime c2 < 0 \<or> cc_WaitTime c2 > 20 * 1000000000 then c2\<lparr>cc_WaitTime := 10 * 1000000000\<rparr> else c2);
          c4 = (if cc_VisibilityTimeout c3 \<le> 0 then c3\<lparr>cc_VisibilityTimeout := 30 * 1000000000\<rparr> else c3);
          c5 = (if cc_RetryVisibilityBackoff c4 < 0 then c4\<lparr>cc_RetryVisibilityBackoff := 0\<rparr> else c4)
      in \<lparr>cn_config = c5, cn_active = None\<rparr>)"

definition Consumer_Start :: "error option \<Rightarrow> Consumer \<Rightarrow> error option \<times> Consumer" where
  "Consumer_Start ctxErr c =
     (case ctxErr of
        Some e \<Rightarrow> (Some e, c)
      | None \<Rightarrow> if cn_active c \<noteq> None then (Some (ErrExternal ''SQS consumer already started''), c)
                else (None, c\<lparr>cn_active := Some ConsumerRunning\<rparr>))"

definition Consumer_Stop :: "bool \<Rightarrow> error \<Rightarrow> Consumer \<Rightarrow> error option \<times> Consumer" where
  "Consumer_Stop finished ctxErr c =
     (case cn_active c of
        None \<Rightarrow> (None, c)
      | Some _ \<Rightarrow> if finished then (None, c\<lparr>cn_active := None\<rparr>)
                 else (Some ctxErr, c\<lparr>cn_active := Some ConsumerCancelled\<rparr>))"

text \<open>A received message: the receipt handle, the receive count attribute (empty when it is missing) and
  the documents of its body.\<close>

record sqs_message =
  sq_ReceiptHandle :: "string option"
  sq_ReceiveCount :: string
  sq_Body :: json_stream

datatype queue_call = DeleteMessage string string | ChangeMessageVisibility string string int

record ConsumerState =
  cn_service :: Service
  cn_client :: Client
  cn_calls :: "queue_call list"

definition call_queue :: "queue_call \<Rightarrow> ConsumerState \<Rightarrow> ConsumerState" where
  "call_queue c s = s\<lparr>cn_calls := cn_calls s @ [c]\<rparr>"

definition observe :: "(Metrics option \<Rightarrow> Metrics option) \<Rightarrow> ConsumerState \<Rightarrow> ConsumerState" where
  "observe f s = s\<lparr>cn_service := (cn_service s)\<lparr>svc_metrics := f (svc_metrics (cn_service s))\<rparr>\<rparr>"

text \<open>What one message meets: the drawn identifiers, the transaction, the clock, whether the consumer has
  been cancelled when processing or deleting fails, and the error of the delete.\<close>

record delivery =
  dl_newID :: uuid
  dl_tx :: tx_env
  dl_draws :: draws
  dl_views :: views
  dl_now :: time
  dl_elapsed :: duration
  dl_cancelled :: bool
  dl_delete :: "string option"

definition stringValue :: "string option \<Rightarrow> string" where
  "stringValue v = (case v of None \<Rightarrow> [] | Some s \<Rightarrow> s)"

definition receiveAttempt :: "sqs_message \<Rightarrow> int" where
  "receiveAttempt m =
     (case go_Atoi (sq_ReceiveCount m) of None \<Rightarrow> 1 | Some attempt \<Rightarrow> if attempt < 1 then 1 else attempt)"

definition maxDuration :: "duration \<Rightarrow> duration \<Rightarrow> duration" where
  "maxDuration left right = (if left > right then left else right)"

definition retryDelay :: "duration \<Rightarrow> int \<Rightarrow> duration \<Rightarrow> duration" where
  "retryDelay base attempt visibility =
     (if base \<le> 0 \<or> visibility \<le> 0 then 0
      else
        let attempt1 = (if attempt < 1 then 1 else attempt);
            shift0 = attempt1 - 1;
            shift = (if shift0 > 30 then 30 else shift0);
            delay = wrap64 (base * 2 ^ nat shift)
        in if delay < 0 \<or> delay > visibility - 1000000000 then maxDuration 0 (visibility - 1000000000) else delay)"

text \<open>The conversion to \<^verbatim>\<open>int32\<close>.\<close>

definition wrap32 :: "int \<Rightarrow> int" where
  "wrap32 x = (x + 2147483648) mod 4294967296 - 2147483648"

definition retry_visibility :: "duration \<Rightarrow> int" where
  "retry_visibility delay =
     (let visibility = wrap32 (go_quot delay 1000000000) in if delay > 0 \<and> visibility = 0 then 1 else visibility)"

definition Consumer_retry :: "ConsumerConfig \<Rightarrow> string \<Rightarrow> string \<Rightarrow> int \<Rightarrow> ConsumerState \<Rightarrow> ConsumerState" where
  "Consumer_retry config queueURL receiptHandle attempt s =
     (let delay = retryDelay (cc_RetryVisibilityBackoff config) attempt (cc_VisibilityTimeout config)
      in call_queue (ChangeMessageVisibility queueURL receiptHandle (retry_visibility delay)) (observe (ObserveRetry ''sqs'') s))"

definition Consumer_release :: "string \<Rightarrow> string \<Rightarrow> ConsumerState \<Rightarrow> ConsumerState" where
  "Consumer_release queueURL receiptHandle s = call_queue (ChangeMessageVisibility queueURL receiptHandle 0) s"

definition observe_redrive :: "ConsumerConfig \<Rightarrow> int \<Rightarrow> ConsumerState \<Rightarrow> ConsumerState" where
  "observe_redrive config attempt s =
     (if cc_MaxReceiveCount config > 0 \<and> attempt \<ge> cc_MaxReceiveCount config then observe ObserveRedriveCandidate s else s)"

definition handleMessage ::
  "externals \<Rightarrow> ConsumerConfig \<Rightarrow> string \<Rightarrow> sqs_message \<Rightarrow> delivery \<Rightarrow> ConsumerState \<Rightarrow> ConsumerState" where
  "handleMessage E config queueURL m dl s =
     (let handle = stringValue (sq_ReceiptHandle m); attempt = receiveAttempt m
      in if handle = [] then s
         else case DecodeMessage E (dl_newID dl) (sq_Body m) of
           Inl err \<Rightarrow> Consumer_retry config queueURL handle attempt (observe_redrive config attempt s)
         | Inr decoded \<Rightarrow>
             (case ProcessMessage E (dl_tx dl) (dl_draws dl) (dl_views dl) (cc_ConsumerName config) (dm_MessageID decoded)
                     (dm_PayloadHash decoded) (dm_Command decoded) (dl_now dl) (dl_elapsed dl) (cn_service s) of
                (Inl err, svc) \<Rightarrow>
                  let s1 = s\<lparr>cn_service := svc\<rparr>
                  in if dl_cancelled dl then Consumer_release queueURL handle s1
                     else Consumer_retry config queueURL handle attempt (observe_redrive config attempt s1)
              | (Inr _, svc) \<Rightarrow>
                  let s1 = call_queue (DeleteMessage queueURL handle) (s\<lparr>cn_service := svc\<rparr>)
                  in case dl_delete dl of
                       None \<Rightarrow> s1
                     | Some _ \<Rightarrow> if dl_cancelled dl then Consumer_release queueURL handle s1 else s1))"

text \<open>The messages of one receive: each with what it meets and whether the consumer has been cancelled
  before it; then the messages not yet started are released and the loop ends.\<close>

fun release_all :: "string \<Rightarrow> sqs_message list \<Rightarrow> ConsumerState \<Rightarrow> ConsumerState" where
  "release_all queueURL [] s = s"
| "release_all queueURL (m # ms) s =
     (let handle = stringValue (sq_ReceiptHandle m)
      in release_all queueURL ms (if handle \<noteq> [] then Consumer_release queueURL handle s else s))"

fun handle_batch ::
  "externals \<Rightarrow> ConsumerConfig \<Rightarrow> string \<Rightarrow> (sqs_message \<times> delivery \<times> bool) list \<Rightarrow> ConsumerState \<Rightarrow> bool \<times> ConsumerState" where
  "handle_batch E config queueURL [] s = (False, s)"
| "handle_batch E config queueURL ((m, dl, cancelled) # ms) s =
     (if cancelled then (True, release_all queueURL (m # map fst ms) s)
      else handle_batch E config queueURL ms (handleMessage E config queueURL m dl s))"

text \<open>One turn of the polling loop.\<close>

record poll =
  po_cancelled :: bool
  po_url :: url_answer
  po_waited :: bool
  po_receive :: "string + (sqs_message \<times> delivery \<times> bool) list"
  po_cancelledReceiving :: bool

fun consumer_loop :: "externals \<Rightarrow> ConsumerConfig \<Rightarrow> string \<Rightarrow> poll list \<Rightarrow> ConsumerState \<Rightarrow> ConsumerState" where
  "consumer_loop E config queueURL [] s = s"
| "consumer_loop E config queueURL (p # ps) s =
     (if po_cancelled p then s
      else
        let (lookup, c) = (if queueURL = [] then Client_QueueURL (po_url p) (cn_client s) else (Inr queueURL, cn_client s));
            s1 = s\<lparr>cn_client := c\<rparr>
        in case lookup of
             Inl err \<Rightarrow> if po_waited p then consumer_loop E config queueURL ps s1 else s1
           | Inr url \<Rightarrow>
               (case po_receive p of
                  Inl err \<Rightarrow>
                    if po_cancelledReceiving p then s1
                    else if po_waited p then consumer_loop E config url ps s1
                    else s1
                | Inr messages \<Rightarrow>
                    let (stopped, s2) = handle_batch E config url messages s1
                    in if stopped then s2 else consumer_loop E config url ps s2))"

section \<open>Lemmas\<close>

lemma messageType_Inr: "messageType raw = Inr k \<Longrightarrow> k \<in> {Bet, Win, Loss, Refund, Rollback}"
  by (auto simp: messageType_def Let_def split: if_splits)

lemma money_New_wf: "money_New s c = Inr m \<Longrightarrow> money_valid m \<and> money_wf m"
  using money_Amount_New(1) [of s c m] by (auto simp: money_wf_def money_valid_def int64_defs)

lemma DecodeMessage_Inr:
  assumes "DecodeMessage E i body = Inr m"
  obtains "C_ID (dm_Command m) = i" "money_wf (C_Amount (dm_Command m))" "C_Type (dm_Command m) \<in> {Bet, Win, Loss, Refund, Rollback}"
    "dm_MessageID m \<noteq> []" "[] \<notin> {C_ExternalID (dm_Command m), C_ProviderID (dm_Command m), C_PlayerID (dm_Command m),
       C_GameID (dm_Command m), C_RoundID (dm_Command m), C_IdempotencyKey (dm_Command m)}"
    "dm_PayloadHash m = sha256_hex E (canonicalPayload E (dm_Command m))"
  using assms
  by (auto simp: DecodeMessage_def Let_def canonicalPayloadHash_def bindR_Inr_conv
      split: if_splits option.splits sum.splits dest!: messageType_Inr money_New_wf)

lemma wrap32_id: "0 \<le> x \<Longrightarrow> x < 2147483648 \<Longrightarrow> wrap32 x = x"
  by (simp add: wrap32_def)

lemma retryDelay_cap:
  assumes "0 < visibility"
  shows "0 \<le> retryDelay base attempt visibility \<and> (retryDelay base attempt visibility = 0 \<or>
    retryDelay base attempt visibility + 1000000000 \<le> visibility)"
  using assms by (auto simp: retryDelay_def Let_def maxDuration_def not_less split: if_splits)

section \<open>Properties\<close>

text \<open>C31: A decoded message is a well-formed command: its amount is a value of the money type, its type is one
  of the five external operations (never OPENING), every identity field is present, its identifier is the
  drawn one, and its payload hash is the one that processing computes for the command.\<close>

theorem decoded_message_command:
  assumes "DecodeMessage E i body = Inr m"
  shows "money_wf (C_Amount (dm_Command m)) \<and> C_Type (dm_Command m) \<in> {Bet, Win, Loss, Refund, Rollback} \<and> C_ID (dm_Command m) = i
    \<and> dm_MessageID m \<noteq> [] \<and> [] \<notin> {C_ExternalID (dm_Command m), C_ProviderID (dm_Command m), C_PlayerID (dm_Command m),
       C_GameID (dm_Command m), C_RoundID (dm_Command m), C_IdempotencyKey (dm_Command m)}
    \<and> (\<forall>p. prepareCommand E (dm_Command m) = Inr p \<longrightarrow> C_PayloadHash p = dm_PayloadHash m)"
  by (rule DecodeMessage_Inr [OF assms]) (auto simp: prepareCommand_def canonicalPayloadHash_def result_simps)

definition example_body :: json where
  "example_body = JObject [(''MessageID'', JString '' m1 ''), (''type'', JString ''WagerTransactionRequested''), (''occurredAt'', JString ''17''),
     (''data'', JObject [(''providerId'', JString ''prov''), (''externalTransactionId'', JString ''x1''), (''idempotencyKey'', JString ''k1''),
       (''playerId'', JString ''p''), (''walletId'', JString ''7''), (''roundId'', JString ''r''), (''gameId'', JString ''g''),
       (''kind'', JString ''BET''), (''money'', JObject [(''amount'', JString ''0.40''), (''currency'', JString ''BRL'')])])]"

theorem decoded_message_command_witness:
  "\<exists>m. DecodeMessage example_externals 5 (StreamDoc example_body StreamEOF) = Inr m \<and> C_Type (dm_Command m) = Bet
     \<and> money_wf (C_Amount (dm_Command m))"
proof -
  have "case DecodeMessage example_externals 5 (StreamDoc example_body StreamEOF) of Inl _ \<Rightarrow> False | Inr m \<Rightarrow> C_Type (dm_Command m) = Bet"
    by code_simp
  then obtain m where m: "DecodeMessage example_externals 5 (StreamDoc example_body StreamEOF) = Inr m" "C_Type (dm_Command m) = Bet"
    by (auto split: sum.splits)
  with decoded_message_command [OF m(1)] show ?thesis by blast
qed

text \<open>C32: A message that failed becomes visible again before its visibility timeout ends, whatever the backoff
  and the receive count: the delay lies between zero and one second less than the timeout. Without
  overflow it is the doubled backoff, cut off there, and the number of seconds sent to the broker is the
  delay rounded down, but at least one when there is a delay.\<close>

theorem retry_visibility_bounds:
  assumes "0 < visibility" "visibility \<le> 43200 * 1000000000"
  shows "(let delay = retryDelay base attempt visibility in
      0 \<le> retry_visibility delay \<and> retry_visibility delay * 1000000000 < visibility \<and> (retry_visibility delay = 0 \<longleftrightarrow> delay = 0)
      \<and> (0 < base \<longrightarrow> base \<le> 8589934591 \<longrightarrow> 1 \<le> attempt \<longrightarrow>
          delay = max 0 (min (base * 2 ^ nat (min (attempt - 1) 30)) (visibility - 1000000000))))"
proof -
  let ?d = "retryDelay base attempt visibility"
  note cap = retryDelay_cap [OF assms(1), of base attempt]
  have q: "go_quot ?d 1000000000 = ?d div 1000000000" using cap by (simp add: go_quot_nonneg)
  have "?d div 1000000000 < 2147483648" "0 \<le> ?d div 1000000000" using cap assms by auto
  then have v: "retry_visibility ?d = (if 0 < ?d \<and> ?d div 1000000000 = 0 then 1 else ?d div 1000000000)"
    by (simp add: retry_visibility_def q wrap32_id Let_def)
  have "?d div 1000000000 * 1000000000 \<le> ?d" by simp
  then have bounds: "0 \<le> retry_visibility ?d" "retry_visibility ?d * 1000000000 < visibility" "retry_visibility ?d = 0 \<longleftrightarrow> ?d = 0"
    unfolding v using cap assms(1) by (auto split: if_splits)
  have exact: "?d = max 0 (min (base * 2 ^ nat (min (attempt - 1) 30)) (visibility - 1000000000))"
    if "0 < base" "base \<le> 8589934591" "1 \<le> attempt"
  proof -
    let ?s = "nat (min (attempt - 1) 30)"
    have "(2::int) ^ ?s \<le> 2 ^ 30" by (rule power_increasing) auto
    then have "base * 2 ^ ?s \<le> 8589934591 * 1073741824" using that(1,2) by (intro mult_mono) auto
    moreover have pos: "0 < base * 2 ^ ?s" using that(1) by simp
    ultimately have "int64_ok (base * 2 ^ ?s)" unfolding int64_defs by simp
    then have "wrap64 (base * 2 ^ ?s) = base * 2 ^ ?s" by (rule wrap64_id)
    moreover have "(if 30 < attempt - 1 then 30 else attempt - 1) = min (attempt - 1) 30" by auto
    ultimately have "?d = (if base * 2 ^ ?s < 0 \<or> visibility - 1000000000 < base * 2 ^ ?s
        then max 0 (visibility - 1000000000) else base * 2 ^ ?s)"
      using that assms(1) by (simp add: retryDelay_def Let_def maxDuration_def max_def)
    with pos show ?thesis by (smt (verit) max_def min_def)
  qed
  show ?thesis using bounds exact by (simp add: Let_def)
qed

theorem retry_visibility_bounds_witness:
  "retry_visibility (retryDelay 5000000000 3 30000000000) = 20"
proof -
  have "retryDelay 5000000000 3 30000000000 = 20000000000"
    using retry_visibility_bounds [of 30000000000 5000000000 3] by (simp add: Let_def eval_nat_numeral)
  then show ?thesis by (simp add: retry_visibility_def go_quot_def wrap32_def)
qed

end
