(* ===== verification/Message_Properties.thy ===== *)
theory Message_Properties
  imports Command_Processing Messaging
begin

text \<open>
  The inbox in every reachable state and what it gives the consumer: a message whose processing was
  committed is known in every later state, its redelivery is a replay, and it is deleted from the queue
  only after that commit.
\<close>

section \<open>The inbox\<close>

text \<open>Only the statements of the inbox itself change it.\<close>

lemma statement_inbox [dest]:
  "walletRepo_Insert (index_fits E) w d = Inr d' \<Longrightarrow> db_inbox d' = db_inbox d"
  "walletRepo_UpdateBalance i b v now d = Inr d' \<Longrightarrow> db_inbox d' = db_inbox d"
  "wagerRepo_Insert (index_fits E) t d = Inr d' \<Longrightarrow> db_inbox d' = db_inbox d"
  "wagerRepo_UpdatePendingReference (index_fits E) t d = Inr d' \<Longrightarrow> db_inbox d' = db_inbox d"
  "ledgerRepo_Insert e d = Inr d' \<Longrightarrow> db_inbox d' = db_inbox d"
  "outboxRepo_InsertWithMetadata i k a c z v o1 data n d = Inr d' \<Longrightarrow> db_inbox d' = db_inbox d"
  by (auto simp: walletRepo_Insert_def walletRepo_UpdateBalance_def wagerRepo_Insert_def wagerRepo_UpdatePendingReference_def
      ledgerRepo_Insert_def outboxRepo_InsertWithMetadata_def bindR_Inr_conv Let_def split: if_splits)

lemma insertEvent_inbox [dest]: "insertEvent E i k ty a w r v now c cs d = Inr d' \<Longrightarrow> db_inbox d' = db_inbox d"
  by (auto simp: insertEvent_def Let_def split: list.splits)

lemma insertFinancialEvents_inbox [dest]: "insertFinancialEvents E dr k w r v now c b ch d = Inr d' \<Longrightarrow> db_inbox d' = db_inbox d"
  by (auto simp: insertFinancialEvents_def bindR_Inr_conv split: if_splits dest!: insertEvent_inbox)

lemma insertTransaction_inbox [dest]: "insertTransaction E cmd r now d = Inr d' \<Longrightarrow> db_inbox d' = db_inbox d"
  by (auto simp: insertTransaction_def)

lemma persist_inbox [dest]:
  "persistPendingReference E dr cmd w now tx d = Inr (r, d') \<Longrightarrow> db_inbox d' = db_inbox d"
  "persistRejected E dr cmd w now tx code d = Inr (r, d') \<Longrightarrow> db_inbox d' = db_inbox d"
  by (auto simp: persistPendingReference_def persistRejected_def bindR_Inr_conv Let_def dest!: insertEvent_inbox insertTransaction_inbox)

lemma moveBalance_inbox [dest]: "moveBalance E dr cmd w dir m a now d = Inr d' \<Longrightarrow> db_inbox d' = db_inbox d"
  by (auto simp: moveBalance_def bindR_Inr_conv dest!: statement_inbox(2,5))

lemma applyOperation_inbox [dest]:
  "applyOperationInTx E dr cmd w tx ref ex now d = Inr (r, d') \<Longrightarrow> db_inbox d' = db_inbox d"
  by (auto simp: applyOperationInTx_def bindR_Inr_conv Let_def split: if_splits sum.splits
      dest!: writeRow_inbox moveBalance_inbox insertEvent_inbox insertFinancialEvents_inbox)

lemma executeInTx_inbox [dest]:
  assumes "executeInTx E dr v cmd now w d = Inr (r, d')"
  shows "db_inbox d' = db_inbox d"
  using assms by (auto simp: executeInTx_def bindR_Inr_conv split: if_splits sum.splits)

lemma processInTx_inbox [dest]: "processInTx E dr vs cmd now d = Inr (r, d') \<Longrightarrow> db_inbox d' = db_inbox d"
  by (auto dest!: processInTx_Inr)

lemma openWalletInTx_inbox [dest]: "openWalletInTx E dr i p m now d = Inr (u, d') \<Longrightarrow> db_inbox d' = db_inbox d"
  by (auto simp: openWalletInTx_def bindR_Inr_conv Let_def split: if_splits dest!: statement_inbox insertFinancialEvents_inbox)

lemma rejectPending_inbox [dest]: "rejectPendingReferenceInTx E dr rc cmd now code d = Inr (b, d') \<Longrightarrow> db_inbox d' = db_inbox d"
  by (auto simp: rejectPendingReferenceInTx_def bindR_Inr_conv Let_def dest!: statement_inbox insertEvent_inbox)

lemma advancePending_inbox [dest]: "advancePendingReferenceInTx E dr rc now m base code d = Inr (b, d') \<Longrightarrow> db_inbox d' = db_inbox d"
  by (auto simp: advancePendingReferenceInTx_def bindR_Inr_conv Let_def split: if_splits dest!: statement_inbox(4))

lemma processPending_inbox [dest]:
  assumes "processPendingReferenceInTx E dr rc now m base d = Inr (b, d')"
  shows "db_inbox d' = db_inbox d"
proof (cases "wagerRepo_FindByExternal (T_ProviderID rc) (T_ReferenceExternalID rc) d")
  case (Inl e)
  with assms show ?thesis by (auto simp: processPendingReferenceInTx_def bindR_Inr_conv split: if_splits)
next
  case (Inr r)
  with assms show ?thesis by (auto simp: processPendingReferenceInTx_def bindR_Inr_conv split: if_splits)
qed

lemma claimPending_inbox [dest]:
  "claimPendingReferenceInTx E dr locked now m base d = Inr (b, d') \<Longrightarrow> db_inbox d' = db_inbox d"
  by (auto simp: claimPendingReferenceInTx_def bindR_Inr_conv split: if_splits sum.splits)

text \<open>A completed inbox record stays: its message is known, with its payload hash, in every later state.\<close>

definition inbox_completed :: "string \<Rightarrow> string \<Rightarrow> string \<Rightarrow> db \<Rightarrow> bool" where
  "inbox_completed consumer messageID hash d \<longleftrightarrow>
     (\<exists>i. inboxRepo_Find consumer messageID d = Inr i \<and> I_PayloadHash i = hash \<and> I_CompletedAt i \<noteq> None)"

lemma inbox_same: "db_inbox d' = db_inbox d \<Longrightarrow> inbox_completed c m h d' = inbox_completed c m h d"
  by (simp add: inbox_completed_def inboxRepo_Find_def)

lemma inbox_insert_keeps:
  assumes "inboxRepo_InsertIfAbsent (index_fits E) i d = Inr (b, d')" "inbox_completed c m h d"
  shows "inbox_completed c m h d'"
proof -
  from assms(2) obtain x where "find (\<lambda>i. I_ConsumerName i = c \<and> I_MessageID i = m) (db_inbox d) = Some x"
    "I_PayloadHash x = h" "I_CompletedAt x \<noteq> None" by (auto simp: inbox_completed_def inboxRepo_Find_def result_simps)
  moreover have "list_all text_ok [c, m]" using assms(2) by (auto simp: inbox_completed_def inboxRepo_Find_def result_simps)
  ultimately show ?thesis using assms(1)
    by (auto simp: inboxRepo_InsertIfAbsent_def bindR_Inr_conv inbox_completed_def inboxRepo_Find_def with_texts_ok row_simps
        split: if_splits)
qed

lemma inbox_mark:
  assumes "inboxRepo_MarkCompleted c m now d = Inr d'"
  shows "inboxRepo_Find c' m' d' = (if c' = c \<and> m' = m then bindR (inboxRepo_Find c m d) (\<lambda>i. Inr (i\<lparr>I_CompletedAt := Some now\<rparr>))
    else inboxRepo_Find c' m' d)"
proof -
  have "db_inbox d' = update_where (\<lambda>i. I_ConsumerName i = c \<and> I_MessageID i = m) (\<lambda>i. i\<lparr>I_CompletedAt := Some now\<rparr>) (db_inbox d)"
    using assms by (auto simp: inboxRepo_MarkCompleted_def result_simps)
  then have *: "find (\<lambda>i. I_ConsumerName i = c' \<and> I_MessageID i = m') (db_inbox d') =
      map_option (\<lambda>r. if I_ConsumerName r = c \<and> I_MessageID r = m then r\<lparr>I_CompletedAt := Some now\<rparr> else r)
        (find (\<lambda>i. I_ConsumerName i = c' \<and> I_MessageID i = m') (db_inbox d))"
    by (simp add: find_update_where)
  show ?thesis
  proof (cases "find (\<lambda>i. I_ConsumerName i = c' \<and> I_MessageID i = m') (db_inbox d)")
    case None
    with * show ?thesis by (auto simp: inboxRepo_Find_def with_texts_def)
  next
    case (Some x)
    with find_SomeD [OF Some] * show ?thesis by (auto simp: inboxRepo_Find_def with_texts_def)
  qed
qed

lemma inbox_mark_keeps:
  assumes "inboxRepo_MarkCompleted c m now d = Inr d'" "inbox_completed c' m' h d"
  shows "inbox_completed c' m' h d'"
  using assms(2) unfolding inbox_completed_def inbox_mark [OF assms(1)] by auto

lemma processMessageInTx_inbox:
  assumes "processMessageInTx E dr vs c m h cmd now d = Inr ((r, dup), d')"
  obtains d1 d2 where "db_wallets d1 = db_wallets d" "db_wagers d1 = db_wagers d" "db_ledger d1 = db_ledger d" "db_outbox d1 = db_outbox d"
    "db_seq d1 = db_seq d" "processInTx E dr vs cmd now d1 = Inr (r, d2)" "d' = d2\<lparr>db_inbox := db_inbox d'\<rparr>"
    "inbox_completed c m h d'" "\<And>c' m' h'. inbox_completed c' m' h' d \<Longrightarrow> inbox_completed c' m' h' d'"
proof -
  let ?i = "\<lparr>I_ConsumerName = c, I_MessageID = m, I_PayloadHash = h, I_ReceivedAt = now, I_CompletedAt = None\<rparr>"
  from assms obtain ins d1 d2 where ins: "inboxRepo_InsertIfAbsent (index_fits E) ?i d = Inr (ins, d1)"
    and dup: "(if ins then Inr False else bindR (inboxRepo_Find c m d1) (\<lambda>existing.
        if I_PayloadHash existing \<noteq> h then Inl ErrInboxPayloadMismatch else Inr (I_CompletedAt existing \<noteq> None))) = Inr dup"
    and p: "processInTx E dr vs cmd now d1 = Inr (r, d2)" and mark: "inboxRepo_MarkCompleted c m now d2 = Inr d'"
    by (auto simp: processMessageInTx_def bindR_Inr_conv)
  have d1: "d1 = d \<or> d1 = d\<lparr>db_inbox := db_inbox d @ [?i]\<rparr> \<and> ins"
    using ins by (auto simp: inboxRepo_InsertIfAbsent_def bindR_Inr_conv split: if_splits)
  have i2: "db_inbox d2 = db_inbox d1" using p by (rule processInTx_inbox)
  have found: "\<exists>x. inboxRepo_Find c m d1 = Inr x \<and> I_PayloadHash x = h"
  proof (cases ins)
    case True
    with ins have "find (\<lambda>i. I_ConsumerName i = c \<and> I_MessageID i = m) (db_inbox d) = None" "db_inbox d1 = db_inbox d @ [?i]"
      "list_all text_ok [c, m]"
      by (auto simp: inboxRepo_InsertIfAbsent_def bindR_Inr_conv find_None_iff list_ex_iff inbox_checks_def check_all_Inr split: if_splits)
    then show ?thesis by (simp add: inboxRepo_Find_def with_texts_ok row_simps)
  next
    case False
    with dup show ?thesis by (auto simp: bindR_Inr_conv split: if_splits)
  qed
  have "inboxRepo_Find c m d2 = inboxRepo_Find c m d1" by (simp add: inboxRepo_Find_def i2)
  with found inbox_mark [OF mark, of c m] have done': "inbox_completed c m h d'" by (auto simp: inbox_completed_def)
  have keep: "inbox_completed c' m' h' d \<Longrightarrow> inbox_completed c' m' h' d'" for c' m' h'
    using inbox_insert_keeps [OF ins] inbox_same [OF i2] inbox_mark_keeps [OF mark] by blast
  have "d' = d2\<lparr>db_inbox := db_inbox d'\<rparr>" using mark by (auto simp: inboxRepo_MarkCompleted_def result_simps)
  then show ?thesis using d1 p done' keep by (intro that [of d1 d2]) auto
qed

lemma WithTx_inbox:
  assumes "WithTx env fn d = (r, d')" "\<And>a d1. fn d = Inr (a, d1) \<Longrightarrow> inbox_completed c m h d \<Longrightarrow> inbox_completed c m h d1"
    "inbox_completed c m h d"
  shows "inbox_completed c m h d'"
  using assms by (cases rule: WithTx_cases [of env fn d]) auto

lemma WithTx_same_inbox:
  assumes "WithTx env fn d = (r, d')" "\<And>a d1. fn d = Inr (a, d1) \<Longrightarrow> db_inbox d1 = db_inbox d" "inbox_completed c m h d"
  shows "inbox_completed c m h d'"
  using assms(1) by (rule WithTx_inbox) (use assms(2,3) inbox_same in blast)+

lemma ClaimOne_inbox: "outboxRepo_ClaimOneRecord token locked now lease d = Inr (e, d') \<Longrightarrow> db_inbox d' = db_inbox d"
  by (auto simp: outboxRepo_ClaimOneRecord_def claim_event_def split: option.splits if_splits)

lemma mark_rows_inbox: "mark_rows env i token f d = (r, d') \<Longrightarrow> db_inbox d' = db_inbox d"
  by (cases rule: WithTx_cases [of env "\<lambda>d. Inr (length (filter (holds_claim i token) (db_outbox d)),
      d\<lparr>db_outbox := update_where (holds_claim i token) f (db_outbox d)\<rparr>)" d]) (auto simp: mark_rows_def split: sum.splits)

lemma service_step_inbox:
  assumes "service_step E s s'" "inbox_completed c m h (svc_db s)"
  shows "inbox_completed c m h (svc_db s')"
  using assms(1)
proof cases
  case (step_open amt env dr i p now r)
  then have "WithTx env (openWalletInTx E dr i p amt now) (svc_db s) = (r, svc_db s')"
    by (auto simp: OpenWallet_def split: prod.splits)
  then show ?thesis using openWalletInTx_inbox assms(2) by (rule WithTx_same_inbox)
next
  case (step_process cmd vs env env2 dr now el r)
  show ?thesis
  proof (cases "prepareCommand E cmd")
    case (Inl e)
    with step_process assms(2) show ?thesis by (simp add: Process_def)
  next
    case (Inr p)
    obtain r1 d1 where tx: "WithTx env (processInTx E dr vs p now) (svc_db s) = (r1, d1)" by fastforce
    then have "inbox_completed c m h d1" using processInTx_inbox assms(2) by (rule WithTx_same_inbox)
    moreover have "svc_db s' = d1"
      using step_process(3) Inr tx by (auto simp: Process_def split: sum.splits if_splits prod.splits dest: resolve_db)
    ultimately show ?thesis by simp
  qed
next
  case (step_message cmd vs env dr c' m' h' now el r)
  show ?thesis
  proof (cases "\<exists>p. prepareCommand E cmd = Inr p \<and> C_PayloadHash p = h'")
    case False
    with step_message assms(2) show ?thesis by (auto simp: ProcessMessage_def split: sum.splits)
  next
    case True
    then obtain p where p: "prepareCommand E cmd = Inr p" "C_PayloadHash p = h'" by blast
    obtain r1 d1 where tx: "WithTx env (processMessageInTx E dr vs c' m' h' p now) (svc_db s) = (r1, d1)" by fastforce
    have keep: "inbox_completed c m h d2" if "processMessageInTx E dr vs c' m' h' p now (svc_db s) = Inr (a, d2)" for a d2
    proof -
      from that have "processMessageInTx E dr vs c' m' h' p now (svc_db s) = Inr ((fst a, snd a), d2)" by simp
      from processMessageInTx_inbox [OF this] show ?thesis using assms(2) by metis
    qed
    from tx keep assms(2) have "inbox_completed c m h d1" by (rule WithTx_inbox)
    moreover have "svc_db s' = d1"
      using step_message(3) p tx by (auto simp: ProcessMessage_def Let_def split: sum.splits if_splits prod.splits)
    ultimately show ?thesis by simp
  qed
next
  case (step_pending env dr locked now mx base r)
  obtain r1 d1 where tx: "WithTx env (claimPendingReferenceInTx E dr locked now (if mx < 1 then 1 else mx) base) (svc_db s) = (r1, d1)"
    by fastforce
  have "inbox_completed c m h d1" using tx
    by (rule WithTx_same_inbox) (use assms(2) in \<open>auto dest: claimPending_inbox\<close>)
  moreover have "svc_db s' = d1"
    using step_pending tx by (auto simp: ProcessPendingReference_def Let_def split: sum.splits prod.splits)
  ultimately show ?thesis by simp
next
  case (step_reconcile read1 read2 w r)
  then have "svc_db s' = svc_db s" by (auto simp: Reconcile_def Let_def split: sum.splits if_splits)
  with assms(2) show ?thesis by simp
next
  case (step_claim env token locked now lease r d)
  then have "inbox_completed c m h d" using ClaimOne_inbox assms(2) by (blast intro: WithTx_same_inbox)
  with step_claim show ?thesis by simp
next
  case (step_published env i token now r d)
  then have "db_inbox d = db_inbox (svc_db s)" by (intro mark_rows_inbox) (simp add: outboxRepo_MarkPublished_def)
  from inbox_same [OF this] step_published(1) assms(2) show ?thesis by simp
next
  case (step_retried env i token attempts nxt err mx r d)
  then have "db_inbox d = db_inbox (svc_db s)" by (intro mark_rows_inbox) (simp add: outboxRepo_MarkRetry_def Let_def)
  from inbox_same [OF this] step_retried(1) assms(2) show ?thesis by simp
next
  case (step_observe mt)
  with assms(2) show ?thesis by simp
qed

lemma service_steps_inbox:
  assumes "(service_step E)\<^sup>*\<^sup>* s s'" "inbox_completed c m h (svc_db s)"
  shows "inbox_completed c m h (svc_db s')"
  using assms by (induction rule: rtranclp_induct) (auto intro: service_step_inbox)

section \<open>Redelivery\<close>

text \<open>The lookups of a command read the transactions only.\<close>

lemma replayExisting_wagers:
  assumes "db_wagers v = db_wagers v'"
  shows "replayExisting E cmd v = replayExisting E cmd v'"
proof -
  have "wagerRepo_FindByID i v = wagerRepo_FindByID i v'" "wagerRepo_FindByIdempotency p k v = wagerRepo_FindByIdempotency p k v'"
    "wagerRepo_FindByExternal p k v = wagerRepo_FindByExternal p k v'" for i p k
    using assms by (simp_all add: wagerRepo_FindByID_def wagerRepo_FindByIdempotency_def wagerRepo_FindByExternal_def)
  then show ?thesis by (simp only: replayExisting_def findExistingTransaction_def)
qed

lemma processInTx_wagers:
  assumes "db_wagers d = db_wagers d'"
  shows "processInTx E dr (serial_views d) cmd now x = processInTx E dr (serial_views d') cmd now x"
proof -
  have "wagerRepo_FindByExternal p k d = wagerRepo_FindByExternal p k d'" for p k
    using assms by (simp add: wagerRepo_FindByExternal_def)
  then have "executeInTx E dr d cmd now w x = executeInTx E dr d' cmd now w x" for w by (simp only: executeInTx_def)
  moreover have "replayExisting E cmd d = replayExisting E cmd d'" by (rule replayExisting_wagers [OF assms])
  ultimately show ?thesis by (simp only: processInTx_def serial_views_def views.select_convs)
qed

lemma message_stores:
  assumes "processMessageInTx E dr (serial_views d) c m h cmd now d = Inr ((r, dup), d')" "bank_inv E d" "externals_ok E"
    "money_wf (C_Amount cmd)"
  obtains t where "t \<in> set (db_wagers d')" "answers E cmd t" "replayResult E t = Inr r"
    "C_ID cmd = T_ID t \<or> C_ID cmd \<notin> T_ID ` set (db_wagers d')" "inbox_completed c m h d'"
proof -
  obtain d1 d2 where same: "db_wallets d1 = db_wallets d" "db_wagers d1 = db_wagers d" "db_ledger d1 = db_ledger d"
      "db_outbox d1 = db_outbox d" "db_seq d1 = db_seq d"
    and p: "processInTx E dr (serial_views d) cmd now d1 = Inr (r, d2)" and d': "d' = d2\<lparr>db_inbox := db_inbox d'\<rparr>"
    and comp: "inbox_completed c m h d'"
    by (rule processMessageInTx_inbox [OF assms(1)])
  have "bank_step E d d1" using same by (intro bank_skip) (simp_all add: emits_def)
  then have inv: "bank_inv E d1" using assms(2,3) bank_inv_steps by (metis r_into_rtranclp)
  have "processInTx E dr (serial_views d1) cmd now d1 = Inr (r, d2)" using p processInTx_wagers [of d d1] same(2) by simp
  from process_stores [OF this inv assms(3,4)] obtain t where "t \<in> set (db_wagers d2)" "answers E cmd t" "replayResult E t = Inr r"
    "C_ID cmd = T_ID t \<or> C_ID cmd \<notin> T_ID ` set (db_wagers d2)" by blast
  moreover have "db_wagers d' = db_wagers d2" using arg_cong [OF d', of db_wagers] by simp
  ultimately show ?thesis using comp by (intro that [of t]) simp_all
qed

lemma message_replays:
  assumes "bank_inv E d" "t \<in> set (db_wagers d)" "answers E cmd t" "C_ID cmd = T_ID t \<or> C_ID cmd \<notin> T_ID ` set (db_wagers d)"
    "inbox_completed c m h d" "c \<noteq> []" "m \<noteq> []" "h \<noteq> []" "list_all text_ok [c, m, h]"
  shows "\<exists>r d'. processMessageInTx E dr (serial_views d) c m h cmd now d = Inr ((r, True), d') \<and> replayResult E t = Inr r
    \<and> R_TransactionID r = T_ID t \<and> d' = d\<lparr>db_inbox := db_inbox d'\<rparr>"
proof -
  have v: "view_first (serial_views d) = d" "view_second (serial_views d) = d" by (simp_all add: serial_views_def)
  obtain r where r: "replayResult E t = Inr r" "processInTx E dr (serial_views d) cmd now d = Inr (r, d)" "R_TransactionID r = T_ID t"
    using process_replay [OF assms(1-4) disjI1 [OF v(1)] v(2)] .
  obtain i where i: "inboxRepo_Find c m d = Inr i" "I_PayloadHash i = h" "I_CompletedAt i \<noteq> None"
    using assms(5) by (auto simp: inbox_completed_def)
  then have "list_ex (\<lambda>r. I_ConsumerName r = c \<and> I_MessageID r = m) (db_inbox d)"
    by (auto simp: inboxRepo_Find_def result_simps list_ex_iff dest: find_SomeD)
  then have ins: "inboxRepo_InsertIfAbsent (index_fits E) \<lparr>I_ConsumerName = c, I_MessageID = m, I_PayloadHash = h, I_ReceivedAt = now, I_CompletedAt = None\<rparr> d = Inr (False, d)"
    using assms(6-9) by (simp add: inboxRepo_InsertIfAbsent_def inbox_checks_def check_all_ok)
  show ?thesis using r i ins assms(9) by (auto simp: processMessageInTx_def inboxRepo_MarkCompleted_def with_texts_ok)
qed

lemma ProcessMessage_Inr:
  assumes "ProcessMessage E env dr vs c m h cmd now el s = (Inr (r, dup), s')"
  obtains p where "prepareCommand E cmd = Inr p" "C_PayloadHash p = h" "processMessageInTx E dr vs c m h p now (svc_db s) = Inr ((r, dup), svc_db s')"
  using assms by (auto simp: ProcessMessage_def WithTx_Inr Let_def split: sum.splits if_splits prod.splits)

text \<open>C15: Redelivery: once a message has been processed, the same business request under the same message
  identifier and idempotency key (the decoder draws a new transaction identifier), after any further
  activity of the process, is recognised as a duplicate, returns the stored outcome of the same
  transaction, and changes no row but the completion time of its own inbox record.\<close>

theorem redelivered_message_replays:
  assumes "service_reachable E s" "money_wf (C_Amount cmd)"
    "ProcessMessage E tx_ok dr (serial_views (svc_db s)) consumer messageID hash cmd now el s = (Inr (r, dup), s1)"
    "(service_step E)\<^sup>*\<^sup>* s1 s2" "business_fields cmd' = business_fields cmd" "C_IdempotencyKey cmd' = C_IdempotencyKey cmd"
    "C_ID cmd' \<noteq> uuid_Nil" "C_ID cmd' \<notin> T_ID ` set (db_wagers (svc_db s2))"
  shows "\<exists>r' s3. ProcessMessage E tx_ok dr' (serial_views (svc_db s2)) consumer messageID hash cmd' now' el' s2 = (Inr (r', True), s3)
    \<and> R_TransactionID r' = R_TransactionID r \<and> (R_State r \<noteq> PendingReference \<longrightarrow> r' = r)
    \<and> svc_db s3 = (svc_db s2)\<lparr>db_inbox := db_inbox (svc_db s3)\<rparr>"
proof -
  have inv: "service_inv E s" by (rule service.reachable_inv [OF assms(1)])
  then have i: "externals_ok E" "bank_inv E (svc_db s)" by (simp_all add: service_inv_def)
  obtain p where p: "prepareCommand E cmd = Inr p" "C_PayloadHash p = hash"
    "processMessageInTx E dr (serial_views (svc_db s)) consumer messageID hash p now (svc_db s) = Inr ((r, dup), svc_db s1)"
    using ProcessMessage_Inr [OF assms(3)] .
  have "money_wf (C_Amount p)" using prepare_amount [OF p(1)] assms(2) by simp
  then obtain t where t: "t \<in> set (db_wagers (svc_db s1))" "answers E p t" "replayResult E t = Inr r"
    and comp: "inbox_completed consumer messageID hash (svc_db s1)"
    using message_stores [OF p(3) i(2,1)] by blast
  from p(3) have ne: "consumer \<noteq> []" "messageID \<noteq> []" "hash \<noteq> []" "list_all text_ok [consumer, messageID, hash]"
    by (auto simp: processMessageInTx_def inboxRepo_InsertIfAbsent_def bindR_Inr_conv inbox_checks_def check_all_Inr)
  have "service_step E s s1" by (rule step_message [OF assms(2) serial_view assms(3)])
  with inv have inv1: "service_inv E s1" by (rule service.step_inv)
  obtain t' where t': "t' \<in> set (db_wagers (svc_db s2))" "same_identity t t'" "T_State t \<noteq> PendingReference \<longrightarrow> t' = t"
    using service_steps_row [OF assms(4) inv1 t(1)] by blast
  have inv2: "bank_inv E (svc_db s2)" using service.run_inv [OF assms(4) inv1] by (simp add: service_inv_def)
  have v: "validateCommand cmd = Inr ()" and pe: "p = cmd\<lparr>C_PayloadHash := sha256_hex E (canonicalPayload E cmd)\<rparr>"
    using p(1) by (simp_all add: prepare_Inr)
  let ?p' = "cmd'\<lparr>C_PayloadHash := sha256_hex E (canonicalPayload E cmd')\<rparr>"
  have p': "prepareCommand E cmd' = Inr ?p'" using validate_business [OF assms(5-7) v] by (simp add: prepare_Inr)
  have h': "C_PayloadHash ?p' = hash" using business_payload [OF assms(5)] p(2) pe by simp
  have "business_fields ?p' = business_fields p" using assms(5) pe by (simp add: business_fields_def)
  then have a: "answers E ?p' t'"
    using answers_same_identity [OF t(2) t'(2)] answers_business [of ?p' p E t'] assms(6) pe p(2) h' by simp
  have fresh: "C_ID ?p' = T_ID t' \<or> C_ID ?p' \<notin> T_ID ` set (db_wagers (svc_db s2))" using assms(8) by simp
  from message_replays [OF inv2 t'(1) a fresh service_steps_inbox [OF assms(4) comp] ne, of dr' now'] obtain r' d' where
    r': "processMessageInTx E dr' (serial_views (svc_db s2)) consumer messageID hash ?p' now' (svc_db s2) = Inr ((r', True), d')"
      "replayResult E t' = Inr r'" "R_TransactionID r' = T_ID t'" "d' = (svc_db s2)\<lparr>db_inbox := db_inbox d'\<rparr>" by blast
  have "\<exists>s3. ProcessMessage E tx_ok dr' (serial_views (svc_db s2)) consumer messageID hash cmd' now' el' s2 = (Inr (r', True), s3) \<and> svc_db s3 = d'"
    using p' h' r'(1) by (simp add: ProcessMessage_def WithTx_ok)
  moreover have "R_TransactionID r' = R_TransactionID r" using r'(3) replay_id [OF t(3)] t'(2) by (simp add: same_identity_def)
  moreover have "R_State r \<noteq> PendingReference \<longrightarrow> r' = r" using t' t(3) replay_id [OF t(3)] r'(2) by auto
  ultimately show ?thesis using r'(4) by blast
qed

text \<open>The command of a demo message and its first delivery.\<close>

definition demo_delivery :: "(Result \<times> bool) result \<times> Service" where
  "demo_delivery = ProcessMessage example_externals tx_ok (demo_draws 1) (serial_views (svc_db demo_open)) ''c'' ''m1'' ''digest''
     (demo_command 1 Bet 40 ''x1'' []) 2 5 demo_open"

definition delivery_view :: "(Result \<times> bool) result \<times> Service \<Rightarrow> (uuid \<times> State \<times> bool \<times> uuid list) option" where
  "delivery_view p = (case p of (Inr (r, dup), s) \<Rightarrow> Some (R_TransactionID r, R_State r, dup, map T_ID (db_wagers (svc_db s)))
     | (Inl _, _) \<Rightarrow> None)"

lemma demo_delivery_view: "delivery_view demo_delivery = Some (1, Processed, False, [100, 1])"
  by code_simp

theorem redelivered_message_replays_witness:
  "\<exists>r s1 r' s3. demo_delivery = (Inr (r, False), s1) \<and>
     ProcessMessage example_externals tx_ok (demo_draws 5) (serial_views (svc_db s1)) ''c'' ''m1'' ''digest''
       (demo_command 9 Bet 40 ''x1'' []) 7 5 s1 = (Inr (r', True), s3) \<and> r' = r"
proof -
  obtain r s1 where d: "demo_delivery = (Inr (r, False), s1)" "R_State r = Processed" "map T_ID (db_wagers (svc_db s1)) = [100, 1]"
    using demo_delivery_view by (auto simp: delivery_view_def split: prod.splits sum.splits)
  have ids: "T_ID ` set (db_wagers (svc_db s1)) = {100, 1}" using arg_cong [OF d(3), of set] by simp
  have "money_wf (C_Amount (demo_command 1 Bet 40 ''x1'' []))" by (simp add: demo_command_def demo_money)
  from redelivered_message_replays [OF demo_reachable(1) this d(1) [unfolded demo_delivery_def] rtranclp.rtrancl_refl,
      of "demo_command 9 Bet 40 ''x1'' []" "demo_draws 5" 7 5] d ids show ?thesis
    by (auto simp: demo_command_def business_fields_def)
qed

section \<open>Handling a message\<close>

text \<open>C16: What the consumer does with a message: without a receipt handle nothing; a message that cannot be
  decoded or whose processing fails is never deleted, only made visible again, at once when the consumer
  is being stopped and otherwise after the retry delay; a message is deleted exactly when its processing
  returned a result, and then its inbox record is completed in the database with its payload hash. A
  message that cannot be decoded leaves the database as it is.\<close>

theorem message_deleted_after_commit:
  assumes "stringValue (sq_ReceiptHandle m) = h" "handleMessage E config url m dl s = s'"
    "retry_visibility (retryDelay (cc_RetryVisibilityBackoff config) (receiveAttempt m) (cc_VisibilityTimeout config)) = v"
  shows "if h = [] then s' = s else
    case DecodeMessage E (dl_newID dl) (sq_Body m) of
      Inl _ \<Rightarrow> svc_db (cn_service s') = svc_db (cn_service s) \<and> cn_calls s' = cn_calls s @ [ChangeMessageVisibility url h v]
    | Inr decoded \<Rightarrow>
        (case ProcessMessage E (dl_tx dl) (dl_draws dl) (dl_views dl) (cc_ConsumerName config) (dm_MessageID decoded)
                (dm_PayloadHash decoded) (dm_Command decoded) (dl_now dl) (dl_elapsed dl) (cn_service s) of
           (Inl _, svc) \<Rightarrow> svc_db (cn_service s') = svc_db svc \<and>
             cn_calls s' = cn_calls s @ [ChangeMessageVisibility url h (if dl_cancelled dl then 0 else v)]
         | (Inr _, svc) \<Rightarrow> cn_service s' = svc \<and>
             inbox_completed (cc_ConsumerName config) (dm_MessageID decoded) (dm_PayloadHash decoded) (svc_db svc) \<and>
             cn_calls s' = cn_calls s @ DeleteMessage url h #
               (if dl_delete dl \<noteq> None \<and> dl_cancelled dl then [ChangeMessageVisibility url h 0] else []))"
proof -
  note steps = handleMessage_def Consumer_retry_def Consumer_release_def observe_redrive_def observe_def call_queue_def Let_def
  show ?thesis
  proof (cases "h = []")
    case True
    with assms show ?thesis by (auto simp: handleMessage_def Let_def)
  next
    case False
    show ?thesis
    proof (cases "DecodeMessage E (dl_newID dl) (sq_Body m)")
      case (Inl e)
      with assms False show ?thesis by (auto simp: steps)
    next
      case (Inr decoded)
      obtain res svc where p: "ProcessMessage E (dl_tx dl) (dl_draws dl) (dl_views dl) (cc_ConsumerName config) (dm_MessageID decoded)
          (dm_PayloadHash decoded) (dm_Command decoded) (dl_now dl) (dl_elapsed dl) (cn_service s) = (res, svc)" by fastforce
      show ?thesis
      proof (cases res)
        case (Inl e)
        with p Inr assms False show ?thesis by (auto simp: steps)
      next
        case (Inr rd)
        then obtain r dup where rd: "res = Inr (r, dup)" by (cases rd) simp
        obtain q where "processMessageInTx E (dl_draws dl) (dl_views dl) (cc_ConsumerName config) (dm_MessageID decoded)
            (dm_PayloadHash decoded) q (dl_now dl) (svc_db (cn_service s)) = Inr ((r, dup), svc_db svc)"
          using ProcessMessage_Inr [OF p [unfolded rd]] .
        then have "inbox_completed (cc_ConsumerName config) (dm_MessageID decoded) (dm_PayloadHash decoded) (svc_db svc)"
          by (rule processMessageInTx_inbox)
        with p rd \<open>DecodeMessage E (dl_newID dl) (sq_Body m) = Inr decoded\<close> assms False show ?thesis
          by (auto simp: steps split: option.splits)
      qed
    qed
  qed
qed

text \<open>The message of the example, received by a consumer of the opened wallet's service.\<close>

definition demo_message :: sqs_message where
  "demo_message = \<lparr>sq_ReceiptHandle = Some ''h'', sq_ReceiveCount = ''2'', sq_Body = StreamDoc example_body StreamEOF\<rparr>"

definition demo_consumer :: ConsumerConfig where
  "demo_consumer = \<lparr>cc_ConsumerName = ''c'', cc_VisibilityTimeout = 30000000000, cc_WaitTime = 0, cc_MaxMessages = 1,
     cc_RetryVisibilityBackoff = 5000000000, cc_MaxReceiveCount = 5\<rparr>"

definition demo_meeting :: delivery where
  "demo_meeting = \<lparr>dl_newID = 1, dl_tx = tx_ok, dl_draws = demo_draws 1, dl_views = serial_views (svc_db demo_open), dl_now = 2,
     dl_elapsed = 5, dl_cancelled = False, dl_delete = None\<rparr>"

definition demo_receiver :: ConsumerState where
  "demo_receiver = \<lparr>cn_service = demo_open, cn_client = \<lparr>cl_queueName = ''in'', cl_eventQueueName = ''ev'', cl_queueURL = ''u'',
     cl_eventQueueURL = []\<rparr>, cn_calls = []\<rparr>"

lemma demo_handled: "cn_calls (handleMessage example_externals demo_consumer ''u'' demo_message demo_meeting demo_receiver) = [DeleteMessage ''u'' ''h'']"
  by code_simp

theorem message_deleted_after_commit_witness:
  "\<exists>decoded. DecodeMessage example_externals 1 (StreamDoc example_body StreamEOF) = Inr decoded \<and>
     inbox_completed ''c'' (dm_MessageID decoded) (dm_PayloadHash decoded)
       (svc_db (cn_service (handleMessage example_externals demo_consumer ''u'' demo_message demo_meeting demo_receiver)))"
proof -
  have h: "stringValue (sq_ReceiptHandle demo_message) = ''h''" by (simp add: stringValue_def demo_message_def)
  have f: "cn_calls demo_receiver = []" "cc_ConsumerName demo_consumer = ''c''" "dl_newID demo_meeting = 1"
      "sq_Body demo_message = StreamDoc example_body StreamEOF"
    by (simp_all add: demo_receiver_def demo_consumer_def demo_meeting_def demo_message_def)
  note outcome = message_deleted_after_commit [OF h refl refl, of example_externals demo_consumer "''u''" demo_meeting demo_receiver,
      unfolded demo_handled f]
  show ?thesis
  proof (cases "DecodeMessage example_externals 1 (StreamDoc example_body StreamEOF)")
    case (Inl e)
    with outcome show ?thesis by simp
  next
    case (Inr decoded)
    obtain res svc where p: "ProcessMessage example_externals (dl_tx demo_meeting) (dl_draws demo_meeting) (dl_views demo_meeting) ''c''
        (dm_MessageID decoded) (dm_PayloadHash decoded) (dm_Command decoded) (dl_now demo_meeting) (dl_elapsed demo_meeting)
        (cn_service demo_receiver) = (res, svc)" by fastforce
    with outcome Inr show ?thesis by (cases res) simp_all
  qed
qed

end
