(* ===== verification/Reconcile_Properties.thy ===== *)
theory Reconcile_Properties
  imports Command_Processing
begin

text \<open>
  What the reconciliation of a wallet reports over the reachable states: the ledger of a wallet read in one
  state, and the comparison of a balance with a ledger read later.
\<close>

section \<open>Reading a wallet and its ledger\<close>

lemma wallet_found: "bank_inv E d \<Longrightarrow> w \<in> set (db_wallets d) \<Longrightarrow> walletRepo_Find (W_ID w) d = Inr w"
  using find_distinct_key [of W_ID "db_wallets d" w] by (simp add: walletRepo_Find_def bank_inv_def wallets_ok_def)

lemma wallet_unique: "bank_inv E d \<Longrightarrow> v \<in> set (db_wallets d) \<Longrightarrow> w \<in> set (db_wallets d) \<Longrightarrow> W_ID v = W_ID w \<Longrightarrow> v = w"
  by (auto simp: bank_inv_def wallets_ok_def distinct_map inj_on_def)

lemma ledger_total:
  assumes "bank_inv E d" "w \<in> set (db_wallets d)"
  shows "(\<Sum>e \<leftarrow> entries_of (W_ID w) d. signed_entry e) = W_Balance w"
proof -
  have "ledger_chain 0 (entries_of (W_ID w) d) = Some (W_Balance w)" using assms by (simp add: bank_inv_def balances_ok_def)
  from ledger_chain_sum [OF this] show ?thesis by simp
qed

lemma reconstruct_wallet:
  assumes "bank_inv E d" "w \<in> set (db_wallets d)"
  shows "ledgerRepo_Reconstruct (uuid_String E) (W_ID w) d =
    (if distinct (map L_BalanceBefore (entries_of (W_ID w) d)) then Inr (W_Balance w) else Inl ErrLedgerInconsistent)"
proof -
  have chain: "ledger_chain 0 (entries_of (W_ID w) d) = Some (W_Balance w)" using assms by (simp add: bank_inv_def balances_ok_def)
  have scan: "\<forall>e \<in> set (entries_of (W_ID w) d). scan_ok (W_Currency w) e"
  proof
    fix e assume e: "e \<in> set (entries_of (W_ID w) d)"
    with assms(1) obtain v where v: "v \<in> set (db_wallets d)" "W_ID v = L_WalletID e" "scan_ok (W_Currency v) e"
      by (auto simp: bank_inv_def entries_ok_def entries_of_def)
    with e wallet_unique [OF assms(1) v(1) assms(2)] show "scan_ok (W_Currency w) e" by (simp add: entries_of_def)
  qed
  show ?thesis by (rule reconstruct_chain [OF wallet_found [OF assms] _ chain scan]) (simp add: entries_of_def)
qed

section \<open>Property\<close>

text \<open>C27: \<open>Reconcile\<close> reads the wallet and its ledger in two statements. When the wallet is read in a reachable
  state and the ledger in any later one, in each of which the balance is the sum of the entries, the answer
  compares the earlier balance with the later one: a divergence is reported, and counted by the metric,
  exactly when the balance has moved in between. On one state the wallet is always reported as consistent.
  (As long as no balance recurs before two entries, without which no ledger balance is found at all.)\<close>

theorem reconcile_compares_snapshots:
  assumes "service_reachable E s" "(service_step E)\<^sup>*\<^sup>* s s'" "w \<in> set (db_wallets (svc_db s))" "w' \<in> set (db_wallets (svc_db s'))"
    "W_ID w' = W_ID w" "distinct (map L_BalanceBefore (filter (\<lambda>e. L_WalletID e = W_ID w) (db_ledger (svc_db s'))))"
  shows "Reconcile E (None, svc_db s) (None, svc_db s') (W_ID w) s' =
      (Inr \<lparr>WalletBalance = W_Balance w, LedgerBalance = W_Balance w', Consistent = (W_Balance w = W_Balance w')\<rparr>,
       s'\<lparr>svc_metrics := (if W_Balance w = W_Balance w' then svc_metrics s' else ObserveReconciliationDivergence (svc_metrics s'))\<rparr>)
    \<and> (\<Sum>e \<leftarrow> filter (\<lambda>e. L_WalletID e = W_ID w) (db_ledger (svc_db s)). signed_entry e) = W_Balance w
    \<and> (\<Sum>e \<leftarrow> filter (\<lambda>e. L_WalletID e = W_ID w) (db_ledger (svc_db s')). signed_entry e) = W_Balance w'"
proof -
  have inv: "bank_inv E (svc_db s)" "bank_inv E (svc_db s')"
    using service.reachable_inv [OF assms(1)] service.run_inv [OF assms(2)] by (auto simp: service_inv_def)
  have "ledgerRepo_Reconstruct (uuid_String E) (W_ID w) (svc_db s') = Inr (W_Balance w')"
    using reconstruct_wallet [OF inv(2) assms(4)] assms(5,6) by (simp add: entries_of_def)
  with wallet_found [OF inv(1) assms(3)] ledger_total [OF inv(1) assms(3)] ledger_total [OF inv(2) assms(4)] assms(5)
  show ?thesis by (simp add: Reconcile_def statement_def entries_of_def Let_def)
qed

lemma demo_snapshots:
  "db_wallets (svc_db demo_open) = [hd (db_wallets (svc_db demo_open))]" "W_ID (hd (db_wallets (svc_db demo_open))) = 7"
  "W_Balance (hd (db_wallets (svc_db demo_open))) = 100"
  "map (\<lambda>e. (L_WalletID e, L_BalanceBefore e)) (db_ledger (svc_db demo_bet)) = [(7, 0), (7, 100)]"
proof -
  have "map (\<lambda>w. (W_ID w, W_Balance w)) (db_wallets (svc_db demo_open)) = [(7, 100)]" by code_simp
  then show "db_wallets (svc_db demo_open) = [hd (db_wallets (svc_db demo_open))]" "W_ID (hd (db_wallets (svc_db demo_open))) = 7"
    "W_Balance (hd (db_wallets (svc_db demo_open))) = 100" by auto
  show "map (\<lambda>e. (L_WalletID e, L_BalanceBefore e)) (db_ledger (svc_db demo_bet)) = [(7, 0), (7, 100)]" by code_simp
qed

text \<open>The wallet of the run read before its bet, the ledger after it.\<close>

theorem reconcile_compares_snapshots_witness:
  "fst (Reconcile example_externals (None, svc_db demo_open) (None, svc_db demo_bet) 7 demo_bet) =
     Inr \<lparr>WalletBalance = 100, LedgerBalance = 60, Consistent = False\<rparr>"
proof -
  let ?w = "hd (db_wallets (svc_db demo_open))" and ?w' = "hd (db_wallets (svc_db demo_bet))"
  have w: "?w \<in> set (db_wallets (svc_db demo_open))" using demo_snapshots(1) by (metis list.set_intros(1))
  have w': "?w' \<in> set (db_wallets (svc_db demo_bet))" "W_ID ?w' = W_ID ?w" "W_Balance ?w' = 60"
    by (simp_all add: demo_bet_wallets demo_snapshots(2))
  obtain e f where ef: "db_ledger (svc_db demo_bet) = [e, f]" "L_WalletID e = 7" "L_WalletID f = 7" "L_BalanceBefore e = 0" "L_BalanceBefore f = 100"
    using demo_snapshots(4) by (auto simp: map_eq_Cons_conv)
  have "service_step example_externals demo_open demo_bet"
    unfolding demo_bet_def by (rule demo_process_step) (simp add: demo_command_def demo_money)
  then have run: "(service_step example_externals)\<^sup>*\<^sup>* demo_open demo_bet" by (rule r_into_rtranclp)
  have "distinct (map L_BalanceBefore (filter (\<lambda>e. L_WalletID e = W_ID ?w) (db_ledger (svc_db demo_bet))))"
    using ef by (simp add: demo_snapshots(2))
  from reconcile_compares_snapshots [OF demo_reachable(1) run w w'(1,2) this] w'(3) show ?thesis
    by (simp add: demo_snapshots(2,3))
qed

end
