(* ===== verification/Query.thy ===== *)
theory Query
  imports Financial Go_Library
begin

text \<open>
  The read side: \<^verbatim>\<open>internal/application/query/service.go\<close> over the statements of
  \<^verbatim>\<open>internal/infrastructure/postgres/query.go\<close>. A statement is given the database it sees and the
  error it fails with, if it does (\<open>statement\<close>); the two statements behind a ledger page may see
  different databases.
\<close>

section \<open>Statements\<close>

record LedgerCursor =
  cursor_Timestamp :: time
  cursor_ID :: uuid

definition ledger_key :: "LedgerRecord \<Rightarrow> time \<times> uuid" where
  "ledger_key e = (L_Timestamp e, L_ID e)"

definition ledgerQuery_ListByWallet :: "uuid \<Rightarrow> LedgerCursor option \<Rightarrow> int \<Rightarrow> db \<Rightarrow> LedgerRecord list" where
  "ledgerQuery_ListByWallet walletID after limit d =
     (case after of
        None \<Rightarrow> take (nat limit) (sort_key ledger_key (filter (\<lambda>e. L_WalletID e = walletID) (db_ledger d)))
      | Some c \<Rightarrow> take (nat limit) (sort_key ledger_key
          (filter (\<lambda>e. L_WalletID e = walletID \<and> ledger_key e > (cursor_Timestamp c, cursor_ID c)) (db_ledger d))))"

definition ledgerQuery_CountByWallet :: "uuid \<Rightarrow> db \<Rightarrow> nat" where
  "ledgerQuery_CountByWallet walletID d = length (filter (\<lambda>e. L_WalletID e = walletID) (db_ledger d))"

definition wagerQuery_FindByIDForProvider :: "string \<Rightarrow> uuid \<Rightarrow> db \<Rightarrow> WagerTransactionRecord result" where
  "wagerQuery_FindByIDForProvider providerID i d = with_texts [providerID]
     (someR ErrNoRows (find (\<lambda>t. T_ID t = i \<and> T_ProviderID t = providerID) (db_wagers d)))"

definition wagerQuery_FindByExternalForProvider :: "string \<Rightarrow> string \<Rightarrow> db \<Rightarrow> WagerTransactionRecord result" where
  "wagerQuery_FindByExternalForProvider providerID externalID d = with_texts [providerID, externalID]
     (someR ErrNoRows (find (\<lambda>t. T_ProviderID t = providerID \<and> T_ExternalID t = externalID) (db_wagers d)))"

section \<open>Views\<close>

definition DefaultLedgerLimit :: int where
  "DefaultLedgerLimit = 50"

definition MaxLedgerLimit :: int where
  "MaxLedgerLimit = 100"

record WalletView =
  WV_ID :: uuid
  WV_PlayerID :: string
  WV_Currency :: string
  WV_BalanceMinor :: int64
  WV_Version :: int64
  WV_CreatedAt :: time
  WV_UpdatedAt :: time

record LedgerEntryView =
  LV_ID :: uuid
  LV_TransactionID :: uuid
  LV_Direction :: string
  LV_ValueMinor :: int64
  LV_Currency :: string
  LV_BalanceBeforeMinor :: int64
  LV_BalanceAfterMinor :: int64
  LV_Timestamp :: time

record LedgerPage =
  LP_WalletID :: uuid
  LP_Currency :: string
  LP_Entries :: "LedgerEntryView list"
  LP_NextCursor :: string

record TransactionView =
  TV_ID :: uuid
  TV_ExternalID :: string
  TV_ProviderID :: string
  TV_WalletID :: uuid
  TV_PlayerID :: string
  TV_GameID :: string
  TV_RoundID :: string
  TV_Type :: Type
  TV_State :: State
  TV_AmountMinor :: int64
  TV_Currency :: string
  TV_ReferenceExternalID :: string
  TV_FailureCode :: string
  TV_CreatedAt :: time
  TV_UpdatedAt :: time
  TV_BalanceMinor :: "int64 option"

section \<open>The service\<close>

definition query_Wallet :: "error option \<Rightarrow> uuid \<Rightarrow> db \<Rightarrow> WalletView result" where
  "query_Wallet failure walletID d =
     (case statement failure (walletRepo_Find walletID d) of
        Inl e \<Rightarrow> if e = ErrNoRows then Inl ErrWalletNotFound else Inl e
      | Inr w \<Rightarrow> Inr \<lparr>WV_ID = W_ID w, WV_PlayerID = W_PlayerID w, WV_Currency = W_Currency w, WV_BalanceMinor = W_Balance w,
          WV_Version = W_Version w, WV_CreatedAt = W_CreatedAt w, WV_UpdatedAt = W_UpdatedAt w\<rparr>)"

definition parseLimit :: "string \<Rightarrow> int result" where
  "parseLimit raw =
     (if raw = [] then Inr DefaultLedgerLimit
      else case go_Atoi raw of
        None \<Rightarrow> Inl ErrInvalidLimit
      | Some parsed \<Rightarrow> if parsed < 1 \<or> parsed > MaxLedgerLimit then Inl ErrInvalidLimit else Inr parsed)"

record cursorPayload =
  CP_Timestamp :: string
  CP_ID :: uuid

definition encodeCursor :: "externals \<Rightarrow> time \<Rightarrow> uuid \<Rightarrow> string" where
  "encodeCursor E timestamp i =
     base64_Encode (json_Encode E (JObject [(''ts'', JString (time_Format E timestamp)), (''id'', JString (uuid_String E i))]))"

definition uuid_field :: "externals \<Rightarrow> (uuid \<Rightarrow> 'r \<Rightarrow> 'r) \<Rightarrow> 'r \<Rightarrow> json \<Rightarrow> 'r result" where
  "uuid_field E upd r v =
     (case v of
        JNull \<Rightarrow> Inr r
      | JString s \<Rightarrow> (case uuid_Parse E s of None \<Rightarrow> Inl ErrInvalidJSON | Some u \<Rightarrow> Inr (upd u r))
      | _ \<Rightarrow> Inl ErrInvalidJSON)"

definition cursor_fields :: "externals \<Rightarrow> cursorPayload fields" where
  "cursor_fields E = [(''ts'', string_field (\<lambda>s. CP_Timestamp_update (\<lambda>_. s))), (''id'', uuid_field E (\<lambda>u. CP_ID_update (\<lambda>_. u)))]"

definition decodeCursor :: "externals \<Rightarrow> string \<Rightarrow> LedgerCursor result" where
  "decodeCursor E raw =
     (case base64_Decode raw of
        None \<Rightarrow> Inl ErrInvalidCursor
      | Some decoded \<Rightarrow>
          (case json_Decode E decoded of
             None \<Rightarrow> Inl ErrInvalidCursor
           | Some j \<Rightarrow>
               (case decode_struct False (cursor_fields E) \<lparr>CP_Timestamp = [], CP_ID = uuid_Nil\<rparr> j of
                  Inl _ \<Rightarrow> Inl ErrInvalidCursor
                | Inr payload \<Rightarrow>
                    (case time_Parse E (CP_Timestamp payload) of
                       None \<Rightarrow> Inl ErrInvalidCursor
                     | Some timestamp \<Rightarrow>
                         if CP_ID payload = uuid_Nil then Inl ErrInvalidCursor
                         else Inr \<lparr>cursor_Timestamp = timestamp, cursor_ID = CP_ID payload\<rparr>))))"

definition ledgerEntryView :: "LedgerRecord \<Rightarrow> LedgerEntryView" where
  "ledgerEntryView e = \<lparr>LV_ID = L_ID e, LV_TransactionID = L_TransactionID e, LV_Direction = Direction_string (L_Direction e),
     LV_ValueMinor = L_Value e, LV_Currency = L_Currency e, LV_BalanceBeforeMinor = L_BalanceBefore e,
     LV_BalanceAfterMinor = L_BalanceAfter e, LV_Timestamp = L_Timestamp e\<rparr>"

definition query_Ledger ::
  "externals \<Rightarrow> error option \<times> db \<Rightarrow> error option \<times> db \<Rightarrow> uuid \<Rightarrow> string \<Rightarrow> string \<Rightarrow> LedgerPage result" where
  "query_Ledger E q1 q2 walletID rawCursor rawLimit =
     bindR (parseLimit rawLimit) (\<lambda>limit.
     bindR (if rawCursor = [] then Inr None else bindR (decodeCursor E rawCursor) (\<lambda>c. Inr (Some c))) (\<lambda>after.
     bindR (query_Wallet (fst q1) walletID (snd q1)) (\<lambda>wallet.
     bindR (statement (fst q2) (Inr (ledgerQuery_ListByWallet walletID after (limit + 1) (snd q2)))) (\<lambda>records.
       let more = int (length records) > limit;
           page = (if more then take (nat limit) records else records)
       in Inr \<lparr>LP_WalletID = walletID, LP_Currency = WV_Currency wallet, LP_Entries = map ledgerEntryView page,
            LP_NextCursor = (if more then encodeCursor E (L_Timestamp (last page)) (L_ID (last page)) else [])\<rparr>))))"

definition query_LedgerEntryCount :: "error option \<Rightarrow> uuid \<Rightarrow> db \<Rightarrow> nat result" where
  "query_LedgerEntryCount failure walletID d = statement failure (Inr (ledgerQuery_CountByWallet walletID d))"

definition persistedBalance :: "externals \<Rightarrow> WagerTransactionRecord \<Rightarrow> int64 option" where
  "persistedBalance E record =
     (case T_Result record of
        None \<Rightarrow> None
      | Some data \<Rightarrow>
          (case (case data of
                   JObject ms \<Rightarrow>
                     bindR (json_uuid E (json_field ''transactionId'' ms)) (\<lambda>i.
                     bindR (json_string (json_field ''state'' ms)) (\<lambda>st.
                     bindR (json_int64 (json_field ''balance'' ms)) (\<lambda>balance.
                     bindR (json_money (json_field ''amount'' ms)) (\<lambda>amount. Inr (i, st, balance, amount)))))
                 | JNull \<Rightarrow> Inr (uuid_Nil, [], 0, zero_Money)
                 | _ \<Rightarrow> Inl ErrInvalidJSON) of
             Inl _ \<Rightarrow> None
           | Inr (i, st, balance, amount) \<Rightarrow>
               if i \<noteq> T_ID record \<or> st \<noteq> State_string (T_State record) \<or> balance < 0 then None
               else if minor amount \<noteq> T_Amount record \<or> currency amount \<noteq> T_Currency record then None
               else Some balance))"

definition transactionView :: "externals \<Rightarrow> WagerTransactionRecord \<Rightarrow> TransactionView" where
  "transactionView E t = \<lparr>TV_ID = T_ID t, TV_ExternalID = T_ExternalID t, TV_ProviderID = T_ProviderID t,
     TV_WalletID = T_WalletID t, TV_PlayerID = T_PlayerID t, TV_GameID = T_GameID t, TV_RoundID = T_RoundID t,
     TV_Type = T_Type t, TV_State = T_State t, TV_AmountMinor = T_Amount t, TV_Currency = T_Currency t,
     TV_ReferenceExternalID = T_ReferenceExternalID t, TV_FailureCode = T_FailureCode t, TV_CreatedAt = T_CreatedAt t,
     TV_UpdatedAt = T_UpdatedAt t, TV_BalanceMinor = persistedBalance E t\<rparr>"

definition not_found :: "'a result \<Rightarrow> 'a result" where
  "not_found r = (case r of Inl e \<Rightarrow> if e = ErrNoRows then Inl ErrTransactionNotFound else Inl e | Inr a \<Rightarrow> Inr a)"

definition query_TransactionForProvider ::
  "externals \<Rightarrow> error option \<Rightarrow> string \<Rightarrow> uuid \<Rightarrow> db \<Rightarrow> TransactionView result" where
  "query_TransactionForProvider E failure providerID transactionID d =
     bindR (not_found (statement failure (wagerQuery_FindByIDForProvider providerID transactionID d))) (\<lambda>t.
       Inr (transactionView E t))"

definition query_TransactionByExternalForProvider ::
  "externals \<Rightarrow> error option \<Rightarrow> string \<Rightarrow> string \<Rightarrow> db \<Rightarrow> TransactionView result" where
  "query_TransactionByExternalForProvider E failure providerID externalID d =
     bindR (not_found (statement failure (wagerQuery_FindByExternalForProvider providerID externalID d))) (\<lambda>t.
       Inr (transactionView E t))"

section \<open>Cursors\<close>

lemma cursor_field_for:
  "field_for (cursor_fields E) ''ts'' = Some (string_field (\<lambda>s. CP_Timestamp_update (\<lambda>_. s)))"
  "field_for (cursor_fields E) ''id'' = Some (uuid_field E (\<lambda>u. CP_ID_update (\<lambda>_. u)))"
  by (simp_all add: field_for_def cursor_fields_def)

lemma decode_encode_cursor:
  assumes "externals_ok E" "year_ok t" "i \<noteq> uuid_Nil"
  shows "encodeCursor E t i \<noteq> []" "decodeCursor E (encodeCursor E t i) = Inr \<lparr>cursor_Timestamp = t, cursor_ID = i\<rparr>"
proof -
  let ?text = "json_Encode E (JObject [(''ts'', JString (time_Format E t)), (''id'', JString (uuid_String E i))])"
  have d: "base64_Decode (encodeCursor E t i) = Some ?text" by (simp add: encodeCursor_def base64_roundtrip)
  have "?text \<noteq> []" using assms(1) by (rule externals_okD)
  with d show "encodeCursor E t i \<noteq> []" by (auto simp: base64_Decode_def)
  show "decodeCursor E (encodeCursor E t i) = Inr \<lparr>cursor_Timestamp = t, cursor_ID = i\<rparr>"
    using d externals_okD(6) [OF assms(1)] externals_okD(4) [OF assms(1,2)] externals_okD(1) [OF assms(1)] assms(3)
    by (simp add: decodeCursor_def decode_struct_def cursor_field_for string_field_def uuid_field_def)
qed

section \<open>Pages\<close>

text \<open>The entries of a wallet beyond a position, in the order of the listing.\<close>

definition beyond :: "LedgerCursor option \<Rightarrow> LedgerRecord \<Rightarrow> bool" where
  "beyond after e = (case after of None \<Rightarrow> True | Some c \<Rightarrow> (cursor_Timestamp c, cursor_ID c) < ledger_key e)"

lemma beyond_entry: "beyond (Some \<lparr>cursor_Timestamp = L_Timestamp a, cursor_ID = L_ID a\<rparr>) e \<longleftrightarrow> ledger_key a < ledger_key e"
  by (simp add: beyond_def ledger_key_def [of a])

definition listed :: "uuid \<Rightarrow> LedgerCursor option \<Rightarrow> db \<Rightarrow> LedgerRecord list" where
  "listed walletID after d = filter (beyond after) (sort_key ledger_key (filter (\<lambda>e. L_WalletID e = walletID) (db_ledger d)))"

abbreviation listing_order :: "LedgerRecord \<Rightarrow> LedgerRecord \<Rightarrow> bool" where
  "listing_order a b \<equiv> ledger_key a < ledger_key b"

lemma ListByWallet_listed: "ledgerQuery_ListByWallet walletID after limit d = take (nat limit) (listed walletID after d)"
  by (cases after) (simp_all add: ledgerQuery_ListByWallet_def listed_def beyond_def filter_sort conj_commute)

lemma set_listed: "set (listed walletID after d) = {e \<in> set (db_ledger d). L_WalletID e = walletID \<and> beyond after e}"
  by (auto simp: listed_def)

lemma listed_order:
  assumes "distinct (map L_ID (db_ledger d))"
  shows "sorted_wrt listing_order (listed walletID after d)"
proof -
  let ?xs = "filter (\<lambda>e. L_WalletID e = walletID) (db_ledger d)"
  have "inj_on L_ID (set (db_ledger d))" using assms by (simp add: distinct_map)
  then have "inj_on ledger_key (set ?xs)" by (auto simp: inj_on_def ledger_key_def)
  moreover have "distinct ?xs" using assms by (simp add: distinct_map)
  ultimately have "distinct (map ledger_key (sort_key ledger_key ?xs))" by (simp add: distinct_map)
  then have "sorted_wrt (<) (map ledger_key (sort_key ledger_key ?xs))" by (simp add: strict_sorted_iff)
  then have "sorted_wrt listing_order (sort_key ledger_key ?xs)" by (simp add: sorted_wrt_map)
  then show ?thesis unfolding listed_def by (rule sorted_wrt_filter)
qed

lemma listed_distinct: "distinct (map L_ID (db_ledger d)) \<Longrightarrow> distinct (listed walletID after d)"
  by (simp add: listed_def distinct_map)

lemma listed_split:
  assumes "sorted_wrt listing_order xs" "0 < n" "n < length xs" "e = last (take n xs)"
  shows "drop n xs = filter (\<lambda>x. ledger_key e < ledger_key x) xs" "x \<in> set (take n xs) \<Longrightarrow> ledger_key x \<le> ledger_key e"
proof -
  have ne: "take n xs \<noteq> []" using assms(2,3) by auto
  have s: "sorted_wrt listing_order (take n xs @ drop n xs)" using assms(1) by simp
  have e: "e \<in> set (take n xs)" using ne assms(4) by simp
  have le: "ledger_key x \<le> ledger_key e" if "x \<in> set (take n xs)" for x
  proof -
    obtain ys where ys: "take n xs = ys @ [e]" using ne assms(4) by (metis append_butlast_last_id)
    with s have "sorted_wrt listing_order (ys @ [e])" by (simp add: sorted_wrt_append)
    with that ys show ?thesis by (auto simp: sorted_wrt_append less_imp_le)
  qed
  then show "x \<in> set (take n xs) \<Longrightarrow> ledger_key x \<le> ledger_key e" .
  have "filter (\<lambda>x. ledger_key e < ledger_key x) (take n xs) = []" using le by (auto simp: filter_empty_conv not_less)
  moreover have "filter (\<lambda>x. ledger_key e < ledger_key x) (drop n xs) = drop n xs"
    using s e unfolding filter_id_conv sorted_wrt_append by blast
  ultimately show "drop n xs = filter (\<lambda>x. ledger_key e < ledger_key x) xs"
    by (metis append_Nil append_take_drop_id filter_append)
qed

text \<open>A client that follows the cursors, each page being answered by the next database.\<close>

fun ledger_walk :: "externals \<Rightarrow> uuid \<Rightarrow> string \<Rightarrow> string \<Rightarrow> db list \<Rightarrow> (LedgerEntryView list \<times> string) result" where
  "ledger_walk E walletID rawLimit cursor [] = Inr ([], cursor)"
| "ledger_walk E walletID rawLimit cursor (d # ds) =
     bindR (query_Ledger E (None, d) (None, d) walletID cursor rawLimit) (\<lambda>page.
       if LP_NextCursor page = [] then Inr (LP_Entries page, [])
       else bindR (ledger_walk E walletID rawLimit (LP_NextCursor page) ds) (\<lambda>(es, c). Inr (LP_Entries page @ es, c)))"

definition pageable :: "uuid \<Rightarrow> db \<Rightarrow> bool" where
  "pageable walletID d \<longleftrightarrow> walletID \<in> W_ID ` set (db_wallets d) \<and> distinct (map L_ID (db_ledger d))
     \<and> (\<forall>e \<in> set (db_ledger d). L_WalletID e = walletID \<longrightarrow> year_ok (L_Timestamp e) \<and> L_ID e \<noteq> uuid_Nil)"

definition cursor_text :: "externals \<Rightarrow> LedgerCursor option \<Rightarrow> string \<Rightarrow> bool" where
  "cursor_text E after raw \<longleftrightarrow> (case after of None \<Rightarrow> raw = [] | Some c \<Rightarrow> raw \<noteq> [] \<and> decodeCursor E raw = Inr c)"

lemma parseLimit_range: "parseLimit raw = Inr n \<Longrightarrow> 1 \<le> n \<and> n \<le> 100"
  by (auto simp: parseLimit_def DefaultLedgerLimit_def MaxLedgerLimit_def split: if_splits option.splits)

lemma query_Ledger_page:
  assumes "externals_ok E" "pageable walletID d" "parseLimit rawLimit = Inr n" "cursor_text E after raw"
  defines "xs \<equiv> listed walletID after d"
  shows "\<exists>page. query_Ledger E (None, d) (None, d) walletID raw rawLimit = Inr page \<and>
    (if length xs \<le> nat n then LP_Entries page = map ledgerEntryView xs \<and> LP_NextCursor page = []
     else LP_Entries page = map ledgerEntryView (take (nat n) xs) \<and> LP_NextCursor page \<noteq> [] \<and>
       (let e = last (take (nat n) xs) in
          cursor_text E (Some \<lparr>cursor_Timestamp = L_Timestamp e, cursor_ID = L_ID e\<rparr>) (LP_NextCursor page)))"
proof -
  have n: "1 \<le> n" using parseLimit_range [OF assms(3)] by simp
  obtain w where "find (\<lambda>w. W_ID w = walletID) (db_wallets d) = Some w"
    using assms(2) by (cases "find (\<lambda>w. W_ID w = walletID) (db_wallets d)") (auto simp: pageable_def find_None_iff)
  then obtain v where v: "query_Wallet None walletID d = Inr v" by (simp add: query_Wallet_def statement_def walletRepo_Find_def)
  have after: "(if raw = [] then Inr None else bindR (decodeCursor E raw) (\<lambda>c. Inr (Some c))) = Inr after"
    using assms(4) by (auto simp: cursor_text_def split: option.splits)
  have len: "nat (n + 1) = nat n + 1" using n by (simp add: nat_add_distrib)
  show ?thesis
  proof (cases "length xs \<le> nat n")
    case True
    then have "\<not> n < int (length xs)" using n by linarith
    then show ?thesis using True n len
      by (simp add: query_Ledger_def assms(3) after v statement_def ListByWallet_listed Let_def flip: xs_def)
  next
    case False
    let ?e = "last (take (nat n) xs)"
    have "take (nat n) xs \<noteq> []" using False n by auto
    then have "?e \<in> set xs" by (metis in_set_takeD last_in_set)
    then have "year_ok (L_Timestamp ?e)" "L_ID ?e \<noteq> uuid_Nil" using assms(2) by (auto simp: xs_def set_listed pageable_def)
    note c = decode_encode_cursor [OF assms(1) this]
    have "length (take (nat n + 1) xs) = nat n + 1" "take (nat n) (take (nat n + 1) xs) = take (nat n) xs" using False by simp_all
    then show ?thesis using False n len c
      by (simp add: query_Ledger_def assms(3) after v statement_def ListByWallet_listed Let_def cursor_text_def flip: xs_def)
  qed
qed

definition ledger_grows :: "uuid \<Rightarrow> db \<Rightarrow> db \<Rightarrow> bool" where
  "ledger_grows walletID d d' \<longleftrightarrow> {e \<in> set (db_ledger d). L_WalletID e = walletID} \<subseteq> {e \<in> set (db_ledger d'). L_WalletID e = walletID}"

lemma listed_grows: "ledger_grows walletID d d' \<Longrightarrow> set (listed walletID after d) \<subseteq> set (listed walletID after d')"
  by (auto simp: ledger_grows_def set_listed)

lemma listed_narrow: "(\<And>x. beyond a x \<Longrightarrow> beyond b x) \<Longrightarrow> listed walletID a d = filter (beyond a) (listed walletID b d)"
  unfolding listed_def filter_filter by (rule filter_cong) auto

lemma walk_complete:
  assumes "externals_ok E" "parseLimit rawLimit = Inr n" "ds \<noteq> []" "\<forall>d \<in> set ds. pageable walletID d"
    "sorted_wrt (ledger_grows walletID) ds" "cursor_text E after raw" "length (listed walletID after (last ds)) \<le> nat n * length ds"
  shows "\<exists>es. ledger_walk E walletID rawLimit raw ds = Inr (map ledgerEntryView es, []) \<and> sorted_wrt listing_order es
    \<and> (\<forall>e \<in> set es. beyond after e) \<and> set (listed walletID after (hd ds)) \<subseteq> set es \<and> set es \<subseteq> set (listed walletID after (last ds))"
  using assms(3-7)
proof (induction ds arbitrary: raw after)
  case (Cons d ds)
  let ?xs = "listed walletID after d" and ?n = "nat n"
  have n: "1 \<le> ?n" using parseLimit_range [OF assms(2)] by linarith
  have dd: "distinct (map L_ID (db_ledger x))" if "x \<in> set (d # ds)" for x using Cons.prems(2) that by (auto simp: pageable_def)
  have sorted: "sorted_wrt listing_order ?xs" using dd by (intro listed_order) simp
  have grow: "ds \<noteq> [] \<Longrightarrow> ledger_grows walletID d (last ds)" "ds \<noteq> [] \<Longrightarrow> ledger_grows walletID d (hd ds)"
    using Cons.prems(3) by simp_all
  have up: "set ?xs \<subseteq> set (listed walletID after (last (d # ds)))"
    using grow(1) listed_grows by (cases "ds = []") auto
  have "pageable walletID d" using Cons.prems(2) by simp
  from query_Ledger_page [OF assms(1) this assms(2) Cons.prems(4)] obtain page where
    page: "query_Ledger E (None, d) (None, d) walletID raw rawLimit = Inr page" and
    cases: "if length ?xs \<le> ?n then LP_Entries page = map ledgerEntryView ?xs \<and> LP_NextCursor page = []
     else LP_Entries page = map ledgerEntryView (take ?n ?xs) \<and> LP_NextCursor page \<noteq> [] \<and>
       (let e = last (take ?n ?xs) in
          cursor_text E (Some \<lparr>cursor_Timestamp = L_Timestamp e, cursor_ID = L_ID e\<rparr>) (LP_NextCursor page))" by blast
  show ?case
  proof (cases "length ?xs \<le> ?n")
    case True
    then show ?thesis using page cases sorted up by (intro exI [of _ ?xs]) (auto simp: set_listed)
  next
    case False
    let ?page = "take ?n ?xs" and ?e = "last (take ?n ?xs)"
    let ?after = "Some \<lparr>cursor_Timestamp = L_Timestamp ?e, cursor_ID = L_ID ?e\<rparr>"
    have big: "?n < length ?xs" using False by simp
    note split = listed_split [OF sorted _ big refl]
    have e: "?e \<in> set ?page" using n big by (intro last_in_set) auto
    then have "beyond after ?e" using in_set_takeD [OF e] by (simp add: set_listed)
    then have narrow: "beyond ?after x \<Longrightarrow> beyond after x" for x
      unfolding beyond_entry by (auto simp: beyond_def split: option.splits)
    have later: "listed walletID ?after x = filter (beyond ?after) (listed walletID after x)" for x
      using narrow by (rule listed_narrow)
    have rest: "drop ?n ?xs = listed walletID ?after d"
      unfolding later beyond_entry [abs_def] using split(1) n by simp
    have low: "x \<in> set ?page \<Longrightarrow> \<not> beyond ?after x" for x using split(2) [of x] n by (simp add: beyond_entry not_less)
    have ne: "ds \<noteq> []"
    proof
      assume "ds = []"
      with Cons.prems(5) big show False by simp
    qed
    have "length (listed walletID ?after (last ds)) + ?n \<le> length (listed walletID after (last ds))"
    proof -
      let ?L = "listed walletID after (last ds)"
      have "set ?page \<subseteq> set (filter (\<lambda>x. \<not> beyond ?after x) ?L)"
        using low up ne by (auto dest: in_set_takeD)
      moreover have "distinct ?page" using dd by (intro distinct_take listed_distinct) simp
      ultimately have "length ?page \<le> length (filter (\<lambda>x. \<not> beyond ?after x) ?L)"
        by (metis card_mono distinct_card finite_set card_length order_trans)
      moreover have "length ?page = ?n" using big by simp
      ultimately show ?thesis unfolding later using sum_length_filter_compl [of "beyond ?after" ?L] by simp
    qed
    then have short: "length (listed walletID ?after (last ds)) \<le> ?n * length ds" using Cons.prems(5) ne by simp
    have cursor: "cursor_text E ?after (LP_NextCursor page)" using cases False by (simp add: Let_def)
    have tail: "\<forall>d \<in> set ds. pageable walletID d" "sorted_wrt (ledger_grows walletID) ds" using Cons.prems(2,3) by simp_all
    obtain es where es: "ledger_walk E walletID rawLimit (LP_NextCursor page) ds = Inr (map ledgerEntryView es, [])"
      "sorted_wrt listing_order es" "\<forall>e \<in> set es. beyond ?after e" "set (listed walletID ?after (hd ds)) \<subseteq> set es"
      "set es \<subseteq> set (listed walletID ?after (last ds))"
      using Cons.IH [OF ne tail cursor short] by blast
    have "ledger_walk E walletID rawLimit raw (d # ds) = Inr (map ledgerEntryView (?page @ es), [])"
      using page cases False es(1) by simp
    moreover have "sorted_wrt listing_order (?page @ es)"
    proof -
      have "listing_order a b" if "a \<in> set ?page" "b \<in> set es" for a b
        using low [OF that(1)] es(3) that(2) by (auto simp: beyond_entry not_less intro: le_less_trans)
      with es(2) sorted show ?thesis by (simp add: sorted_wrt_append sorted_wrt_take)
    qed
    moreover have "set (listed walletID after d) \<subseteq> set (?page @ es)"
    proof -
      have "set ?xs = set ?page \<union> set (drop ?n ?xs)" by (metis append_take_drop_id set_append)
      also have "set (drop ?n ?xs) \<subseteq> set es" using rest listed_grows [OF grow(2) [OF ne], of ?after] es(4) by auto
      finally show ?thesis by auto
    qed
    moreover have "set (?page @ es) \<subseteq> set (listed walletID after (last (d # ds)))"
      using up es(5) ne by (auto simp: later dest: in_set_takeD)
    moreover have "\<forall>e \<in> set (?page @ es). beyond after e" using es(3) narrow by (auto simp: set_listed dest: in_set_takeD)
    ultimately show ?thesis by (intro exI [of _ "?page @ es"]) simp
  qed
qed simp

section \<open>Stored balances\<close>

lemma State_string_of_string: "State_string (State_of_string s) = s"
  by (simp add: State_of_string_def)

lemma persistedBalance_replay:
  assumes "replayResult E t = Inr r"
  shows "persistedBalance E t = Some (R_Balance r)"
proof -
  from assms obtain data where data: "T_Result t = Some data" "unmarshalResult E data = Inr r" "R_TransactionID r = T_ID t"
      "R_State r = T_State t" "0 \<le> R_Balance r" "minor (R_Amount r) = T_Amount t" "currency (R_Amount r) = T_Currency t"
    by (auto simp: replayResult_def split: option.splits sum.splits if_splits)
  show ?thesis
  proof (cases data)
    case (JObject ms)
    with data(2) obtain st f where "json_uuid E (json_field ''transactionId'' ms) = Inr (R_TransactionID r)"
      "json_string (json_field ''state'' ms) = Inr st" "json_int64 (json_field ''balance'' ms) = Inr (R_Balance r)"
      "json_money (json_field ''amount'' ms) = Inr (R_Amount r)" "R_State r = State_of_string st"
      by (auto simp: unmarshalResult_def result_simps)
    moreover from this(5) data(4) have "st = State_string (T_State t)" by (metis State_string_of_string)
    ultimately show ?thesis using data JObject by (simp add: persistedBalance_def)
  next
    case JNull
    with data(2) have r: "r = \<lparr>R_TransactionID = uuid_Nil, R_State = State_of_string [], R_Balance = 0, R_Amount = zero_Money, R_FailureCode = []\<rparr>"
      by (simp add: unmarshalResult_def)
    moreover have "State_string (T_State t) = []" using data(4) State_string_of_string [of "[]"] r by (metis Result.select_convs(2))
    ultimately show ?thesis using data JNull by (simp add: persistedBalance_def)
  qed (use data(2) in \<open>simp_all add: unmarshalResult_def\<close>)
qed

section \<open>Properties\<close>

text \<open>A cursor of the ledger reads back as the position it was made of, for every time that RFC 3339
  can express and every identifier but the nil one.\<close>

theorem ledger_cursor_roundtrip:
  assumes "externals_ok E" "year_ok t" "i \<noteq> uuid_Nil"
  shows "decodeCursor E (encodeCursor E t i) = Inr \<lparr>cursor_Timestamp = t, cursor_ID = i\<rparr>"
  using assms by (rule decode_encode_cursor(2))

theorem ledger_cursor_roundtrip_witness:
  "decodeCursor example_externals (encodeCursor example_externals 17 9) = Inr \<lparr>cursor_Timestamp = 17, cursor_ID = 9\<rparr>"
  by (rule ledger_cursor_roundtrip [OF example_externals_ok]) (simp_all add: year_ok_def)

text \<open>C26: A client that follows the cursors of the ledger pages with any page size reads the whole ledger,
  even while it grows: the entries come in the order of (timestamp, id) without a duplicate, all of them
  are entries of the wallet, none of those that existed when the walk began is missing, and the walk ends
  after at most as many pages as the final ledger fills.\<close>

theorem ledger_pages_complete:
  assumes "externals_ok E" "parseLimit rawLimit = Inr n" "ds \<noteq> []" "list_all (pageable walletID) ds"
    "sorted_wrt (ledger_grows walletID) ds" "ledgerQuery_CountByWallet walletID (last ds) \<le> nat n * length ds"
  shows "\<exists>es. ledger_walk E walletID rawLimit [] ds = Inr (map ledgerEntryView es, []) \<and> sorted_wrt listing_order es
    \<and> {e \<in> set (db_ledger (hd ds)). L_WalletID e = walletID} \<subseteq> set es
    \<and> set es \<subseteq> {e \<in> set (db_ledger (last ds)). L_WalletID e = walletID}"
proof -
  have "length (listed walletID None (last ds)) = ledgerQuery_CountByWallet walletID (last ds)"
    by (simp add: listed_def beyond_def ledgerQuery_CountByWallet_def)
  with walk_complete [OF assms(1-3) _ assms(5), of None "[]"] assms(4,6) show ?thesis
    by (auto simp: list_all_iff cursor_text_def set_listed beyond_def)
qed

definition example_growth :: "db list" where
  "example_growth = (let d1 = example_ledger [(1, Credit, 100, 0, 100), (2, Debit, 40, 100, 60)];
       d2 = example_ledger [(1, Credit, 100, 0, 100), (2, Debit, 40, 100, 60), (3, Credit, 5, 60, 65)] in [d1, d2, d2])"

theorem ledger_pages_complete_witness:
  "\<exists>es. ledger_walk example_externals 7 ''1'' [] example_growth = Inr (map ledgerEntryView es, [])
     \<and> set (db_ledger (hd example_growth)) \<subseteq> set es"
proof -
  have "\<exists>es. ledger_walk example_externals 7 ''1'' [] example_growth = Inr (map ledgerEntryView es, []) \<and> sorted_wrt listing_order es
    \<and> {e \<in> set (db_ledger (hd example_growth)). L_WalletID e = 7} \<subseteq> set es
    \<and> set es \<subseteq> {e \<in> set (db_ledger (last example_growth)). L_WalletID e = 7}"
  proof (rule ledger_pages_complete [OF example_externals_ok])
    show "parseLimit ''1'' = Inr 1" by code_simp
    show "example_growth \<noteq> []" by (simp add: example_growth_def Let_def)
    show "list_all (pageable 7) example_growth"
      by (simp add: example_growth_def pageable_def example_ledger_def example_entry_def year_ok_def Let_def)
    show "sorted_wrt (ledger_grows 7) example_growth"
      by (auto simp: example_growth_def ledger_grows_def example_ledger_def example_entry_def Let_def)
    show "ledgerQuery_CountByWallet 7 (last example_growth) \<le> nat 1 * length example_growth"
      by (simp add: example_growth_def ledgerQuery_CountByWallet_def example_ledger_def example_entry_def Let_def)
  qed
  moreover have "{e \<in> set (db_ledger (hd example_growth)). L_WalletID e = 7} = set (db_ledger (hd example_growth))"
    by (auto simp: example_growth_def example_ledger_def example_entry_def Let_def)
  ultimately show ?thesis by auto
qed

end
