(* ===== verification/Keycloak.thy ===== *)
theory Keycloak
  imports Go_Library
begin

text \<open>
  The token verifier of \<^verbatim>\<open>internal/infrastructure/keycloak/verifier.go\<close>. The OIDC library checks
  the signature, the issuer, the audience and the expiry: its answer, an error or the claims document, is
  an argument. What the repository adds is modelled: the classification of its errors, the decoding of the
  claims, the strict not-before rule and the roles.
\<close>

definition RoleProvider :: string where
  "RoleProvider = ''provider''"

definition RoleInternal :: string where
  "RoleInternal = ''internal''"

record Identity =
  id_Subject :: string
  id_Username :: string
  id_ProviderID :: string
  id_Roles :: "string list"

fun HasRole_loop :: "string list \<Rightarrow> string \<Rightarrow> bool" where
  "HasRole_loop [] role = False"
| "HasRole_loop (current # roles) role = (if current = role then True else HasRole_loop roles role)"

definition HasRole :: "Identity \<Rightarrow> string \<Rightarrow> bool" where
  "HasRole i role = HasRole_loop (id_Roles i) role"

datatype oidc_error = OidcCanceled | OidcDeadlineExceeded | OidcError string

fun contains :: "string \<Rightarrow> string \<Rightarrow> bool" where
  "contains [] needle = (needle = [])"
| "contains (c # s) needle = (take (length needle) (c # s) = needle \<or> contains s needle)"

definition isVerifierUnavailable :: "oidc_error \<Rightarrow> bool" where
  "isVerifierUnavailable err =
     (case err of
        OidcCanceled \<Rightarrow> True
      | OidcDeadlineExceeded \<Rightarrow> True
      | OidcError message \<Rightarrow> contains message ''fetching keys'' \<or> contains message ''get keys failed'')"

definition classifyVerificationError :: "oidc_error \<Rightarrow> error" where
  "classifyVerificationError err = (if isVerifierUnavailable err then ErrVerifierUnavailable else ErrInvalidToken)"

record claims =
  cl_Subject :: string
  cl_PreferredUsername :: string
  cl_ProviderID :: string
  cl_NotBefore :: "json option"
  cl_Roles :: "string list"

fun string_elements :: "json list \<Rightarrow> string list result" where
  "string_elements [] = Inr []"
| "string_elements (JNull # js) = bindR (string_elements js) (\<lambda>ss. Inr ([] # ss))"
| "string_elements (JString s # js) = bindR (string_elements js) (\<lambda>ss. Inr (s # ss))"
| "string_elements (j # js) = Inl ErrInvalidJSON"

definition roles_field :: "claims \<Rightarrow> json \<Rightarrow> claims result" where
  "roles_field r v =
     (case v of
        JNull \<Rightarrow> Inr (r\<lparr>cl_Roles := []\<rparr>)
      | JArray js \<Rightarrow> bindR (string_elements js) (\<lambda>ss. Inr (r\<lparr>cl_Roles := ss\<rparr>))
      | _ \<Rightarrow> Inl ErrInvalidJSON)"

definition claims_fields :: "claims fields" where
  "claims_fields =
     [(''sub'', string_field (\<lambda>s. cl_Subject_update (\<lambda>_. s))),
      (''preferred_username'', string_field (\<lambda>s. cl_PreferredUsername_update (\<lambda>_. s))),
      (''provider_id'', string_field (\<lambda>s. cl_ProviderID_update (\<lambda>_. s))),
      (''nbf'', (\<lambda>r v. Inr (r\<lparr>cl_NotBefore := Some v\<rparr>))),
      (''realm_access'', decode_struct False [(''roles'', roles_field)])]"

text \<open>The text of an integer, as the JSON grammar has it.\<close>

definition json_integer :: "string \<Rightarrow> bool" where
  "json_integer s = canonical_digits (if take 1 s = ''-'' then drop 1 s else s)"

definition number_seconds :: "json \<Rightarrow> int option" where
  "number_seconds raw =
     (case raw of
        JInt i \<Rightarrow> if int64_ok i then Some i else None
      | JString s \<Rightarrow> if json_integer s then go_Atoi s else None
      | _ \<Rightarrow> None)"

text \<open>\<^verbatim>\<open>time.Unix\<close>: seconds from 1970 in a count that begins in the year 1 and wraps.\<close>

definition time_Unix :: "int64 \<Rightarrow> time" where
  "time_Unix seconds = wrap64 (seconds + 62135596800) * 1000000000"

definition validateNotBefore :: "json option \<Rightarrow> time \<Rightarrow> unit result" where
  "validateNotBefore raw now =
     (case raw of
        None \<Rightarrow> Inr ()
      | Some JNull \<Rightarrow> Inr ()
      | Some v \<Rightarrow>
          (case number_seconds v of
             None \<Rightarrow> Inl ErrInvalidToken
           | Some seconds \<Rightarrow> if time_Unix seconds > now then Inl ErrInvalidToken else Inr ()))"

definition Verifier_Verify :: "oidc_error + json \<Rightarrow> time \<Rightarrow> Identity result" where
  "Verifier_Verify answer now =
     (case answer of
        Inl err \<Rightarrow> Inl (classifyVerificationError err)
      | Inr token \<Rightarrow>
          (case decode_struct False claims_fields
                  \<lparr>cl_Subject = [], cl_PreferredUsername = [], cl_ProviderID = [], cl_NotBefore = None, cl_Roles = []\<rparr> token of
             Inl _ \<Rightarrow> Inl ErrInvalidToken
           | Inr claims \<Rightarrow>
               bindR (validateNotBefore (cl_NotBefore claims) now) (\<lambda>_.
                 Inr \<lparr>id_Subject = cl_Subject claims, id_Username = cl_PreferredUsername claims,
                      id_ProviderID = cl_ProviderID claims, id_Roles = cl_Roles claims\<rparr>)))"

section \<open>Lemmas\<close>

lemma HasRole_iff [simp]: "HasRole i role \<longleftrightarrow> role \<in> set (id_Roles i)"
proof -
  have "HasRole_loop rs role \<longleftrightarrow> role \<in> set rs" for rs by (induction rs) auto
  then show ?thesis by (simp add: HasRole_def)
qed

lemma Verify_class: "Verifier_Verify answer now = Inl e \<Longrightarrow> e = ErrInvalidToken \<or> e = ErrVerifierUnavailable"
  by (auto simp: Verifier_Verify_def classifyVerificationError_def validateNotBefore_def result_simps
      split: sum.splits option.splits json.splits if_splits)

text \<open>A token is accepted from its not-before second on; the comparison is exact as long as the addition
  of the epoch does not overflow, and accepts a date beyond that.\<close>

lemma not_before_exact:
  assumes "int64_ok n" "n \<le> max_int64 - 62135596800"
  shows "validateNotBefore (Some (JInt n)) now = (if (n + 62135596800) * 1000000000 \<le> now then Inr () else Inl ErrInvalidToken)"
proof -
  have "wrap64 (n + 62135596800) = n + 62135596800" using assms by (intro wrap64_id) (simp add: int64_defs)
  then show ?thesis using assms(1) by (simp add: validateNotBefore_def number_seconds_def time_Unix_def not_le)
qed

lemma not_before_overflow: "0 \<le> now \<Longrightarrow> validateNotBefore (Some (JInt max_int64)) now = Inr ()"
  by (simp add: validateNotBefore_def number_seconds_def time_Unix_def int64_defs wrap64_def)

end
