(* ===== verification/Http.thy ===== *)
theory Http
  imports Query Keycloak
begin
text \<open>
  The HTTP adapter of \<^verbatim>\<open>internal/transport/http\<close>: routing, authentication, the handlers of the
  wagering and wallet endpoints, the health checks and the mapping of errors to responses. A request has
  a clean path, given by its unescaped segments, and its body is what the JSON decoder reads from it.
  A response carries its status and its payload; the message text of an error is not modelled. What the
  identity provider, the database, the clock and the random source answer during a request is the record
  \<open>http_env\<close>.
\<close>

section \<open>Requests and responses\<close>

record moneyDTO =
  dto_Amount :: string
  dto_Currency :: string

record wageringTransactionRequest =
  wr_ProviderID :: string
  wr_ExternalID :: string
  wr_WalletID :: string
  wr_PlayerID :: string
  wr_GameID :: string
  wr_RoundID :: string
  wr_ReferenceExternalID :: string
  wr_Type :: string
  wr_Amount :: moneyDTO

record openWalletRequest =
  ow_PlayerID :: string
  ow_OpeningBalance :: moneyDTO

record wageringResultResponse =
  rr_TransactionID :: string
  rr_State :: string
  rr_Amount :: Money
  rr_Balance :: "Money option"
  rr_FailureCode :: string
  rr_IdempotentReplay :: "bool option"

record walletResponse =
  wp_WalletID :: string
  wp_PlayerID :: string
  wp_Currency :: string
  wp_Balance :: Money
  wp_Version :: int64
  wp_CreatedAt :: time
  wp_UpdatedAt :: time

record ledgerEntryResponse =
  lr_EntryID :: string
  lr_WalletID :: string
  lr_TransactionID :: string
  lr_Direction :: string
  lr_Amount :: Money
  lr_BalanceBefore :: Money
  lr_BalanceAfter :: Money
  lr_Timestamp :: time

record ledgerResponse =
  lp_WalletID :: string
  lp_Currency :: string
  lp_Entries :: "ledgerEntryResponse list"
  lp_NextCursor :: "string option"

record reconciliationResponse =
  rc_WalletID :: string
  rc_StoredBalance :: Money
  rc_CalculatedBalance :: "Money option"
  rc_Difference :: "Money option"
  rc_Consistent :: bool
  rc_CheckedEntries :: nat

datatype payload =
    ErrorBody string
  | ResultBody wageringResultResponse
  | WalletBody walletResponse
  | LedgerBody ledgerResponse
  | ReconciliationBody reconciliationResponse
  | HealthBody string "(string \<times> string) list"
  | MetricsBody Metrics
  | NoBody

record http_response =
  rs_Status :: int
  rs_Correlation :: string
  rs_Allow :: string
  rs_Body :: payload

record http_request =
  rq_Method :: string
  rq_Path :: "string list"
  rq_Authorization :: string
  rq_CorrelationID :: string
  rq_IdempotencyKey :: string
  rq_Cursor :: string
  rq_Limit :: string
  rq_BodySize :: int
  rq_Body :: json_stream

record http_env =
  he_Verify :: "string \<Rightarrow> Identity result"
  he_NewCorrelation :: string
  he_NewID :: uuid
  he_Tx :: tx_env
  he_Tx2 :: tx_env
  he_Draws :: draws
  he_Views :: views
  he_Now :: time
  he_Elapsed :: duration
  he_Read1 :: "error option \<times> db"
  he_Read2 :: "error option \<times> db"
  he_Read3 :: "error option \<times> db"
  he_Read4 :: "error option \<times> db"
  he_Checks :: "(string \<times> error option) list"

section \<open>Errors\<close>

definition isWalletUniqueViolation :: "error \<Rightarrow> bool" where
  "isWalletUniqueViolation err =
     (case err of PgError code constraint \<Rightarrow> code = ''23505'' \<and> constraint = ''wallets_player_id_currency_key'' | _ \<Rightarrow> False)"

definition isConnectionFailure :: "error \<Rightarrow> bool" where
  "isConnectionFailure err =
     (case err of
        ErrConnect \<Rightarrow> True
      | PgError code _ \<Rightarrow> length code = 5 \<and> take 2 code \<in> set [''08'', ''53'', ''57'']
      | _ \<Rightarrow> False)"

definition mapError :: "error \<Rightarrow> int \<times> string" where
  "mapError err =
     (if err = ErrVerifierUnavailable then (503, ''DEPENDENCY_UNAVAILABLE'')
      else if err = ErrInvalidToken then (401, ''UNAUTHENTICATED'')
      else if err = errUnauthenticated then (401, ''UNAUTHENTICATED'')
      else if err = errProviderIdentity then (401, ''UNAUTHENTICATED'')
      else if err = errForbidden then (403, ''FORBIDDEN'')
      else if err \<in> set [ErrWalletNotFound, ErrTransactionNotFound, ErrNoRows] then (404, ''NOT_FOUND'')
      else if err \<in> set [ErrInvalidCursor, ErrInvalidLimit] then (400, ''INVALID_REQUEST'')
      else if err \<in> set [ErrInvalidCommand, ErrReferenceInvalid, ErrInvalidTransaction] then (400, ''INVALID_REQUEST'')
      else if err = ErrIdempotencyConflict then (409, ''IDEMPOTENCY_CONFLICT'')
      else if err = ErrReplayUnavailable then (409, ''REPLAY_UNAVAILABLE'')
      else if err = errWalletAlreadyExists then (409, ''WALLET_ALREADY_EXISTS'')
      else if err = errRouteNotFound then (404, ''NOT_FOUND'')
      else if err = errMethodNotAllowed then (405, ''METHOD_NOT_ALLOWED'')
      else if err \<in> set [ErrInvalidAmount, ErrInvalidCurrency, ErrOverflow] then (400, ''INVALID_AMOUNT'')
      else if err = errUnsupportedType then (400, ''UNSUPPORTED_TRANSACTION_TYPE'')
      else if err = errOpeningNotAllowed then (400, ''OPENING_NOT_ALLOWED'')
      else if err = errInvalidRequest then (400, ''INVALID_REQUEST'')
      else if err = errInvalidPersistedValue then (500, ''INTERNAL_ERROR'')
      else if err \<in> set [errDependencyUnavailable, ErrDeadlineExceeded, ErrCanceled] then (503, ''DEPENDENCY_UNAVAILABLE'')
      else if isConnectionFailure err then (503, ''DEPENDENCY_UNAVAILABLE'')
      else if isWalletUniqueViolation err then (409, ''WALLET_ALREADY_EXISTS'')
      else (500, ''INTERNAL_ERROR''))"

definition writeJSON :: "int \<Rightarrow> payload \<Rightarrow> http_response" where
  "writeJSON status body = \<lparr>rs_Status = status, rs_Correlation = [], rs_Allow = [], rs_Body = body\<rparr>"

definition writeError :: "error \<Rightarrow> http_response" where
  "writeError err = (case mapError err of (status, code) \<Rightarrow> writeJSON status (ErrorBody code))"

section \<open>Request data\<close>

definition maxRequestBodyBytes :: int where
  "maxRequestBodyBytes = 65536"

definition toMoney :: "moneyDTO \<Rightarrow> Money result" where
  "toMoney m = (if dto_Amount m = [] \<or> dto_Currency m = [] then Inl errInvalidRequest else money_New (dto_Amount m) (dto_Currency m))"

definition wireMoney :: "int64 \<Rightarrow> string \<Rightarrow> Money result" where
  "wireMoney m cur =
     (if m < 0 then Inl errInvalidPersistedValue
      else case money_New (fmt_d (go_quot m 100) @ ''.'' @ fmt_02d (go_rem m 100)) cur of
        Inl _ \<Rightarrow> Inl errInvalidPersistedValue
      | Inr v \<Rightarrow> Inr v)"

text \<open>A body beyond the limit ends in a read error, at the latest when the end of the text is looked for.\<close>

definition decodeJSON :: "(json \<Rightarrow> 'r result) \<Rightarrow> http_request \<Rightarrow> 'r result" where
  "decodeJSON dec rq =
     (if rq_BodySize rq > maxRequestBodyBytes then Inl errInvalidRequest else decode_single dec errInvalidRequest (rq_Body rq))"

definition required :: "string \<Rightarrow> string result" where
  "required val = (let trimmed = TrimSpace val in if trimmed = [] then Inl errInvalidRequest else Inr trimmed)"

definition parseUUID :: "externals \<Rightarrow> string \<Rightarrow> uuid result" where
  "parseUUID E raw = someR errInvalidRequest (uuid_Parse E (TrimSpace raw))"

definition externalType :: "string \<Rightarrow> Type result" where
  "externalType raw =
     (let k = Type_of_string (TrimSpace raw)
      in if k \<in> set [Bet, Win, Loss, Refund, Rollback] then Inr k
         else if k = Opening then Inl errOpeningNotAllowed
         else if k = OtherType [] then Inl errInvalidRequest
         else Inl errUnsupportedType)"

definition moneyDTO_fields :: "moneyDTO fields" where
  "moneyDTO_fields =
     [(''amount'', string_field (\<lambda>s. dto_Amount_update (\<lambda>_. s))), (''currency'', string_field (\<lambda>s. dto_Currency_update (\<lambda>_. s)))]"

definition wageringTransactionRequest_fields :: "wageringTransactionRequest fields" where
  "wageringTransactionRequest_fields =
     [(''providerId'', string_field (\<lambda>s. wr_ProviderID_update (\<lambda>_. s))),
      (''externalTransactionId'', string_field (\<lambda>s. wr_ExternalID_update (\<lambda>_. s))),
      (''walletId'', string_field (\<lambda>s. wr_WalletID_update (\<lambda>_. s))),
      (''playerId'', string_field (\<lambda>s. wr_PlayerID_update (\<lambda>_. s))),
      (''gameId'', string_field (\<lambda>s. wr_GameID_update (\<lambda>_. s))),
      (''roundId'', string_field (\<lambda>s. wr_RoundID_update (\<lambda>_. s))),
      (''referenceExternalTransactionId'', string_field (\<lambda>s. wr_ReferenceExternalID_update (\<lambda>_. s))),
      (''kind'', string_field (\<lambda>s. wr_Type_update (\<lambda>_. s))),
      (''money'', struct_field True moneyDTO_fields wr_Amount (\<lambda>m. wr_Amount_update (\<lambda>_. m)))]"

definition zero_wageringRequest :: wageringTransactionRequest where
  "zero_wageringRequest = \<lparr>wr_ProviderID = [], wr_ExternalID = [], wr_WalletID = [], wr_PlayerID = [], wr_GameID = [], wr_RoundID = [],
     wr_ReferenceExternalID = [], wr_Type = [], wr_Amount = \<lparr>dto_Amount = [], dto_Currency = []\<rparr>\<rparr>"

definition openWalletRequest_fields :: "openWalletRequest fields" where
  "openWalletRequest_fields =
     [(''playerId'', string_field (\<lambda>s. ow_PlayerID_update (\<lambda>_. s))),
      (''initialBalance'', struct_field True moneyDTO_fields ow_OpeningBalance (\<lambda>m. ow_OpeningBalance_update (\<lambda>_. m)))]"

section \<open>Responses of the endpoints\<close>

definition resultResponse :: "externals \<Rightarrow> Result \<Rightarrow> bool option \<Rightarrow> wageringResultResponse result" where
  "resultResponse E result replayed =
     bindR (wireMoney (minor (R_Amount result)) (currency (R_Amount result))) (\<lambda>amount.
     bindR (wireMoney (R_Balance result) (currency (R_Amount result))) (\<lambda>balance.
       Inr \<lparr>rr_TransactionID = uuid_String E (R_TransactionID result), rr_State = State_string (R_State result), rr_Amount = amount,
            rr_Balance = Some balance, rr_FailureCode = R_FailureCode result, rr_IdempotentReplay = replayed\<rparr>))"

definition transactionViewResponse :: "externals \<Rightarrow> TransactionView \<Rightarrow> wageringResultResponse result" where
  "transactionViewResponse E view =
     bindR (wireMoney (TV_AmountMinor view) (TV_Currency view)) (\<lambda>amount.
       let response = \<lparr>rr_TransactionID = uuid_String E (TV_ID view), rr_State = State_string (TV_State view), rr_Amount = amount,
            rr_Balance = None, rr_FailureCode = TV_FailureCode view, rr_IdempotentReplay = None\<rparr>
       in case TV_BalanceMinor view of
            None \<Rightarrow> Inr response
          | Some b \<Rightarrow> bindR (wireMoney b (TV_Currency view)) (\<lambda>balance. Inr (response\<lparr>rr_Balance := Some balance\<rparr>)))"

definition walletViewResponse :: "externals \<Rightarrow> WalletView \<Rightarrow> walletResponse result" where
  "walletViewResponse E view =
     bindR (wireMoney (WV_BalanceMinor view) (WV_Currency view)) (\<lambda>balance.
       Inr \<lparr>wp_WalletID = uuid_String E (WV_ID view), wp_PlayerID = WV_PlayerID view, wp_Currency = WV_Currency view,
            wp_Balance = balance, wp_Version = WV_Version view, wp_CreatedAt = WV_CreatedAt view, wp_UpdatedAt = WV_UpdatedAt view\<rparr>)"

definition ledgerEntryResponse_of :: "externals \<Rightarrow> uuid \<Rightarrow> LedgerEntryView \<Rightarrow> ledgerEntryResponse result" where
  "ledgerEntryResponse_of E walletID entry =
     bindR (wireMoney (LV_ValueMinor entry) (LV_Currency entry)) (\<lambda>amount.
     bindR (wireMoney (LV_BalanceBeforeMinor entry) (LV_Currency entry)) (\<lambda>before.
     bindR (wireMoney (LV_BalanceAfterMinor entry) (LV_Currency entry)) (\<lambda>after.
       Inr \<lparr>lr_EntryID = uuid_String E (LV_ID entry), lr_WalletID = uuid_String E walletID,
            lr_TransactionID = uuid_String E (LV_TransactionID entry), lr_Direction = LV_Direction entry, lr_Amount = amount,
            lr_BalanceBefore = before, lr_BalanceAfter = after, lr_Timestamp = LV_Timestamp entry\<rparr>)))"

fun ledgerEntryResponses :: "externals \<Rightarrow> uuid \<Rightarrow> LedgerEntryView list \<Rightarrow> ledgerEntryResponse list result" where
  "ledgerEntryResponses E walletID [] = Inr []"
| "ledgerEntryResponses E walletID (entry # es) =
     bindR (ledgerEntryResponse_of E walletID entry) (\<lambda>r. bindR (ledgerEntryResponses E walletID es) (\<lambda>rs. Inr (r # rs)))"

definition respond :: "int \<Rightarrow> ('a \<Rightarrow> payload) \<Rightarrow> 'a result \<Rightarrow> http_response" where
  "respond status body r = (case r of Inl e \<Rightarrow> writeError e | Inr a \<Rightarrow> writeJSON status (body a))"

section \<open>Handlers\<close>

definition providerIdentity :: "Identity \<Rightarrow> string result" where
  "providerIdentity identity = (if id_ProviderID identity = [] then Inl errProviderIdentity else Inr (id_ProviderID identity))"

definition isIdempotentReplay :: "Result \<Rightarrow> uuid \<Rightarrow> bool" where
  "isIdempotentReplay result commandID \<longleftrightarrow> R_TransactionID result \<noteq> commandID"

text \<open>The command a request stands for.\<close>

definition transactionCommand :: "externals \<Rightarrow> uuid \<Rightarrow> Identity \<Rightarrow> http_request \<Rightarrow> Command result" where
  "transactionCommand E newID identity rq =
     bindR (providerIdentity identity) (\<lambda>providerID.
     let idempotencyKey = TrimSpace (rq_IdempotencyKey rq)
     in bindR (guardR (idempotencyKey = []) errInvalidRequest) (\<lambda>_.
     bindR (decodeJSON (decode_struct True wageringTransactionRequest_fields zero_wageringRequest) rq) (\<lambda>body.
     bindR (parseUUID E (wr_WalletID body)) (\<lambda>walletID.
     bindR (required (wr_ProviderID body)) (\<lambda>claimedProviderID.
     bindR (guardR (claimedProviderID \<noteq> providerID) errForbidden) (\<lambda>_.
     bindR (required (wr_ExternalID body)) (\<lambda>externalID.
     bindR (required (wr_PlayerID body)) (\<lambda>playerID.
     bindR (required (wr_GameID body)) (\<lambda>gameID.
     bindR (required (wr_RoundID body)) (\<lambda>roundID.
     bindR (externalType (wr_Type body)) (\<lambda>operationType.
     bindR (toMoney (wr_Amount body)) (\<lambda>amount.
       Inr \<lparr>C_ID = newID, C_WalletID = walletID, C_ExternalID = externalID, C_ProviderID = providerID, C_PlayerID = playerID,
            C_GameID = gameID, C_RoundID = roundID, C_IdempotencyKey = idempotencyKey, C_PayloadHash = [],
            C_ReferenceExternalID = TrimSpace (wr_ReferenceExternalID body), C_Type = operationType, C_Amount = amount\<rparr>))))))))))))"

definition processTransaction ::
  "externals \<Rightarrow> http_env \<Rightarrow> Identity \<Rightarrow> http_request \<Rightarrow> Service \<Rightarrow> http_response \<times> Service" where
  "processTransaction E env identity rq s =
     (case transactionCommand E (he_NewID env) identity rq of
        Inl e \<Rightarrow> (writeError e, s)
      | Inr command \<Rightarrow>
          (case Process E (he_Tx env) (he_Tx2 env) (he_Draws env) (he_Views env) command (he_Now env) (he_Elapsed env) s of
             (Inl e, s1) \<Rightarrow> (writeError e, s1)
           | (Inr result, s1) \<Rightarrow>
               (respond 200 ResultBody (resultResponse E result (Some (isIdempotentReplay result (C_ID command)))), s1)))"

definition transactionByID :: "externals \<Rightarrow> http_env \<Rightarrow> Identity \<Rightarrow> string \<Rightarrow> http_response" where
  "transactionByID E env identity transactionId =
     respond 200 ResultBody (
       bindR (providerIdentity identity) (\<lambda>providerID.
       bindR (parseUUID E transactionId) (\<lambda>transactionID.
       bindR (query_TransactionForProvider E (fst (he_Read1 env)) providerID transactionID (snd (he_Read1 env))) (\<lambda>view.
         transactionViewResponse E view))))"

definition transactionByExternalID :: "externals \<Rightarrow> http_env \<Rightarrow> Identity \<Rightarrow> string \<Rightarrow> string \<Rightarrow> http_response" where
  "transactionByExternalID E env identity providerId externalTransactionId =
     respond 200 ResultBody (
       bindR (providerIdentity identity) (\<lambda>providerID.
       bindR (guardR (TrimSpace providerId \<noteq> providerID) errForbidden) (\<lambda>_.
       bindR (required externalTransactionId) (\<lambda>externalID.
       bindR (query_TransactionByExternalForProvider E (fst (he_Read1 env)) providerID externalID (snd (he_Read1 env))) (\<lambda>view.
         transactionViewResponse E view)))))"

definition openWalletData :: "http_request \<Rightarrow> (string \<times> Money) result" where
  "openWalletData rq =
     bindR (decodeJSON (decode_struct True openWalletRequest_fields
              \<lparr>ow_PlayerID = [], ow_OpeningBalance = \<lparr>dto_Amount = [], dto_Currency = []\<rparr>\<rparr>) rq) (\<lambda>body.
     bindR (required (ow_PlayerID body)) (\<lambda>playerID.
     bindR (toMoney (ow_OpeningBalance body)) (\<lambda>balance. Inr (playerID, balance))))"

text \<open>The wallet is read back in a statement of its own, on the database the opening left.\<close>

definition openWallet :: "externals \<Rightarrow> http_env \<Rightarrow> http_request \<Rightarrow> Service \<Rightarrow> http_response \<times> Service" where
  "openWallet E env rq s =
     (case openWalletData rq of
        Inl e \<Rightarrow> (writeError e, s)
      | Inr (playerID, balance) \<Rightarrow>
          (case OpenWallet E (he_Tx env) (he_Draws env) (he_NewID env) playerID balance (he_Now env) s of
             (Inl e, s1) \<Rightarrow> (writeError e, s1)
           | (Inr _, s1) \<Rightarrow>
               (respond 201 WalletBody (bindR (query_Wallet (fst (he_Read1 env)) (he_NewID env) (svc_db s1)) (walletViewResponse E)), s1)))"

definition wallet_handler :: "externals \<Rightarrow> http_env \<Rightarrow> string \<Rightarrow> http_response" where
  "wallet_handler E env walletId =
     respond 200 WalletBody (
       bindR (parseUUID E walletId) (\<lambda>walletID.
       bindR (query_Wallet (fst (he_Read1 env)) walletID (snd (he_Read1 env))) (walletViewResponse E)))"

definition walletLedger :: "externals \<Rightarrow> http_env \<Rightarrow> string \<Rightarrow> http_request \<Rightarrow> http_response" where
  "walletLedger E env walletId rq =
     respond 200 LedgerBody (
       bindR (parseUUID E walletId) (\<lambda>walletID.
       bindR (query_Ledger E (he_Read1 env) (he_Read2 env) walletID (rq_Cursor rq) (rq_Limit rq)) (\<lambda>page.
       bindR (ledgerEntryResponses E (LP_WalletID page) (LP_Entries page)) (\<lambda>entries.
         Inr \<lparr>lp_WalletID = uuid_String E (LP_WalletID page), lp_Currency = LP_Currency page, lp_Entries = entries,
              lp_NextCursor = (if LP_NextCursor page \<noteq> [] then Some (LP_NextCursor page) else None)\<rparr>))))"

text \<open>The reads in their order: the wallet, the two of the reconciliation and the count of the entries.\<close>

definition reconcileWallet :: "externals \<Rightarrow> http_env \<Rightarrow> string \<Rightarrow> Service \<Rightarrow> http_response \<times> Service" where
  "reconcileWallet E env walletId s =
     (case parseUUID E walletId of
        Inl e \<Rightarrow> (writeError e, s)
      | Inr walletID \<Rightarrow>
     (case query_Wallet (fst (he_Read1 env)) walletID (snd (he_Read1 env)) of
        Inl e \<Rightarrow> (writeError e, s)
      | Inr view \<Rightarrow>
     (case Reconcile E (he_Read2 env) (he_Read3 env) walletID s of
        (reconciled, s1) \<Rightarrow>
     (case query_LedgerEntryCount (fst (he_Read4 env)) walletID (snd (he_Read4 env)) of
        Inl countErr \<Rightarrow> (writeError countErr, s1)
      | Inr checkedEntries \<Rightarrow>
     (case reconciled of
        Inl e \<Rightarrow>
          if e = ErrLedgerInconsistent
          then (respond 200 ReconciliationBody (bindR (wireMoney (WV_BalanceMinor view) (WV_Currency view)) (\<lambda>walletBalance.
                  Inr \<lparr>rc_WalletID = uuid_String E walletID, rc_StoredBalance = walletBalance, rc_CalculatedBalance = None,
                       rc_Difference = None, rc_Consistent = False, rc_CheckedEntries = checkedEntries\<rparr>)), s1)
          else (writeError e, s1)
      | Inr reconciliation \<Rightarrow>
          (respond 200 ReconciliationBody (
             bindR (wireMoney (WalletBalance reconciliation) (WV_Currency view)) (\<lambda>walletBalance.
             bindR (wireMoney (LedgerBalance reconciliation) (WV_Currency view)) (\<lambda>ledgerBalance.
             bindR (money_Sub walletBalance ledgerBalance) (\<lambda>difference.
               Inr \<lparr>rc_WalletID = uuid_String E walletID, rc_StoredBalance = walletBalance,
                    rc_CalculatedBalance = Some ledgerBalance, rc_Difference = Some difference,
                    rc_Consistent = Consistent reconciliation, rc_CheckedEntries = checkedEntries\<rparr>)))), s1))))))"

section \<open>Health\<close>

definition liveness :: http_response where
  "liveness = writeJSON 200 (HealthBody ''UP'' [])"

fun run_checks :: "(string \<times> error option) list \<Rightarrow> bool \<times> (string \<times> string) list" where
  "run_checks [] = (True, [])"
| "run_checks ((name, err) # cs) =
     (let (ready, checks) = run_checks cs
      in case err of None \<Rightarrow> (ready, (name, ''UP'') # checks) | Some _ \<Rightarrow> (False, (name, ''DOWN'') # checks))"

definition readiness :: "http_env \<Rightarrow> http_response" where
  "readiness env =
     (let (ready, checks) = run_checks (he_Checks env)
      in if \<not> ready then writeJSON 503 (HealthBody ''DOWN'' checks) else writeJSON 200 (HealthBody ''UP'' checks))"

definition metricsHandler :: "Service \<Rightarrow> http_response" where
  "metricsHandler s = (case svc_metrics s of None \<Rightarrow> writeJSON 204 NoBody | Some m \<Rightarrow> writeJSON 200 (MetricsBody m))"

section \<open>Authentication\<close>

definition ascii_lower :: "string \<Rightarrow> string" where
  "ascii_lower s = map (\<lambda>c. if 65 \<le> (of_char c :: nat) \<and> (of_char c :: nat) \<le> 90 then char_of (of_char c + 32 :: nat) else c) s"

definition bearerToken :: "http_request \<Rightarrow> string result" where
  "bearerToken rq =
     (let header = rq_Authorization rq
      in if length header < 7 \<or> ascii_lower (take 7 header) \<noteq> ''bearer '' then Inl errUnauthenticated
         else let token = TrimSpace (drop 7 header) in if token = [] then Inl errUnauthenticated else Inr token)"

definition authenticate :: "http_env \<Rightarrow> http_request \<Rightarrow> Identity result" where
  "authenticate env rq = bindR (bearerToken rq) (he_Verify env)"

definition requireProvider :: "http_env \<Rightarrow> http_request \<Rightarrow> Identity result" where
  "requireProvider env rq =
     bindR (authenticate env rq) (\<lambda>identity.
       if \<not> HasRole identity RoleProvider then Inl errForbidden
       else if id_ProviderID identity = [] then Inl errProviderIdentity
       else Inr identity)"

definition requireInternal :: "http_env \<Rightarrow> http_request \<Rightarrow> Identity result" where
  "requireInternal env rq =
     bindR (authenticate env rq) (\<lambda>identity. if \<not> HasRole identity RoleInternal then Inl errForbidden else Inr identity)"

section \<open>Routing\<close>

text \<open>The routing table: a wildcard segment matches one segment that is not empty.\<close>

datatype route =
    LiveRoute | ReadyRoute | MetricsRoute
  | ProcessRoute | TransactionRoute string | ExternalRoute string string
  | OpenRoute | WalletRoute string | LedgerRoute string | ReconcileRoute string
  | UnknownRoute

definition route_of :: "string list \<Rightarrow> route" where
  "route_of path =
     (if path = [''health'', ''live''] then LiveRoute
      else if path = [''health'', ''ready''] then ReadyRoute
      else if path = [''metrics''] then MetricsRoute
      else if path = [''wagering'', ''transactions''] then ProcessRoute
      else if length path = 3 \<and> take 2 path = [''wagering'', ''transactions''] \<and> path ! 2 \<noteq> [] then TransactionRoute (path ! 2)
      else if length path = 5 \<and> path ! 0 = ''providers'' \<and> path ! 1 \<noteq> [] \<and> path ! 2 = ''wagering'' \<and> path ! 3 = ''transactions''
              \<and> path ! 4 \<noteq> [] then ExternalRoute (path ! 1) (path ! 4)
      else if path = [''wallets''] then OpenRoute
      else if length path = 2 \<and> path ! 0 = ''wallets'' \<and> path ! 1 \<noteq> [] then WalletRoute (path ! 1)
      else if length path = 3 \<and> path ! 0 = ''wallets'' \<and> path ! 1 \<noteq> [] \<and> path ! 2 = ''ledger'' then LedgerRoute (path ! 1)
      else if length path = 3 \<and> path ! 0 = ''wallets'' \<and> path ! 1 \<noteq> [] \<and> path ! 2 = ''reconciliation'' then ReconcileRoute (path ! 1)
      else UnknownRoute)"

definition method_of :: "route \<Rightarrow> string" where
  "method_of r = (case r of ProcessRoute \<Rightarrow> ''POST'' | OpenRoute \<Rightarrow> ''POST'' | ReconcileRoute _ \<Rightarrow> ''POST'' | _ \<Rightarrow> ''GET'')"

definition guarded :: "Identity result \<Rightarrow> (Identity \<Rightarrow> http_response \<times> Service) \<Rightarrow> Service \<Rightarrow> http_response \<times> Service" where
  "guarded auth handler s = (case auth of Inl e \<Rightarrow> (writeError e, s) | Inr identity \<Rightarrow> handler identity)"

definition dispatch :: "externals \<Rightarrow> http_env \<Rightarrow> route \<Rightarrow> http_request \<Rightarrow> Service \<Rightarrow> http_response \<times> Service" where
  "dispatch E env r rq s =
     (case r of
        LiveRoute \<Rightarrow> (liveness, s)
      | ReadyRoute \<Rightarrow> (readiness env, s)
      | MetricsRoute \<Rightarrow> (metricsHandler s, s)
      | ProcessRoute \<Rightarrow> guarded (requireProvider env rq) (\<lambda>i. processTransaction E env i rq s) s
      | TransactionRoute transactionId \<Rightarrow> guarded (requireProvider env rq) (\<lambda>i. (transactionByID E env i transactionId, s)) s
      | ExternalRoute providerId externalId \<Rightarrow>
          guarded (requireProvider env rq) (\<lambda>i. (transactionByExternalID E env i providerId externalId, s)) s
      | OpenRoute \<Rightarrow> guarded (requireInternal env rq) (\<lambda>i. openWallet E env rq s) s
      | WalletRoute walletId \<Rightarrow> guarded (requireInternal env rq) (\<lambda>i. (wallet_handler E env walletId, s)) s
      | LedgerRoute walletId \<Rightarrow> guarded (requireInternal env rq) (\<lambda>i. (walletLedger E env walletId rq, s)) s
      | ReconcileRoute walletId \<Rightarrow> guarded (requireInternal env rq) (\<lambda>i. reconcileWallet E env walletId s) s
      | UnknownRoute \<Rightarrow> (writeError errRouteNotFound, s))"

definition correlation_char :: "char \<Rightarrow> bool" where
  "correlation_char c \<longleftrightarrow> (let n = (of_char c :: nat) in (97 \<le> n \<and> n \<le> 122) \<or> (65 \<le> n \<and> n \<le> 90) \<or> (48 \<le> n \<and> n \<le> 57)
     \<or> c = CHR ''-'' \<or> c = CHR ''_'' \<or> c = CHR ''.'' \<or> c = CHR '':'')"

definition NormalizeCorrelationID :: "string \<Rightarrow> string \<Rightarrow> string" where
  "NormalizeCorrelationID fresh raw =
     (if raw = [] \<or> length raw > 128 then fresh
      else if list_all correlation_char raw then raw else fresh)"

definition Router_Handler :: "externals \<Rightarrow> http_env \<Rightarrow> http_request \<Rightarrow> Service \<Rightarrow> http_response \<times> Service" where
  "Router_Handler E env rq s =
     (let r = route_of (rq_Path rq);
          (response, s1) = (if r \<noteq> UnknownRoute \<and> rq_Method rq \<noteq> method_of r
             then ((writeError errMethodNotAllowed)\<lparr>rs_Allow := method_of r\<rparr>, s)
             else dispatch E env r rq s)
      in (response\<lparr>rs_Correlation := NormalizeCorrelationID (he_NewCorrelation env) (rq_CorrelationID rq)\<rparr>, s1))"

section \<open>Lemmas\<close>

lemma mapError_status: "400 \<le> fst (mapError err)"
  by (simp add: mapError_def)

lemma writeError_status: "400 \<le> rs_Status (writeError err)"
  using mapError_status [of err] by (cases "mapError err") (simp add: writeError_def writeJSON_def)

lemma respond_result: "rs_Body (respond status ResultBody r) = ResultBody x \<longleftrightarrow> r = Inr x"
  by (auto simp: respond_def writeJSON_def writeError_def split: sum.splits prod.splits)

text \<open>An amount in minor units appears on the wire as the amount itself.\<close>

lemma wireMoney_eq:
  assumes "currencyPattern cur" "0 \<le> m" "m \<le> max_int64"
  shows "wireMoney m cur = Inr \<lparr>minor = m, currency = cur\<rparr>"
proof -
  have "fmt_d (go_quot m 100) @ ''.'' @ fmt_02d (go_rem m 100) = fmt_minor m" by (simp add: fmt_minor_def)
  then show ?thesis using money_New_fmt_minor [OF assms(1,2)] assms(2,3) by (simp add: wireMoney_def)
qed

text \<open>The routes and the role they need.\<close>

definition provider_route :: "route \<Rightarrow> bool" where
  "provider_route r = (case r of ProcessRoute \<Rightarrow> True | TransactionRoute _ \<Rightarrow> True | ExternalRoute _ _ \<Rightarrow> True | _ \<Rightarrow> False)"

definition internal_route :: "route \<Rightarrow> bool" where
  "internal_route r = (case r of OpenRoute \<Rightarrow> True | WalletRoute _ \<Rightarrow> True | LedgerRoute _ \<Rightarrow> True | ReconcileRoute _ \<Rightarrow> True | _ \<Rightarrow> False)"

definition authorised :: "http_env \<Rightarrow> http_request \<Rightarrow> bool" where
  "authorised env rq = (let r = route_of (rq_Path rq) in
     (provider_route r \<longrightarrow> (\<exists>i. authenticate env rq = Inr i \<and> RoleProvider \<in> set (id_Roles i) \<and> id_ProviderID i \<noteq> []))
     \<and> (internal_route r \<longrightarrow> (\<exists>i. authenticate env rq = Inr i \<and> RoleInternal \<in> set (id_Roles i))))"

lemma requireProvider_Inr:
  "requireProvider env rq = Inr i \<longleftrightarrow> authenticate env rq = Inr i \<and> RoleProvider \<in> set (id_Roles i) \<and> id_ProviderID i \<noteq> []"
  by (auto simp: requireProvider_def bindR_Inr_conv split: if_splits)

lemma requireInternal_Inr: "requireInternal env rq = Inr i \<longleftrightarrow> authenticate env rq = Inr i \<and> RoleInternal \<in> set (id_Roles i)"
  by (auto simp: requireInternal_def bindR_Inr_conv split: if_splits)

lemma dispatch_refused:
  assumes "\<not> authorised env rq" "r = route_of (rq_Path rq)"
  shows "\<exists>e. dispatch E env r rq s = (writeError e, s)"
proof (cases "provider_route r")
  case True
  with assms have "\<And>i. requireProvider env rq \<noteq> Inr i"
    by (auto simp: authorised_def requireProvider_Inr provider_route_def internal_route_def Let_def split: route.splits)
  then obtain e where "requireProvider env rq = Inl e" by (cases "requireProvider env rq") auto
  with True show ?thesis by (cases r) (auto simp: dispatch_def guarded_def provider_route_def)
next
  case False
  with assms have i: "internal_route r" "\<And>i. requireInternal env rq \<noteq> Inr i"
    by (auto simp: authorised_def requireInternal_Inr Let_def)
  then obtain e where "requireInternal env rq = Inl e" by (cases "requireInternal env rq") auto
  with i(1) show ?thesis by (cases r) (auto simp: dispatch_def guarded_def internal_route_def)
qed

lemma transactionCommand_Inr:
  assumes "transactionCommand E i identity rq = Inr cmd"
  shows "C_ID cmd = i" "C_ProviderID cmd = id_ProviderID identity" "money_valid (C_Amount cmd)"
proof -
  have "C_ID cmd = i \<and> C_ProviderID cmd = id_ProviderID identity \<and> money_valid (C_Amount cmd)"
    using assms money_Amount_New(1)
    by (auto simp: transactionCommand_def bindR_Inr_conv providerIdentity_def toMoney_def Let_def split: if_splits)
  then show "C_ID cmd = i" "C_ProviderID cmd = id_ProviderID identity" "money_valid (C_Amount cmd)" by simp_all
qed

lemma find_filter: "find (\<lambda>x. Q x \<and> P x) xs = find Q (filter P xs)"
  by (induction xs) auto

text \<open>The reads of a provider: they find rows of that provider only, and the answer names the row.\<close>

lemma find_own_rows:
  assumes "filter (\<lambda>t. T_ProviderID t = p) (db_wagers d1) = filter (\<lambda>t. T_ProviderID t = p) (db_wagers d)"
  shows "wagerQuery_FindByIDForProvider p k d1 = wagerQuery_FindByIDForProvider p k d"
    "wagerQuery_FindByExternalForProvider p x d1 = wagerQuery_FindByExternalForProvider p x d"
  using assms by (simp add: wagerQuery_FindByIDForProvider_def find_filter)
    (use assms in \<open>simp add: wagerQuery_FindByExternalForProvider_def find_filter conj_commute\<close>)

lemma query_owned:
  assumes "query_TransactionForProvider E f p k d = Inr v \<or> query_TransactionByExternalForProvider E f p k' d = Inr v"
    "transactionViewResponse E v = Inr x"
  shows "\<exists>t \<in> set (db_wagers d). T_ProviderID t = p \<and> rr_TransactionID x = uuid_String E (T_ID t)"
proof -
  have "\<exists>t \<in> set (db_wagers d). T_ProviderID t = p \<and> TV_ID v = T_ID t"
    using assms(1) by (auto simp: query_TransactionForProvider_def query_TransactionByExternalForProvider_def bindR_Inr_conv not_found_def
        statement_def wagerQuery_FindByIDForProvider_def wagerQuery_FindByExternalForProvider_def transactionView_def someR_conv with_texts_conv
        split: option.splits sum.splits if_splits dest!: find_SomeD)
  moreover have "rr_TransactionID x = uuid_String E (TV_ID v)"
    using assms(2) by (auto simp: transactionViewResponse_def bindR_Inr_conv Let_def split: option.splits)
  ultimately show ?thesis by metis
qed

lemma transactionByID_owned:
  assumes "providerIdentity i = Inr p" "rs_Body (transactionByID E env i k) = ResultBody x"
  shows "\<exists>t \<in> set (db_wagers (snd (he_Read1 env))). T_ProviderID t = p \<and> rr_TransactionID x = uuid_String E (T_ID t)"
proof -
  from assms obtain v k' where v: "query_TransactionForProvider E (fst (he_Read1 env)) p k' (snd (he_Read1 env)) = Inr v" "transactionViewResponse E v = Inr x"
    by (auto simp: transactionByID_def respond_result bindR_Inr_conv)
  show ?thesis by (rule query_owned [OF disjI1 [OF v(1)] v(2)])
qed

lemma transactionByExternalID_owned:
  assumes "providerIdentity i = Inr p" "rs_Body (transactionByExternalID E env i q k) = ResultBody x"
  shows "\<exists>t \<in> set (db_wagers (snd (he_Read1 env))). T_ProviderID t = p \<and> rr_TransactionID x = uuid_String E (T_ID t)"
proof -
  from assms obtain v k' where v: "query_TransactionByExternalForProvider E (fst (he_Read1 env)) p k' (snd (he_Read1 env)) = Inr v" "transactionViewResponse E v = Inr x"
    by (auto simp: transactionByExternalID_def respond_result bindR_Inr_conv)
  show ?thesis by (rule query_owned [OF disjI2 [OF v(1)] v(2)])
qed

section \<open>Properties\<close>

text \<open>C24: Access control: a request to a provider or wallet route without a verified bearer token that carries
  the role of the route (and, for a provider route, a provider identity) is answered with an error status
  and changes nothing, whatever its method, headers and body.\<close>

theorem unauthorised_request_refused:
  assumes "\<not> authorised env rq" "Router_Handler E env rq s = (response, s')"
  shows "s' = s \<and> 400 \<le> rs_Status response"
proof -
  obtain e where "dispatch E env (route_of (rq_Path rq)) rq s = (writeError e, s)"
    using dispatch_refused [OF assms(1) refl] by blast
  with assms(2) show ?thesis by (auto simp: Router_Handler_def writeError_status Let_def split: if_splits)
qed

definition example_request :: http_request where
  "example_request = \<lparr>rq_Method = ''GET'', rq_Path = [''wallets'', ''7''], rq_Authorization = ''Bearer t'', rq_CorrelationID = [],
     rq_IdempotencyKey = [], rq_Cursor = [], rq_Limit = [], rq_BodySize = 0, rq_Body = StreamEOF\<rparr>"

definition example_env :: http_env where
  "example_env = \<lparr>he_Verify = (\<lambda>_. Inr \<lparr>id_Subject = ''s'', id_Username = ''u'', id_ProviderID = ''prov'', id_Roles = [''provider'']\<rparr>),
     he_NewCorrelation = ''corr'', he_NewID = 1, he_Tx = tx_ok, he_Tx2 = tx_ok,
     he_Draws = \<lparr>draw_opening = 100, draw_entry = 200, draw_event = 300, draw_change = 400\<rparr>, he_Views = serial_views empty_db,
     he_Now = 2, he_Elapsed = 5, he_Read1 = (None, empty_db), he_Read2 = (None, empty_db), he_Read3 = (None, empty_db), he_Read4 = (None, empty_db), he_Checks = []\<rparr>"

theorem unauthorised_request_refused_witness:
  "400 \<le> rs_Status (fst (Router_Handler example_externals example_env example_request \<lparr>svc_db = empty_db, svc_metrics = None\<rparr>))"
proof -
  have "bearerToken example_request = Inr ''t''" by code_simp
  moreover have "route_of (rq_Path example_request) = WalletRoute ''7''" by code_simp
  ultimately have "\<not> authorised example_env example_request"
    by (auto simp: authorised_def authenticate_def example_env_def internal_route_def RoleInternal_def Let_def)
  then show ?thesis
    using unauthorised_request_refused [of example_env example_request example_externals "\<lparr>svc_db = empty_db, svc_metrics = None\<rparr>"]
    by (meson surjective_pairing)
qed

text \<open>C23: Provider isolation of reads: what a provider sees of transactions depends on its own rows only. If two
  databases have the same rows of the authenticated provider, every read of a transaction is answered
  alike on both, and a transaction that is answered belongs to that provider.\<close>

theorem provider_reads_isolated:
  assumes "requireProvider env rq = Inr i" "provider_route (route_of (rq_Path rq))" "rq_Method rq = ''GET''"
    "filter (\<lambda>t. T_ProviderID t = id_ProviderID i) (db_wagers (snd (he_Read1 env))) =
     filter (\<lambda>t. T_ProviderID t = id_ProviderID i) (db_wagers d)"
  shows "Router_Handler E env rq s = Router_Handler E (env\<lparr>he_Read1 := (fst (he_Read1 env), d)\<rparr>) rq s
    \<and> (\<forall>x. rs_Body (fst (Router_Handler E env rq s)) = ResultBody x \<longrightarrow>
        (\<exists>t \<in> set (db_wagers (snd (he_Read1 env))). T_ProviderID t = id_ProviderID i \<and> rr_TransactionID x = uuid_String E (T_ID t)))"
proof -
  let ?env = "env\<lparr>he_Read1 := (fst (he_Read1 env), d)\<rparr>"
  have p: "providerIdentity i = Inr (id_ProviderID i)" using assms(1) by (simp add: requireProvider_Inr providerIdentity_def)
  have same: "requireProvider ?env rq = requireProvider env rq" by (simp add: requireProvider_def authenticate_def)
  note finds = find_own_rows [OF assms(4)]
  consider (id) k where "route_of (rq_Path rq) = TransactionRoute k" | (external) q k where "route_of (rq_Path rq) = ExternalRoute q k"
    | (post) "route_of (rq_Path rq) = ProcessRoute"
    using assms(2) by (auto simp: provider_route_def split: route.splits)
  then show ?thesis
  proof cases
    case id
    then have r: "dispatch E e (route_of (rq_Path rq)) rq s = (transactionByID E e i k, s)" if "requireProvider e rq = Inr i" for e
      using that by (simp add: dispatch_def guarded_def)
    have "transactionByID E ?env i k = transactionByID E env i k"
      by (simp add: transactionByID_def p query_TransactionForProvider_def finds)
    with id r assms(1,3) same transactionByID_owned [OF p] show ?thesis by (simp add: Router_Handler_def method_of_def)
  next
    case external
    then have r: "dispatch E e (route_of (rq_Path rq)) rq s = (transactionByExternalID E e i q k, s)" if "requireProvider e rq = Inr i" for e
      using that by (simp add: dispatch_def guarded_def)
    have "transactionByExternalID E ?env i q k = transactionByExternalID E env i q k"
      by (simp add: transactionByExternalID_def p query_TransactionByExternalForProvider_def finds)
    with external r assms(1,3) same transactionByExternalID_owned [OF p] show ?thesis by (simp add: Router_Handler_def method_of_def)
  next
    case post
    with assms(3) show ?thesis by (simp add: Router_Handler_def method_of_def writeError_def writeJSON_def split: prod.splits)
  qed
qed

definition example_row :: "string \<Rightarrow> uuid \<Rightarrow> WagerTransactionRecord" where
  "example_row p i = \<lparr>T_ID = i, T_ExternalID = ''x'', T_ProviderID = p, T_WalletID = 7, T_PlayerID = ''u'', T_GameID = ''g'', T_RoundID = ''r'',
     T_Type = Bet, T_Amount = 40, T_Currency = ''BRL'', T_State = Processed, T_IdempotencyKey = ''k'', T_PayloadHash = ''h'',
     T_ReferenceExternalID = [], T_ReferenceAttempts = 0, T_ReferenceNextAttemptAt = None, T_FailureCode = [], T_Result = None,
     T_CreatedAt = 1, T_UpdatedAt = 1\<rparr>"

theorem provider_reads_isolated_witness:
  "let s = \<lparr>svc_db = empty_db, svc_metrics = None\<rparr>; rq = example_request\<lparr>rq_Path := [''wagering'', ''transactions'', ''2'']\<rparr>;
       d1 = empty_db\<lparr>db_wagers := [example_row ''prov'' 1]\<rparr>; d2 = empty_db\<lparr>db_wagers := [example_row ''other'' 2, example_row ''prov'' 1]\<rparr>
   in Router_Handler example_externals (example_env\<lparr>he_Read1 := (None, d1)\<rparr>) rq s =
      Router_Handler example_externals (example_env\<lparr>he_Read1 := (None, d2)\<rparr>) rq s"
proof -
  let ?rq = "example_request\<lparr>rq_Path := [''wagering'', ''transactions'', ''2'']\<rparr>"
  let ?d1 = "empty_db\<lparr>db_wagers := [example_row ''prov'' 1]\<rparr>"
  have b: "bearerToken ?rq = Inr ''t''" by code_simp
  have a: "requireProvider (example_env\<lparr>he_Read1 := (None, ?d1)\<rparr>) ?rq =
      Inr \<lparr>id_Subject = ''s'', id_Username = ''u'', id_ProviderID = ''prov'', id_Roles = [''provider'']\<rparr>"
    by (simp add: requireProvider_def authenticate_def b example_env_def RoleProvider_def)
  have r: "provider_route (route_of (rq_Path ?rq))" by code_simp
  have m: "rq_Method ?rq = ''GET''" by (simp add: example_request_def)
  show ?thesis
    using provider_reads_isolated [OF a r m, of "empty_db\<lparr>db_wagers := [example_row ''other'' 2, example_row ''prov'' 1]\<rparr>" example_externals
        "\<lparr>svc_db = empty_db, svc_metrics = None\<rparr>"]
    by (simp add: Let_def example_row_def)
qed

end
