(* ===== verification/Http_Properties.thy ===== *)
theory Http_Properties
  imports Reconcile_Properties Http
begin

text \<open>
  The endpoints over the reachable states of the service: a repeated POST is a replay, a provider writes
  only its own transactions, and what the reconciliation endpoint reports of a wallet.
\<close>

section \<open>Repeated requests\<close>

lemma transactionCommand_same:
  "id_ProviderID i' = id_ProviderID i \<Longrightarrow> transactionCommand E n i rq = Inr cmd \<Longrightarrow>
   transactionCommand E n' i' rq = Inr (cmd\<lparr>C_ID := n'\<rparr>)"
  by (auto simp: transactionCommand_def bindR_Inr_conv providerIdentity_def guardR_conv Let_def split: if_splits)

lemma resultResponse_stored:
  assumes "tx_row_ok E t" "replayResult E t = Inr r"
  shows "\<exists>x. resultResponse E r f = Inr x \<and> rr_TransactionID x = uuid_String E (R_TransactionID r) \<and> rr_State x = State_string (R_State r)
    \<and> rr_IdempotentReplay x = f \<and> rr_Amount x = R_Amount r \<and> rr_FailureCode x = R_FailureCode r
    \<and> rr_Balance x = Some \<lparr>minor = R_Balance r, currency = currency (R_Amount r)\<rparr>"
proof -
  from assms(2) obtain data where data: "T_Result t = Some data" "unmarshalResult E data = Inr r"
    "minor (R_Amount r) = T_Amount t" "currency (R_Amount r) = T_Currency t" "0 \<le> R_Balance r"
    by (auto simp: replayResult_def split: option.splits sum.splits if_splits)
  from data(2) have "R_Balance r \<le> max_int64"
    by (auto simp: unmarshalResult_def bindR_Inr_conv json_int64_def int64_defs split: json.splits option.splits if_splits)
  moreover have "currencyPattern (currency (R_Amount r))" "0 \<le> minor (R_Amount r)" "minor (R_Amount r) \<le> max_int64"
    using assms(1) data(3,4) by (simp_all add: tx_row_ok_def)
  ultimately show ?thesis using data(5) by (simp add: resultResponse_def wireMoney_eq)
qed

lemma post_result:
  assumes "route_of (rq_Path rq) = ProcessRoute" "requireProvider env rq = Inr i" "Router_Handler E env rq s = (response, s1)"
    "rs_Body response = ResultBody x"
  shows "\<exists>cmd r. rq_Method rq = ''POST'' \<and> transactionCommand E (he_NewID env) i rq = Inr cmd \<and>
    Process E (he_Tx env) (he_Tx2 env) (he_Draws env) (he_Views env) cmd (he_Now env) (he_Elapsed env) s = (Inr r, s1) \<and>
    resultResponse E r (Some (isIdempotentReplay r (C_ID cmd))) = Inr x"
proof (cases "rq_Method rq = ''POST''")
  case False
  with assms show ?thesis
    by (auto simp: Router_Handler_def method_of_def writeError_def writeJSON_def split: prod.splits)
next
  case True
  obtain h where h: "processTransaction E env i rq s = (h, s1)" "rs_Body h = ResultBody x"
    using assms True by (auto simp: Router_Handler_def dispatch_def guarded_def method_of_def split: prod.splits)
  have "rs_Body (writeError e) \<noteq> ResultBody x" for e by (simp add: writeError_def writeJSON_def split: prod.splits)
  with h True show ?thesis
    by (auto simp: processTransaction_def respond_result split: sum.splits prod.splits)
qed

section \<open>Rows of other providers\<close>

abbreviation others :: "string \<Rightarrow> db \<Rightarrow> WagerTransactionRecord list" where
  "others p d \<equiv> filter (\<lambda>t. T_ProviderID t \<noteq> p) (db_wagers d)"

lemma statement_wagers [dest]:
  "walletRepo_UpdateBalance i b v now d = Inr d' \<Longrightarrow> db_wagers d' = db_wagers d"
  "ledgerRepo_Insert e d = Inr d' \<Longrightarrow> db_wagers d' = db_wagers d"
  "outboxRepo_InsertWithMetadata i k a c z v o1 data n d = Inr d' \<Longrightarrow> db_wagers d' = db_wagers d"
  by (auto simp: walletRepo_UpdateBalance_def ledgerRepo_Insert_def outboxRepo_InsertWithMetadata_def bindR_Inr_conv Let_def split: if_splits)

lemma insertEvent_wagers [dest]: "insertEvent E i k ty a w r v now c cs d = Inr d' \<Longrightarrow> db_wagers d' = db_wagers d"
  by (auto simp: insertEvent_def Let_def split: list.splits)

lemma insertFinancialEvents_wagers [dest]: "insertFinancialEvents E dr k w r v now c b ch d = Inr d' \<Longrightarrow> db_wagers d' = db_wagers d"
  by (auto simp: insertFinancialEvents_def bindR_Inr_conv split: if_splits dest!: insertEvent_wagers)

lemma insertTransaction_others [dest]: "insertTransaction E cmd r now d = Inr d' \<Longrightarrow> others (C_ProviderID cmd) d' = others (C_ProviderID cmd) d"
  by (auto simp: insertTransaction_def wagerRepo_Insert_def bindR_Inr_conv transaction_row_def)

lemma persist_others [dest]:
  "persistPendingReference E dr cmd w now tx d = Inr (r, d') \<Longrightarrow> others (C_ProviderID cmd) d' = others (C_ProviderID cmd) d"
  "persistRejected E dr cmd w now tx code d = Inr (r, d') \<Longrightarrow> others (C_ProviderID cmd) d' = others (C_ProviderID cmd) d"
  by (auto simp: persistPendingReference_def persistRejected_def bindR_Inr_conv Let_def dest!: insertEvent_wagers insertTransaction_others)

lemma applyOperation_others [dest]:
  "applyOperationInTx E dr cmd w tx ref None now d = Inr (r, d') \<Longrightarrow> others (C_ProviderID cmd) d' = others (C_ProviderID cmd) d"
  by (auto simp: applyOperationInTx_def writeRow_def bindR_Inr_conv Let_def split: if_splits sum.splits
      dest!: insertTransaction_others moveBalance_wagers insertEvent_wagers insertFinancialEvents_wagers)

lemma executeInTx_others [dest]:
  "executeInTx E dr v cmd now w d = Inr (r, d') \<Longrightarrow> others (C_ProviderID cmd) d' = others (C_ProviderID cmd) d"
  by (auto simp: executeInTx_def bindR_Inr_conv split: if_splits sum.splits)

lemma Process_others:
  assumes "Process E env env2 dr vs cmd now el s = (r, s')"
  shows "others (C_ProviderID cmd) (svc_db s') = others (C_ProviderID cmd) (svc_db s)"
proof (cases "prepareCommand E cmd")
  case (Inl e)
  with assms show ?thesis by (simp add: Process_def)
next
  case (Inr p)
  have same: "C_ProviderID p = C_ProviderID cmd" using Inr by (auto simp: prepare_Inr)
  obtain r1 d1 where tx: "WithTx env (processInTx E dr vs p now) (svc_db s) = (r1, d1)" by fastforce
  have "others (C_ProviderID cmd) d1 = others (C_ProviderID cmd) (svc_db s)"
    using tx same by (cases rule: WithTx_cases [of env "processInTx E dr vs p now" "svc_db s"]) (auto dest!: processInTx_Inr executeInTx_others)
  moreover have "svc_db s' = d1"
    using assms Inr tx by (auto simp: Process_def split: sum.splits if_splits prod.splits dest: resolve_db)
  ultimately show ?thesis by simp
qed

section \<open>Properties\<close>

text \<open>C21: A repeated POST: when a transaction request was answered with status 200, the same request by the same
  provider, after any further activity of the process, is answered with status 200 again, names the same
  transaction, is flagged as an idempotent replay and changes no row of the database; a settled outcome is
  repeated with its amount, balance and failure code.\<close>

theorem repeated_post_replays:
  assumes "service_reachable E s" "route_of (rq_Path rq) = ProcessRoute" "requireProvider env rq = Inr i"
    "he_Tx env = tx_ok" "he_Views env = serial_views (svc_db s)" "Router_Handler E env rq s = (response, s1)" "rs_Body response = ResultBody x"
    "(service_step E)\<^sup>*\<^sup>* s1 s2" "requireProvider env' rq = Inr i'" "id_ProviderID i' = id_ProviderID i" "he_Tx env' = tx_ok"
    "he_Views env' = serial_views (svc_db s2)" "he_NewID env' \<noteq> uuid_Nil" "he_NewID env' \<notin> T_ID ` set (db_wagers (svc_db s2))"
  shows "\<exists>response' s3 x'. Router_Handler E env' rq s2 = (response', s3) \<and> svc_db s3 = svc_db s2 \<and> rs_Status response' = 200
    \<and> rs_Body response' = ResultBody x' \<and> rr_TransactionID x' = rr_TransactionID x \<and> rr_IdempotentReplay x' = Some True
    \<and> (rr_State x \<noteq> ''PENDING_REFERENCE'' \<longrightarrow> x' = x\<lparr>rr_IdempotentReplay := Some True\<rparr>)"
proof -
  obtain cmd r where cmd: "transactionCommand E (he_NewID env) i rq = Inr cmd"
    and r: "Process E tx_ok (he_Tx2 env) (he_Draws env) (serial_views (svc_db s)) cmd (he_Now env) (he_Elapsed env) s = (Inr r, s1)"
    and x: "resultResponse E r (Some (isIdempotentReplay r (C_ID cmd))) = Inr x" and post: "rq_Method rq = ''POST''"
    using post_result [OF assms(2,3,6,7)] assms(4,5) by metis
  let ?cmd' = "cmd\<lparr>C_ID := he_NewID env'\<rparr>"
  have wf: "money_wf (C_Amount cmd)" using transactionCommand_Inr(3) [OF cmd] by (auto simp: money_wf_def money_valid_def int64_defs)
  have cmd': "transactionCommand E (he_NewID env') i' rq = Inr ?cmd'" by (rule transactionCommand_same [OF assms(10) cmd])
  have "business_fields ?cmd' = business_fields cmd" "C_IdempotencyKey ?cmd' = C_IdempotencyKey cmd" "C_ID ?cmd' \<noteq> uuid_Nil"
    "C_ID ?cmd' = R_TransactionID r \<or> C_ID ?cmd' \<notin> T_ID ` set (db_wagers (svc_db s2))"
    using assms(13,14) by (simp_all add: business_fields_def)
  from process_repeated [OF assms(1) wf r assms(8) this] obtain r' s3 t where
    r': "Process E tx_ok (he_Tx2 env') (he_Draws env') (serial_views (svc_db s2)) ?cmd' (he_Now env') (he_Elapsed env') s2 = (Inr r', s3)"
      "svc_db s3 = svc_db s2" "R_TransactionID r' = R_TransactionID r" "R_State r \<noteq> PendingReference \<longrightarrow> r' = r"
      "t \<in> set (db_wagers (svc_db s2))" "replayResult E t = Inr r'"
    by blast
  have flag: "isIdempotentReplay r' (he_NewID env')" using replay_id [OF r'(6)] r'(5) assms(14) unfolding isIdempotentReplay_def fresh_image by simp
  have inv: "service_inv E s" by (rule service.reachable_inv [OF assms(1)])
  have "service_step E s s1" by (rule step_process [OF wf serial_view r])
  with inv have "service_inv E s2" using service.step_inv service.run_inv [OF assms(8)] by blast
  then have "tx_row_ok E t" using r'(5) bank_invD(4) by (auto simp: service_inv_def)
  from resultResponse_stored [OF this r'(6), of "Some True"] obtain x' where x': "resultResponse E r' (Some True) = Inr x'"
    "rr_TransactionID x' = uuid_String E (R_TransactionID r')" "rr_IdempotentReplay x' = Some True" by blast
  have x1: "rr_TransactionID x = uuid_String E (R_TransactionID r)" "rr_State x = State_string (R_State r)"
    using x by (auto simp: resultResponse_def bindR_Inr_conv)
  have "x' = x\<lparr>rr_IdempotentReplay := Some True\<rparr>" if "rr_State x \<noteq> ''PENDING_REFERENCE''"
  proof -
    have "r' = r" using that x1(2) r'(4) by auto
    then show ?thesis using x x'(1) by (auto simp: resultResponse_def bindR_Inr_conv)
  qed
  moreover have "Router_Handler E env' rq s2 =
      ((writeJSON 200 (ResultBody x'))\<lparr>rs_Correlation := NormalizeCorrelationID (he_NewCorrelation env') (rq_CorrelationID rq)\<rparr>, s3)"
    using assms(2,9,11,12) post cmd' r'(1) flag x'(1)
    by (simp add: Router_Handler_def dispatch_def guarded_def processTransaction_def respond_def method_of_def Let_def)
  ultimately show ?thesis using r'(2,3) x' x1(1) by (simp add: writeJSON_def)
qed

text \<open>The bet of the concrete run as a request.\<close>

definition demo_post :: http_request where
  "demo_post = \<lparr>rq_Method = ''POST'', rq_Path = [''wagering'', ''transactions''], rq_Authorization = ''Bearer t'', rq_CorrelationID = [],
     rq_IdempotencyKey = ''x1'', rq_Cursor = [], rq_Limit = [], rq_BodySize = 300, rq_Body = StreamDoc (JObject
       [(''providerId'', JString ''prov''), (''externalTransactionId'', JString ''x1''), (''walletId'', JString ''7''),
        (''playerId'', JString ''p''), (''gameId'', JString ''g''), (''roundId'', JString ''r''), (''kind'', JString ''BET''),
        (''money'', JObject [(''amount'', JString ''0.40''), (''currency'', JString ''BRL'')])]) StreamEOF\<rparr>"

definition demo_env :: "uuid \<Rightarrow> Service \<Rightarrow> http_env" where
  "demo_env n s = example_env\<lparr>he_NewID := n, he_Draws := demo_draws n, he_Views := serial_views (svc_db s)\<rparr>"

lemma demo_identity: "requireProvider (demo_env n s) demo_post =
    Inr \<lparr>id_Subject = ''s'', id_Username = ''u'', id_ProviderID = ''prov'', id_Roles = [''provider'']\<rparr>"
proof -
  have "bearerToken demo_post = Inr ''t''" by code_simp
  then show ?thesis by (simp add: requireProvider_def authenticate_def demo_env_def example_env_def RoleProvider_def)
qed

lemma demo_post_command: "transactionCommand example_externals n
    \<lparr>id_Subject = ''s'', id_Username = ''u'', id_ProviderID = ''prov'', id_Roles = [''provider'']\<rparr> demo_post =
    Inr (demo_command n Bet 40 ''x1'' [])"
proof -
  have "transactionCommand example_externals 1 \<lparr>id_Subject = ''s'', id_Username = ''u'', id_ProviderID = ''prov'', id_Roles = [''provider'']\<rparr> demo_post =
      Inr (demo_command 1 Bet 40 ''x1'' [])" by code_simp
  from transactionCommand_same [OF refl this, of n] show ?thesis by (simp add: demo_command_def)
qed

lemma demo_post_route: "route_of (rq_Path demo_post) = ProcessRoute" "rq_Method demo_post = ''POST''"
  by code_simp+

theorem repeated_post_replays_witness:
  "\<exists>response s1 x response' s3 x'. Router_Handler example_externals (demo_env 1 demo_open) demo_post demo_open = (response, s1)
     \<and> rs_Body response = ResultBody x \<and> Router_Handler example_externals (demo_env 9 s1) demo_post s1 = (response', s3)
     \<and> rs_Body response' = ResultBody x' \<and> rr_TransactionID x' = rr_TransactionID x \<and> rr_IdempotentReplay x' = Some True"
proof -
  obtain s1 where p: "Process example_externals tx_ok tx_ok (demo_draws 1) (serial_views (svc_db demo_open)) (demo_command 1 Bet 40 ''x1'' []) 2 5 demo_open
      = (Inr demo_bet_result, s1)" "s1 = demo_bet"
    using demo_bet_eq by blast
  obtain x where "resultResponse example_externals demo_bet_result (Some False) = Inr x"
    by (simp add: resultResponse_def demo_bet_result_def wireMoney_eq currencyPattern_def max_int64_def)
  then have first: "Router_Handler example_externals (demo_env 1 demo_open) demo_post demo_open =
      ((writeJSON 200 (ResultBody x))\<lparr>rs_Correlation := NormalizeCorrelationID (he_NewCorrelation (demo_env 1 demo_open)) (rq_CorrelationID demo_post)\<rparr>, s1)"
    using p(1) demo_identity demo_post_command
    by (simp add: Router_Handler_def dispatch_def guarded_def processTransaction_def demo_post_route method_of_def respond_def isIdempotentReplay_def
        demo_env_def example_env_def demo_bet_result_def demo_command_def)
  have env: "he_Tx (demo_env n s) = tx_ok" "he_Views (demo_env n s) = serial_views (svc_db s)" "he_NewID (demo_env n s) = n" for n s
    by (simp_all add: demo_env_def example_env_def)
  have fresh: "he_NewID (demo_env 9 s1) \<noteq> uuid_Nil" "he_NewID (demo_env 9 s1) \<notin> T_ID ` set (db_wagers (svc_db s1))"
    using demo_bet_ids p(2) by (simp_all add: env)
  have body: "rs_Body (fst (Router_Handler example_externals (demo_env 1 demo_open) demo_post demo_open)) = ResultBody x"
    unfolding first by (simp add: writeJSON_def)
  from repeated_post_replays [OF demo_reachable(1) demo_post_route(1) demo_identity env(1,2) first _ rtranclp.rtrancl_refl demo_identity refl env(1,2) fresh, of x]
    first show ?thesis by (auto simp: writeJSON_def)
qed

text \<open>C22: A provider writes only its own transactions: whatever request an authenticated provider makes, the
  rows of every other provider are the same afterwards, in any state and under any failure of the
  database.\<close>

theorem provider_writes_isolated:
  assumes "requireProvider env rq = Inr i" "provider_route (route_of (rq_Path rq))" "Router_Handler E env rq s = (response, s')"
  shows "filter (\<lambda>t. T_ProviderID t \<noteq> id_ProviderID i) (db_wagers (svc_db s')) =
    filter (\<lambda>t. T_ProviderID t \<noteq> id_ProviderID i) (db_wagers (svc_db s))"
proof (cases "s' = s")
  case False
  then have "route_of (rq_Path rq) = ProcessRoute"
    using assms(2,3) by (cases "route_of (rq_Path rq)")
      (auto simp: provider_route_def Router_Handler_def dispatch_def guarded_def Let_def split: sum.splits prod.splits if_splits)
  with assms(1,3) False obtain h where "processTransaction E env i rq s = (h, s')"
    by (auto simp: Router_Handler_def dispatch_def guarded_def Let_def split: prod.splits if_splits)
  with False obtain cmd r where "transactionCommand E (he_NewID env) i rq = Inr cmd"
    "Process E (he_Tx env) (he_Tx2 env) (he_Draws env) (he_Views env) cmd (he_Now env) (he_Elapsed env) s = (r, s')"
    by (auto simp: processTransaction_def split: sum.splits prod.splits)
  with Process_others [of E "he_Tx env" "he_Tx2 env" "he_Draws env" "he_Views env" cmd] transactionCommand_Inr(2) show ?thesis by metis
qed simp

theorem provider_writes_isolated_witness:
  "filter (\<lambda>t. T_ProviderID t \<noteq> ''prov'') (db_wagers (svc_db (snd (Router_Handler example_externals (demo_env 1 demo_open) demo_post demo_open)))) =
   filter (\<lambda>t. T_ProviderID t \<noteq> ''prov'') (db_wagers (svc_db demo_open))"
  using provider_writes_isolated [OF demo_identity [of 1 demo_open], of example_externals demo_open] demo_post_route(1)
  by (simp add: provider_route_def prod_eq_iff)

text \<open>C25: The reconciliation endpoint on a wallet of any reachable state always answers with status 200 and the
  stored balance, and changes nothing. It reports the wallet as consistent, with the same calculated
  balance and difference zero, exactly when no balance recurs before two of its entries; otherwise it
  reports an inconsistency although the ledger and the balance agree.\<close>

theorem reconciliation_endpoint:
  assumes "service_reachable E s" "w \<in> set (db_wallets (svc_db s))" "parseUUID E walletId = Inr (W_ID w)"
    "he_Read1 env = (None, svc_db s)" "he_Read2 env = (None, svc_db s)" "he_Read3 env = (None, svc_db s)" "he_Read4 env = (None, svc_db s)"
  shows "let es = filter (\<lambda>e. L_WalletID e = W_ID w) (db_ledger (svc_db s)); ok = distinct (map L_BalanceBefore es);
        balance = \<lparr>minor = W_Balance w, currency = W_Currency w\<rparr>
    in reconcileWallet E env walletId s = (writeJSON 200 (ReconciliationBody
        \<lparr>rc_WalletID = uuid_String E (W_ID w), rc_StoredBalance = balance, rc_CalculatedBalance = (if ok then Some balance else None),
         rc_Difference = (if ok then Some \<lparr>minor = 0, currency = W_Currency w\<rparr> else None), rc_Consistent = ok,
         rc_CheckedEntries = length es\<rparr>), s) \<and> (\<Sum>e \<leftarrow> es. signed_entry e) = W_Balance w"
proof -
  let ?d = "svc_db s"
  have inv: "bank_inv E ?d" using reachable_bank [OF assms(1)] by simp
  note find = wallet_found [OF inv assms(2)] and rec = reconstruct_wallet [OF inv assms(2)]
  have row: "currencyPattern (W_Currency w)" "0 \<le> W_Balance w" "W_Balance w \<le> max_int64"
    using bank_invD(3) [OF inv assms(2)] by (simp_all add: wallet_row_ok_def)
  have sub: "money_Sub \<lparr>minor = W_Balance w, currency = W_Currency w\<rparr> \<lparr>minor = W_Balance w, currency = W_Currency w\<rparr> =
      Inr \<lparr>minor = 0, currency = W_Currency w\<rparr>"
    using row by (auto simp: money_Sub_def money_compatible_def currencyPattern_def wrap64_def int64_defs)
  from ledger_total [OF inv assms(2)] show ?thesis using assms(3-7) find rec sub row
    by (simp add: reconcileWallet_def query_Wallet_def statement_def Reconcile_def query_LedgerEntryCount_def ledgerQuery_CountByWallet_def
        wireMoney_eq respond_def entries_of_def Let_def)
qed

theorem reconciliation_endpoint_witness:
  "\<exists>x. rs_Body (fst (reconcileWallet example_externals (example_env\<lparr>he_Read1 := (None, svc_db demo_refund), he_Read2 := (None, svc_db demo_refund),
     he_Read3 := (None, svc_db demo_refund), he_Read4 := (None, svc_db demo_refund)\<rparr>) ''7'' demo_refund)) = ReconciliationBody x \<and> rc_Consistent x \<and> rc_CheckedEntries x = 3"
proof -
  let ?w = "hd (db_wallets (svc_db demo_refund))"
  have w: "?w \<in> set (db_wallets (svc_db demo_refund))" by (simp add: demo_refund_wallets)
  have "parseUUID example_externals ''7'' = Inr 7" by code_simp
  then have p: "parseUUID example_externals ''7'' = Inr (W_ID ?w)" by (simp add: demo_refund_wallets)
  show ?thesis
    using reconciliation_endpoint [OF demo_reachable(3) w p, of "example_env\<lparr>he_Read1 := (None, svc_db demo_refund),
        he_Read2 := (None, svc_db demo_refund), he_Read3 := (None, svc_db demo_refund), he_Read4 := (None, svc_db demo_refund)\<rparr>"]
    by (simp add: demo_refund_wallets demo_refund_ledger writeJSON_def Let_def)
qed

end
