(* ===== verification/Configuration.thy ===== *)
theory Configuration
  imports Messaging
begin

text \<open>
  The configuration of \<^verbatim>\<open>internal/infrastructure/config/config.go\<close>. The environment is an
  argument, \<open>env name\<close> being what \<^verbatim>\<open>os.Getenv\<close> returns. Two parts of the standard library
  are arguments too, with nothing assumed of them: \<open>frac\<close>, the floating point part of
  \<^verbatim>\<open>time.ParseDuration\<close>, and \<open>urlPath\<close>, the path \<^verbatim>\<open>url.Parse\<close> finds in a
  URL, none being its error. Every failure is the one error class of the package; the texts are left out.
\<close>

section \<open>Model\<close>

record Config =
  cf_HTTPAddr :: string
  cf_DatabaseURL :: string
  cf_KeycloakRealm :: string
  cf_OIDCIssuer :: string
  cf_OIDCJWKSURL :: string
  cf_OAuthAudience :: string
  cf_ShutdownTimeout :: duration
  cf_LogLevel :: string
  cf_AWSRegion :: string
  cf_AWSEndpointURL :: string
  cf_AWSAccessKeyID :: string
  cf_AWSSecretAccessKey :: string
  cf_SQSWagerQueue :: string
  cf_SQSWagerDLQ :: string
  cf_SQSEventQueue :: string
  cf_SQSVisibilityTimeout :: duration
  cf_SQSWaitTime :: duration
  cf_SQSMaxMessages :: int
  cf_SQSRetryVisibilityBackoff :: duration
  cf_SQSMaxReceiveCount :: int
  cf_ReferencePollInterval :: duration
  cf_ReferenceMaxAttempts :: int
  cf_ReferenceBackoff :: duration
  cf_OutboxPollInterval :: duration
  cf_OutboxBatchSize :: int
  cf_OutboxMaxAttempts :: int
  cf_OutboxBackoff :: duration
  cf_OutboxClaimLease :: duration
  cf_OutboxEnabled :: bool

definition time_Second :: duration where
  "time_Second = 1000000000"

definition valueOr :: "string \<Rightarrow> string \<Rightarrow> string" where
  "valueOr v fallback = (if TrimSpace v = [] then fallback else v)"

definition default_config :: "(string \<Rightarrow> string) \<Rightarrow> Config" where
  "default_config env =
     \<lparr>cf_HTTPAddr = valueOr (env ''HTTP_ADDR'') '':8080'',
      cf_DatabaseURL = TrimSpace (env ''DATABASE_URL''),
      cf_KeycloakRealm = TrimSpace (env ''KEYCLOAK_REALM''),
      cf_OIDCIssuer = TrimSpace (env ''OIDC_ISSUER''),
      cf_OIDCJWKSURL = TrimSpace (env ''OIDC_JWKS_URL''),
      cf_OAuthAudience = TrimSpace (env ''OAUTH_AUDIENCE''),
      cf_ShutdownTimeout = 10 * time_Second,
      cf_LogLevel = valueOr (env ''LOG_LEVEL'') ''info'',
      cf_AWSRegion = valueOr (env ''AWS_REGION'') ''us-east-1'',
      cf_AWSEndpointURL = TrimSpace (env ''AWS_ENDPOINT_URL''),
      cf_AWSAccessKeyID = valueOr (env ''AWS_ACCESS_KEY_ID'') ''test'',
      cf_AWSSecretAccessKey = valueOr (env ''AWS_SECRET_ACCESS_KEY'') ''test'',
      cf_SQSWagerQueue = valueOr (env ''SQS_WAGER_QUEUE'') ''wager-transactions.fifo'',
      cf_SQSWagerDLQ = valueOr (env ''SQS_WAGER_DLQ'') ''wager-transactions-dlq.fifo'',
      cf_SQSEventQueue = valueOr (env ''SQS_EVENT_QUEUE'') ''wager-events.fifo'',
      cf_SQSVisibilityTimeout = 30 * time_Second,
      cf_SQSWaitTime = 10 * time_Second,
      cf_SQSMaxMessages = 1,
      cf_SQSRetryVisibilityBackoff = 5 * time_Second,
      cf_SQSMaxReceiveCount = 5,
      cf_ReferencePollInterval = time_Second,
      cf_ReferenceMaxAttempts = 10,
      cf_ReferenceBackoff = time_Second,
      cf_OutboxPollInterval = time_Second,
      cf_OutboxBatchSize = 20,
      cf_OutboxMaxAttempts = 10,
      cf_OutboxBackoff = time_Second,
      cf_OutboxClaimLease = 30 * time_Second,
      cf_OutboxEnabled = True\<rparr>"

text \<open>One of the optional settings: a blank variable keeps the default, any other text has to parse to an
  accepted value.\<close>

definition setting :: "(string \<Rightarrow> string) \<Rightarrow> string \<Rightarrow> (string \<Rightarrow> 'a option) \<Rightarrow> ('a \<Rightarrow> bool) \<Rightarrow> ('a \<Rightarrow> Config \<Rightarrow> Config) \<Rightarrow> Config \<Rightarrow> Config result" where
  "setting env name parse accept store cfg =
     (let raw = TrimSpace (env name)
      in if raw = [] then Inr cfg
         else case parse raw of
           None \<Rightarrow> Inl ErrInvalidConfiguration
         | Some v \<Rightarrow> if accept v then Inr (store v cfg) else Inl ErrInvalidConfiguration)"

definition duration_setting where
  "duration_setting frac env name lower store cfg = setting env name (go_ParseDuration frac) (\<lambda>d. lower \<le> d) store cfg"

definition seconds_setting where
  "seconds_setting env name lower upper store cfg =
     setting env name go_Atoi (\<lambda>n. lower \<le> n \<and> n \<le> upper) (\<lambda>n. store (wrap64 (n * time_Second))) cfg"

definition count_setting where
  "count_setting env name accept store cfg = setting env name go_Atoi accept store cfg"

definition realmFromPath :: "string \<Rightarrow> string option" where
  "realmFromPath path =
     (let parts = split_on CHR ''/'' (trim_char CHR ''/'' path)
      in map_option (\<lambda>i. parts ! (i + 1))
           (find (\<lambda>i. parts ! i = ''realms'' \<and> parts ! (i + 1) \<noteq> []) [0..<length parts - 1]))"

definition validateOIDCRealmConsistency :: "(string \<Rightarrow> string option) \<Rightarrow> string \<Rightarrow> string \<Rightarrow> string \<Rightarrow> error option" where
  "validateOIDCRealmConsistency urlPath issuer jwks configuredRealm =
     (case urlPath issuer of
        None \<Rightarrow> Some ErrInvalidConfiguration
      | Some issuerPath \<Rightarrow>
          case urlPath jwks of
            None \<Rightarrow> Some ErrInvalidConfiguration
          | Some jwksPath \<Rightarrow>
              let issuerRealm = realmFromPath issuerPath; jwksRealm = realmFromPath jwksPath
              in if issuerRealm \<noteq> None \<and> jwksRealm \<noteq> None \<and> issuerRealm \<noteq> jwksRealm then Some ErrInvalidConfiguration
                 else if configuredRealm \<noteq> [] \<and> issuerRealm \<noteq> None \<and> issuerRealm \<noteq> Some configuredRealm then Some ErrInvalidConfiguration
                 else if configuredRealm \<noteq> [] \<and> jwksRealm \<noteq> None \<and> jwksRealm \<noteq> Some configuredRealm then Some ErrInvalidConfiguration
                 else None)"

definition parse_settings :: "(int \<Rightarrow> int \<Rightarrow> int \<Rightarrow> int) \<Rightarrow> (string \<Rightarrow> string) \<Rightarrow> Config \<Rightarrow> Config result" where
  "parse_settings frac env c0 =
     bindR (duration_setting frac env ''HTTP_SHUTDOWN_TIMEOUT'' 1 (\<lambda>v c. c\<lparr>cf_ShutdownTimeout := v\<rparr>) c0) (\<lambda>c1.
     bindR (seconds_setting env ''SQS_VISIBILITY_TIMEOUT_SECONDS'' 1 43200 (\<lambda>v c. c\<lparr>cf_SQSVisibilityTimeout := v\<rparr>) c1) (\<lambda>c2.
     bindR (seconds_setting env ''SQS_WAIT_TIME_SECONDS'' 0 20 (\<lambda>v c. c\<lparr>cf_SQSWaitTime := v\<rparr>) c2) (\<lambda>c3.
     bindR (count_setting env ''SQS_MAX_MESSAGES'' (\<lambda>n. 0 < n \<and> n \<le> 10) (\<lambda>v c. c\<lparr>cf_SQSMaxMessages := wrap32 v\<rparr>) c3) (\<lambda>c4.
     bindR (seconds_setting env ''SQS_RETRY_VISIBILITY_BACKOFF_SECONDS'' 0 43200 (\<lambda>v c. c\<lparr>cf_SQSRetryVisibilityBackoff := v\<rparr>) c4) (\<lambda>c5.
     bindR (count_setting env ''SQS_MAX_RECEIVE_COUNT'' (\<lambda>n. 1 \<le> n) (\<lambda>v c. c\<lparr>cf_SQSMaxReceiveCount := v\<rparr>) c5) (\<lambda>c6.
     bindR (duration_setting frac env ''REFERENCE_POLL_INTERVAL'' 1 (\<lambda>v c. c\<lparr>cf_ReferencePollInterval := v\<rparr>) c6) (\<lambda>c7.
     bindR (count_setting env ''REFERENCE_MAX_ATTEMPTS'' (\<lambda>n. 1 \<le> n) (\<lambda>v c. c\<lparr>cf_ReferenceMaxAttempts := v\<rparr>) c7) (\<lambda>c8.
     bindR (duration_setting frac env ''REFERENCE_BACKOFF'' 0 (\<lambda>v c. c\<lparr>cf_ReferenceBackoff := v\<rparr>) c8) (\<lambda>c9.
     bindR (duration_setting frac env ''OUTBOX_POLL_INTERVAL'' 1 (\<lambda>v c. c\<lparr>cf_OutboxPollInterval := v\<rparr>) c9) (\<lambda>c10.
     bindR (count_setting env ''OUTBOX_BATCH_SIZE'' (\<lambda>n. 1 \<le> n \<and> n \<le> 100) (\<lambda>v c. c\<lparr>cf_OutboxBatchSize := v\<rparr>) c10) (\<lambda>c11.
     bindR (count_setting env ''OUTBOX_MAX_ATTEMPTS'' (\<lambda>n. 1 \<le> n) (\<lambda>v c. c\<lparr>cf_OutboxMaxAttempts := v\<rparr>) c11) (\<lambda>c12.
     bindR (duration_setting frac env ''OUTBOX_BACKOFF'' 0 (\<lambda>v c. c\<lparr>cf_OutboxBackoff := v\<rparr>) c12) (\<lambda>c13.
     bindR (duration_setting frac env ''OUTBOX_CLAIM_LEASE'' 1 (\<lambda>v c. c\<lparr>cf_OutboxClaimLease := v\<rparr>) c13) (\<lambda>c14.
     setting env ''OUTBOX_ENABLED'' go_ParseBool (\<lambda>_. True) (\<lambda>v c. c\<lparr>cf_OutboxEnabled := v\<rparr>) c14))))))))))))))"

definition Load :: "(int \<Rightarrow> int \<Rightarrow> int \<Rightarrow> int) \<Rightarrow> (string \<Rightarrow> string option) \<Rightarrow> (string \<Rightarrow> string) \<Rightarrow> Config result" where
  "Load frac urlPath env =
     bindR (parse_settings frac env (default_config env)) (\<lambda>cfg.
       if list_ex (\<lambda>v. v = []) [cf_DatabaseURL cfg, cf_OIDCIssuer cfg, cf_OIDCJWKSURL cfg, cf_OAuthAudience cfg]
       then Inl ErrInvalidConfiguration
       else case validateOIDCRealmConsistency urlPath (cf_OIDCIssuer cfg) (cf_OIDCJWKSURL cfg) (cf_KeycloakRealm cfg) of
         Some err \<Rightarrow> Inl err
       | None \<Rightarrow>
           if TrimSpace (cf_AWSRegion cfg) = [] \<or> TrimSpace (cf_SQSWagerQueue cfg) = [] \<or> TrimSpace (cf_SQSWagerDLQ cfg) = []
              \<or> TrimSpace (cf_SQSEventQueue cfg) = []
           then Inl ErrInvalidConfiguration
           else if cf_LogLevel cfg \<in> set [''debug'', ''info'', ''warn'', ''error''] then Inr cfg
           else Inl ErrInvalidConfiguration)"

definition SQSVisibilityTimeoutSeconds :: "Config \<Rightarrow> int" where
  "SQSVisibilityTimeoutSeconds c = wrap32 (go_quot (cf_SQSVisibilityTimeout c) time_Second)"

definition SQSWaitTimeSeconds :: "Config \<Rightarrow> int" where
  "SQSWaitTimeSeconds c = wrap32 (go_quot (cf_SQSWaitTime c) time_Second)"

definition LogLevelValue :: "Config \<Rightarrow> int" where
  "LogLevelValue c =
     (if cf_LogLevel c = ''debug'' then - 4
      else if cf_LogLevel c = ''warn'' then 4
      else if cf_LogLevel c = ''error'' then 8
      else 0)"

section \<open>Lemmas\<close>

text \<open>A text that begins and ends with visible ASCII characters is not trimmed.\<close>

definition visible :: "char \<Rightarrow> bool" where
  "visible c \<longleftrightarrow> 33 \<le> (of_char c :: nat) \<and> (of_char c :: nat) \<le> 126"

lemma strip_leading_visible:
  assumes "s = [] \<or> visible (hd s)" "list_all (\<lambda>p. p \<noteq> [] \<and> \<not> visible (hd p)) ps"
  shows "strip_leading ps s = s"
proof -
  have "take (length p) s \<noteq> p" if "p \<in> set ps" for p
  proof
    assume *: "take (length p) s = p"
    have p: "p \<noteq> []" "\<not> visible (hd p)" using that assms(2) by (auto simp: list_all_iff)
    from p(1) have "hd (take (length p) s) = hd s" by (simp add: hd_take)
    with * have "hd p = hd s" by simp
    moreover have "s \<noteq> []" using * p(1) by auto
    ultimately show False using p assms(1) by auto
  qed
  then have "leading ps s = None" by (simp add: leading_None)
  then show ?thesis by (subst strip_leading.simps) simp
qed

lemma TrimSpace_visible:
  assumes "s = [] \<or> visible (hd s) \<and> visible (last s)"
  shows "TrimSpace s = s"
proof -
  have "list_all (\<lambda>p. p \<noteq> [] \<and> \<not> visible (hd p)) space_runes" "list_all (\<lambda>p. p \<noteq> [] \<and> \<not> visible (hd p)) (map rev space_runes)"
    by code_simp+
  then show ?thesis using assms by (auto simp: TrimSpace_def strip_leading_visible hd_rev)
qed

lemma setting_Inr:
  "setting env name parse accept store cfg = Inr cfg' \<longleftrightarrow>
     (TrimSpace (env name) = [] \<and> cfg' = cfg) \<or>
     (\<exists>v. TrimSpace (env name) \<noteq> [] \<and> parse (TrimSpace (env name)) = Some v \<and> accept v \<and> cfg' = store v cfg)"
  by (auto simp: setting_def Let_def split: option.splits if_splits)

definition in_bounds :: "Config \<Rightarrow> bool" where
  "in_bounds c \<longleftrightarrow> 0 < cf_ShutdownTimeout c
     \<and> (\<exists>n. 1 \<le> n \<and> n \<le> 43200 \<and> cf_SQSVisibilityTimeout c = n * time_Second)
     \<and> (\<exists>n. 0 \<le> n \<and> n \<le> 20 \<and> cf_SQSWaitTime c = n * time_Second)
     \<and> 1 \<le> cf_SQSMaxMessages c \<and> cf_SQSMaxMessages c \<le> 10
     \<and> (\<exists>n. 0 \<le> n \<and> n \<le> 43200 \<and> cf_SQSRetryVisibilityBackoff c = n * time_Second)
     \<and> 1 \<le> cf_SQSMaxReceiveCount c
     \<and> 0 < cf_ReferencePollInterval c \<and> 1 \<le> cf_ReferenceMaxAttempts c \<and> 0 \<le> cf_ReferenceBackoff c
     \<and> 0 < cf_OutboxPollInterval c \<and> 1 \<le> cf_OutboxBatchSize c \<and> cf_OutboxBatchSize c \<le> 100
     \<and> 1 \<le> cf_OutboxMaxAttempts c \<and> 0 \<le> cf_OutboxBackoff c \<and> 0 < cf_OutboxClaimLease c"

lemma default_in_bounds: "in_bounds (default_config env)"
proof -
  have "\<exists>n::int. 1 \<le> n \<and> n \<le> 43200 \<and> 30 * time_Second = n * time_Second" by (intro exI [of _ 30]) simp
  moreover have "\<exists>n::int. 0 \<le> n \<and> n \<le> 20 \<and> 10 * time_Second = n * time_Second" by (intro exI [of _ 10]) simp
  moreover have "\<exists>n::int. 0 \<le> n \<and> n \<le> 43200 \<and> 5 * time_Second = n * time_Second" by (intro exI [of _ 5]) simp
  ultimately show ?thesis by (simp add: in_bounds_def default_config_def) (simp add: time_Second_def)
qed

lemma wrapped_seconds: "0 \<le> n \<Longrightarrow> n \<le> 43200 \<Longrightarrow> wrap64 (n * time_Second) = n * time_Second"
  by (simp add: wrap64_def time_Second_def)

text \<open>Every setting of \<^const>\<open>parse_settings\<close> keeps the bounds.\<close>

lemma settings_in_bounds:
  "duration_setting frac env x 1 (\<lambda>v c. c\<lparr>cf_ShutdownTimeout := v\<rparr>) c = Inr c' \<Longrightarrow> in_bounds c \<Longrightarrow> in_bounds c'"
  "seconds_setting env x 1 43200 (\<lambda>v c. c\<lparr>cf_SQSVisibilityTimeout := v\<rparr>) c = Inr c' \<Longrightarrow> in_bounds c \<Longrightarrow> in_bounds c'"
  "seconds_setting env x 0 20 (\<lambda>v c. c\<lparr>cf_SQSWaitTime := v\<rparr>) c = Inr c' \<Longrightarrow> in_bounds c \<Longrightarrow> in_bounds c'"
  "count_setting env x (\<lambda>n. 0 < n \<and> n \<le> 10) (\<lambda>v c. c\<lparr>cf_SQSMaxMessages := wrap32 v\<rparr>) c = Inr c' \<Longrightarrow> in_bounds c \<Longrightarrow> in_bounds c'"
  "seconds_setting env x 0 43200 (\<lambda>v c. c\<lparr>cf_SQSRetryVisibilityBackoff := v\<rparr>) c = Inr c' \<Longrightarrow> in_bounds c \<Longrightarrow> in_bounds c'"
  "count_setting env x (\<lambda>n. 1 \<le> n) (\<lambda>v c. c\<lparr>cf_SQSMaxReceiveCount := v\<rparr>) c = Inr c' \<Longrightarrow> in_bounds c \<Longrightarrow> in_bounds c'"
  "duration_setting frac env x 1 (\<lambda>v c. c\<lparr>cf_ReferencePollInterval := v\<rparr>) c = Inr c' \<Longrightarrow> in_bounds c \<Longrightarrow> in_bounds c'"
  "count_setting env x (\<lambda>n. 1 \<le> n) (\<lambda>v c. c\<lparr>cf_ReferenceMaxAttempts := v\<rparr>) c = Inr c' \<Longrightarrow> in_bounds c \<Longrightarrow> in_bounds c'"
  "duration_setting frac env x 0 (\<lambda>v c. c\<lparr>cf_ReferenceBackoff := v\<rparr>) c = Inr c' \<Longrightarrow> in_bounds c \<Longrightarrow> in_bounds c'"
  "duration_setting frac env x 1 (\<lambda>v c. c\<lparr>cf_OutboxPollInterval := v\<rparr>) c = Inr c' \<Longrightarrow> in_bounds c \<Longrightarrow> in_bounds c'"
  "count_setting env x (\<lambda>n. 1 \<le> n \<and> n \<le> 100) (\<lambda>v c. c\<lparr>cf_OutboxBatchSize := v\<rparr>) c = Inr c' \<Longrightarrow> in_bounds c \<Longrightarrow> in_bounds c'"
  "count_setting env x (\<lambda>n. 1 \<le> n) (\<lambda>v c. c\<lparr>cf_OutboxMaxAttempts := v\<rparr>) c = Inr c' \<Longrightarrow> in_bounds c \<Longrightarrow> in_bounds c'"
  "duration_setting frac env x 0 (\<lambda>v c. c\<lparr>cf_OutboxBackoff := v\<rparr>) c = Inr c' \<Longrightarrow> in_bounds c \<Longrightarrow> in_bounds c'"
  "duration_setting frac env x 1 (\<lambda>v c. c\<lparr>cf_OutboxClaimLease := v\<rparr>) c = Inr c' \<Longrightarrow> in_bounds c \<Longrightarrow> in_bounds c'"
  "setting env x go_ParseBool (\<lambda>_. True) (\<lambda>v c. c\<lparr>cf_OutboxEnabled := v\<rparr>) c = Inr c' \<Longrightarrow> in_bounds c \<Longrightarrow> in_bounds c'"
  unfolding in_bounds_def duration_setting_def seconds_setting_def count_setting_def setting_Inr
  by (auto simp: wrapped_seconds wrap32_id)

lemma parse_settings_in_bounds: "parse_settings frac env c0 = Inr cfg \<Longrightarrow> in_bounds c0 \<Longrightarrow> in_bounds cfg"
  unfolding parse_settings_def bindR_Inr_conv by (elim exE conjE) (drule (1) settings_in_bounds)+

lemma Load_Inr:
  assumes "Load frac urlPath env = Inr cfg"
  shows "parse_settings frac env (default_config env) = Inr cfg"
    "validateOIDCRealmConsistency urlPath (cf_OIDCIssuer cfg) (cf_OIDCJWKSURL cfg) (cf_KeycloakRealm cfg) = None"
    "\<forall>v \<in> {cf_DatabaseURL cfg, cf_OIDCIssuer cfg, cf_OIDCJWKSURL cfg, cf_OAuthAudience cfg}. v \<noteq> []"
    "cf_LogLevel cfg \<in> {''debug'', ''info'', ''warn'', ''error''}"
  using assms by (auto simp: Load_def bindR_Inr_conv split: if_splits option.splits)

text \<open>The seconds handed to the broker are exactly the configured ones.\<close>

lemma seconds_exact:
  "in_bounds c \<Longrightarrow> SQSVisibilityTimeoutSeconds c * time_Second = cf_SQSVisibilityTimeout c"
  "in_bounds c \<Longrightarrow> SQSWaitTimeSeconds c * time_Second = cf_SQSWaitTime c"
  by (auto simp: in_bounds_def SQSVisibilityTimeoutSeconds_def SQSWaitTimeSeconds_def time_Second_def go_quot_nonneg wrap32_id)

text \<open>A realm is the segment after the first segment \<^verbatim>\<open>realms\<close> that has a name behind it.\<close>

lemma realmFromPath_Some:
  assumes "realmFromPath path = Some r"
  shows "\<exists>before after. split_on CHR ''/'' (trim_char CHR ''/'' path) = before @ ''realms'' # r # after \<and> r \<noteq> []"
proof -
  let ?ps = "split_on CHR ''/'' (trim_char CHR ''/'' path)"
  from assms obtain i where i: "find (\<lambda>i. ?ps ! i = ''realms'' \<and> ?ps ! (i + 1) \<noteq> []) [0..<length ?ps - 1] = Some i" and r: "r = ?ps ! (i + 1)"
    by (auto simp: realmFromPath_def Let_def)
  from find_SomeD [OF i] have "?ps ! i = ''realms''" "?ps ! (i + 1) \<noteq> []" "i + 1 < length ?ps" by auto
  then have "?ps = take i ?ps @ ''realms'' # r # drop (i + 2) ?ps"
    using id_take_nth_drop [of i ?ps] Cons_nth_drop_Suc [of "Suc i" ?ps] r by simp
  then show ?thesis using \<open>?ps ! (i + 1) \<noteq> []\<close> r by metis
qed

section \<open>Properties\<close>

text \<open>The realms a configuration names: in the issuer, in the JWKS address and in the variable.\<close>

definition named_realms :: "(string \<Rightarrow> string option) \<Rightarrow> Config \<Rightarrow> string set" where
  "named_realms urlPath cfg =
     {r. Option.bind (urlPath (cf_OIDCIssuer cfg)) realmFromPath = Some r} \<union> {r. Option.bind (urlPath (cf_OIDCJWKSURL cfg)) realmFromPath = Some r}
     \<union> ({cf_KeycloakRealm cfg} - {[]})"

text \<open>A configuration that loads names its dependencies consistently: the database, the issuer, the JWKS
  address and the audience are present, the issuer and the JWKS address are URLs, and all the Keycloak
  realms they and the realm variable name are one realm, the realm of a URL being the path segment behind
  a segment \<open>realms\<close>.\<close>

theorem configured_realms_agree:
  assumes "Load frac urlPath env = Inr cfg"
  shows "[] \<notin> {cf_DatabaseURL cfg, cf_OIDCIssuer cfg, cf_OIDCJWKSURL cfg, cf_OAuthAudience cfg}
    \<and> urlPath (cf_OIDCIssuer cfg) \<noteq> None \<and> urlPath (cf_OIDCJWKSURL cfg) \<noteq> None
    \<and> (\<exists>realm. named_realms urlPath cfg \<subseteq> {realm})
    \<and> (\<forall>path r. realmFromPath path = Some r \<longrightarrow>
        (\<exists>before after. split_on CHR ''/'' (trim_char CHR ''/'' path) = before @ ''realms'' # r # after \<and> r \<noteq> []))"
proof -
  have "r = r'" if "r \<in> named_realms urlPath cfg" "r' \<in> named_realms urlPath cfg" for r r'
    using Load_Inr(2) [OF assms] that
    by (auto simp: validateOIDCRealmConsistency_def named_realms_def Let_def bind_eq_Some_conv split: option.splits if_splits)
  then have "\<exists>realm. named_realms urlPath cfg \<subseteq> {realm}" by blast
  then show ?thesis using Load_Inr(2,3) [OF assms] realmFromPath_Some
    by (auto simp: validateOIDCRealmConsistency_def split: option.splits)
qed

definition demo_environment :: "string \<Rightarrow> string" where
  "demo_environment name = (case map_of [(''DATABASE_URL'', ''postgres://db''), (''OIDC_ISSUER'', ''http://localhost/realms/betting''),
     (''OIDC_JWKS_URL'', ''http://keycloak/realms/betting/certs''), (''OAUTH_AUDIENCE'', ''api''), (''KEYCLOAK_REALM'', ''betting''),
     (''SQS_WAIT_TIME_SECONDS'', ''20''), (''OUTBOX_BACKOFF'', ''1m30s'')] name of None \<Rightarrow> [] | Some v \<Rightarrow> v)"

text \<open>A parser for the URLs of the example: scheme, two slashes, host, path.\<close>

definition demo_path :: "string \<Rightarrow> string option" where
  "demo_path u = (if take 7 u = ''http://'' then Some (dropWhile (\<lambda>c. c \<noteq> CHR ''/'') (drop 7 u)) else None)"

definition demo_cfg :: Config where
  "demo_cfg = (case Load (\<lambda>f u s. f * u div s) demo_path demo_environment of Inr c \<Rightarrow> c | Inl _ \<Rightarrow> default_config (\<lambda>_. []))"

lemma demo_cfg_loads: "Load (\<lambda>f u s. f * u div s) demo_path demo_environment = Inr demo_cfg"
proof -
  have parsed: "go_Atoi ''20'' = Some 20" "go_ParseDuration (\<lambda>f u s. f * u div s) ''1m30s'' = Some 90000000000"
    "validateOIDCRealmConsistency demo_path ''http://localhost/realms/betting'' ''http://keycloak/realms/betting/certs'' ''betting'' = None"
    by code_simp+
  have env: "demo_environment name = []" if "name \<notin> {''DATABASE_URL'', ''OIDC_ISSUER'', ''OIDC_JWKS_URL'', ''OAUTH_AUDIENCE'',
      ''KEYCLOAK_REALM'', ''SQS_WAIT_TIME_SECONDS'', ''OUTBOX_BACKOFF''}" for name
    using that by (simp add: demo_environment_def)
  have defaults: "\<exists>c. default_config demo_environment = c \<and> cf_DatabaseURL c = ''postgres://db''
      \<and> cf_OIDCIssuer c = ''http://localhost/realms/betting'' \<and> cf_OIDCJWKSURL c = ''http://keycloak/realms/betting/certs''
      \<and> cf_OAuthAudience c = ''api'' \<and> cf_KeycloakRealm c = ''betting'' \<and> cf_LogLevel c = ''info'' \<and> cf_AWSRegion c = ''us-east-1''
      \<and> cf_SQSWagerQueue c = ''wager-transactions.fifo'' \<and> cf_SQSWagerDLQ c = ''wager-transactions-dlq.fifo'' \<and> cf_SQSEventQueue c = ''wager-events.fifo''"
    by (simp add: default_config_def valueOr_def env demo_environment_def TrimSpace_visible visible_def)
  have "\<exists>c. Load (\<lambda>f u s. f * u div s) demo_path demo_environment = Inr c"
    using defaults parsed
    by (auto simp: Load_def parse_settings_def duration_setting_def seconds_setting_def count_setting_def setting_def env
        demo_environment_def TrimSpace_visible visible_def)
  then show ?thesis by (auto simp: demo_cfg_def)
qed

theorem configured_realms_agree_witness:
  "\<exists>realm. named_realms demo_path demo_cfg \<subseteq> {realm} \<and> demo_path (cf_OIDCIssuer demo_cfg) \<noteq> None"
  using configured_realms_agree [OF demo_cfg_loads] by blast

end
