(* ===== verification/Composition.thy ===== *)
theory Composition
  imports Outbox References Configuration Http
begin

text \<open>
  The composition of \<^verbatim>\<open>internal/composition/module.go\<close>: the configuration each component is
  built with, the HTTP server of \<^verbatim>\<open>internal/transport/http/router.go\<close> and the lifecycle hooks
  of the process. The dependency injection container (Fx) is outside the repository: its stop sequence is
  an argument of the property that needs it. The interface \<^verbatim>\<open>lifecycleConsumer\<close> is a locale,
  interpreted for the consumer and the two workers.
\<close>

section \<open>The interface of a background component\<close>

text \<open>\<open>Start\<close> gets the error of the startup context, \<open>Stop\<close> whether the run ended before the context
  of the caller did, and that context's error.\<close>

locale lifecycleConsumer =
  fixes Start :: "error option \<Rightarrow> 'w \<Rightarrow> error option \<times> 'w"
    and Stop :: "bool \<Rightarrow> error \<Rightarrow> 'w \<Rightarrow> error option \<times> 'w"
    and idle :: "'w \<Rightarrow> bool"
    and running :: "'w \<Rightarrow> bool"
  assumes running_not_idle: "running w \<Longrightarrow> \<not> idle w"
    and start_cancelled: "Start (Some e) w = (Some e, w)"
    and start_idle: "idle w \<Longrightarrow> fst (Start None w) = None \<and> running (snd (Start None w))"
    and start_active: "\<not> idle w \<Longrightarrow> snd (Start None w) = w"
    and stop_idle: "idle w \<Longrightarrow> Stop finished e w = (None, w)"
    and stop_finished: "\<not> idle w \<Longrightarrow> fst (Stop True e w) = None \<and> idle (snd (Stop True e w))"
    and stop_timeout: "\<not> idle w \<Longrightarrow> fst (Stop False e w) = Some e \<and> \<not> idle (snd (Stop False e w)) \<and> \<not> running (snd (Stop False e w))"
begin

lemma stop_not_running: "\<not> running (snd (Stop finished e w))"
  by (cases "idle w"; cases finished) (auto simp: stop_idle dest: running_not_idle stop_finished stop_timeout)

lemma stop_error: "fst (Stop finished e w) = (if idle w \<or> finished then None else Some e)"
  by (cases "idle w"; cases finished) (simp_all add: stop_idle stop_finished stop_timeout)

lemma stop_idles: "idle (snd (Stop True e w))"
  by (cases "idle w") (simp_all add: stop_idle stop_finished)

lemma restart:
  assumes "idle w"
  shows "running (snd (Start None (snd (Stop True e (snd (Start None w))))))"
  using assms start_idle stop_finished running_not_idle by blast

end

interpretation consumer: lifecycleConsumer Consumer_Start Consumer_Stop "\<lambda>c. cn_active c = None" "\<lambda>c. cn_active c = Some ConsumerRunning"
  by unfold_locales (auto simp: Consumer_Start_def Consumer_Stop_def split: option.splits)

interpretation reference: lifecycleConsumer ReferenceWorker_Start ReferenceWorker_Stop "\<lambda>w. rw_active w = None" "\<lambda>w. rw_active w = Some Running"
  by unfold_locales (auto simp: ReferenceWorker_Start_def ReferenceWorker_Stop_def split: option.splits)

interpretation outbox: lifecycleConsumer OutboxWorker_Start OutboxWorker_Stop "\<lambda>w. ob_active w = None" "\<lambda>w. ob_active w = Some OutboxRunning"
  by unfold_locales (auto simp: OutboxWorker_Start_def OutboxWorker_Stop_def split: option.splits)

section \<open>Construction\<close>

definition newSQSConsumer :: "Config \<Rightarrow> Consumer" where
  "newSQSConsumer cfg = NewConsumer
     \<lparr>cc_ConsumerName = ''wager-transaction-consumer'', cc_VisibilityTimeout = cf_SQSVisibilityTimeout cfg,
      cc_WaitTime = cf_SQSWaitTime cfg, cc_MaxMessages = cf_SQSMaxMessages cfg,
      cc_RetryVisibilityBackoff = cf_SQSRetryVisibilityBackoff cfg, cc_MaxReceiveCount = cf_SQSMaxReceiveCount cfg\<rparr>"

definition newReferenceWorker :: "Config \<Rightarrow> ReferenceWorker" where
  "newReferenceWorker cfg = NewReferenceWorker
     \<lparr>rw_PollInterval = cf_ReferencePollInterval cfg, rw_MaxAttempts = cf_ReferenceMaxAttempts cfg, rw_Backoff = cf_ReferenceBackoff cfg\<rparr>"

definition newOutboxWorker :: "Config \<Rightarrow> OutboxWorker option" where
  "newOutboxWorker cfg =
     (if \<not> cf_OutboxEnabled cfg then None
      else Some (NewWorker
        \<lparr>ob_PollInterval = cf_OutboxPollInterval cfg, ob_BatchSize = cf_OutboxBatchSize cfg, ob_MaxAttempts = cf_OutboxMaxAttempts cfg,
         ob_Backoff = cf_OutboxBackoff cfg, ob_ClaimLease = cf_OutboxClaimLease cfg\<rparr>))"

text \<open>The SQS client, unless the AWS library fails to load its configuration.\<close>

definition newSQSClient :: "string option \<Rightarrow> Config \<Rightarrow> string + Client" where
  "newSQSClient loadErr cfg =
     (case loadErr of
        Some e \<Rightarrow> Inl (''load AWS configuration: '' @ e)
      | None \<Rightarrow> Inr \<lparr>cl_queueName = cf_SQSWagerQueue cfg, cl_eventQueueName = cf_SQSEventQueue cfg, cl_queueURL = [], cl_eventQueueURL = []\<rparr>)"

text \<open>The connection pool: creating it may fail, and a pool that does not answer its first ping is closed.\<close>

datatype pool_state = PoolMissing | PoolOpen | PoolClosed

definition NewRepository :: "error option \<Rightarrow> error option \<Rightarrow> error option \<times> pool_state" where
  "NewRepository poolErr pingErr =
     (case poolErr of
        Some e \<Rightarrow> (Some e, PoolMissing)
      | None \<Rightarrow> (case pingErr of Some e \<Rightarrow> (Some e, PoolClosed) | None \<Rightarrow> (None, PoolOpen)))"

text \<open>The readiness checks of the process: the ping of the pool and the check of the SQS client.\<close>

definition PostgresChecker_Name :: string where
  "PostgresChecker_Name = ''postgres''"

definition PostgresChecker_Check :: "error option \<Rightarrow> error option" where
  "PostgresChecker_Check ping = ping"

definition newHealthRegistry ::
  "error option \<Rightarrow> url_answer \<Rightarrow> string option \<Rightarrow> Client \<Rightarrow> (string \<times> error option) list \<times> Client" where
  "newHealthRegistry ping answer attributesErr c =
     (let (err, c1) = Client_Check answer attributesErr c
      in ([(PostgresChecker_Name, PostgresChecker_Check ping), (Client_Name, map_option ErrExternal err)], c1))"

section \<open>The HTTP server\<close>

text \<open>The bound address, whether connections are accepted, whether the base context of the requests is
  cancelled and whether the open connections were closed. The answers of the network are arguments.\<close>

record Server =
  sv_Addr :: string
  sv_listener :: "string option"
  sv_accepting :: bool
  sv_cancelled :: bool
  sv_closed :: bool

definition NewServer :: "string \<Rightarrow> Server" where
  "NewServer addr = \<lparr>sv_Addr = addr, sv_listener = None, sv_accepting = False, sv_cancelled = False, sv_closed = False\<rparr>"

definition Server_Listen :: "error + string \<Rightarrow> Server \<Rightarrow> error option \<times> Server" where
  "Server_Listen answer s = (case answer of Inl e \<Rightarrow> (Some e, s) | Inr bound \<Rightarrow> (None, s\<lparr>sv_listener := Some bound\<rparr>))"

definition Server_Addr :: "Server \<Rightarrow> string" where
  "Server_Addr s = (case sv_listener s of None \<Rightarrow> [] | Some bound \<Rightarrow> bound)"

definition Server_Serve :: "Server \<Rightarrow> Server" where
  "Server_Serve s = (if sv_listener s = None then s else s\<lparr>sv_accepting := True\<rparr>)"

definition Server_Shutdown :: "error option \<Rightarrow> Server \<Rightarrow> error option \<times> Server" where
  "Server_Shutdown drainErr s = (drainErr, s\<lparr>sv_accepting := False\<rparr>)"

definition Server_Close :: "Server \<Rightarrow> Server" where
  "Server_Close s = s\<lparr>sv_cancelled := True, sv_accepting := False, sv_closed := True\<rparr>"

definition newHTTPServer :: "Config \<Rightarrow> Server" where
  "newHTTPServer cfg = NewServer (cf_HTTPAddr cfg)"

section \<open>The lifecycle\<close>

record process =
  ps_pool :: bool
  ps_server :: Server
  ps_consumer :: Consumer
  ps_reference :: ReferenceWorker
  ps_outbox :: "OutboxWorker option"

text \<open>What the hooks meet: the startup context, the socket, the drain, the ends of the runs.\<close>

record lifecycle_env =
  le_startup :: "error option"
  le_listen :: "error + string"
  le_drain :: "error option"
  le_finished :: "bool \<times> bool \<times> bool"
  le_stopErr :: error

record hook =
  OnStart :: "lifecycle_env \<Rightarrow> process \<Rightarrow> error option \<times> process"
  OnStop :: "lifecycle_env \<Rightarrow> process \<Rightarrow> error option \<times> process"

definition database_hook :: hook where
  "database_hook = \<lparr>OnStart = (\<lambda>env p. (None, p)), OnStop = (\<lambda>env p. (None, p\<lparr>ps_pool := False\<rparr>))\<rparr>"

definition server_hook :: hook where
  "server_hook =
     \<lparr>OnStart = (\<lambda>env p. case Server_Listen (le_listen env) (ps_server p) of
          (Some err, _) \<Rightarrow> (Some err, p)
        | (None, s) \<Rightarrow> (None, p\<lparr>ps_server := Server_Serve s\<rparr>)),
      OnStop = (\<lambda>env p. case Server_Shutdown (le_drain env) (ps_server p) of
          (Some err, s) \<Rightarrow> (None, p\<lparr>ps_server := Server_Close s\<rparr>)
        | (None, s) \<Rightarrow> (None, p\<lparr>ps_server := s\<rparr>))\<rparr>"

definition consumer_hook :: hook where
  "consumer_hook =
     \<lparr>OnStart = (\<lambda>env p. let (err, c) = Consumer_Start (le_startup env) (ps_consumer p) in (err, p\<lparr>ps_consumer := c\<rparr>)),
      OnStop = (\<lambda>env p. let (err, c) = Consumer_Stop (fst (le_finished env)) (le_stopErr env) (ps_consumer p) in (err, p\<lparr>ps_consumer := c\<rparr>))\<rparr>"

definition reference_hook :: hook where
  "reference_hook =
     \<lparr>OnStart = (\<lambda>env p. let (err, w) = ReferenceWorker_Start (le_startup env) (ps_reference p) in (err, p\<lparr>ps_reference := w\<rparr>)),
      OnStop = (\<lambda>env p. let (err, w) = ReferenceWorker_Stop (fst (snd (le_finished env))) (le_stopErr env) (ps_reference p)
        in (err, p\<lparr>ps_reference := w\<rparr>))\<rparr>"

definition outbox_hook :: hook where
  "outbox_hook =
     \<lparr>OnStart = (\<lambda>env p. case ps_outbox p of None \<Rightarrow> (None, p)
        | Some v \<Rightarrow> let (err, w) = OutboxWorker_Start (le_startup env) v in (err, p\<lparr>ps_outbox := Some w\<rparr>)),
      OnStop = (\<lambda>env p. case ps_outbox p of None \<Rightarrow> (None, p)
        | Some v \<Rightarrow> let (err, w) = OutboxWorker_Stop (snd (snd (le_finished env))) (le_stopErr env) v in (err, p\<lparr>ps_outbox := Some w\<rparr>))\<rparr>"

definition appendLifecycleHooks :: "hook list \<Rightarrow> hook list" where
  "appendLifecycleHooks consumers = [database_hook, server_hook] @ consumers"

definition registerLifecycle :: "process \<Rightarrow> hook list" where
  "registerLifecycle p =
     appendLifecycleHooks ([consumer_hook, reference_hook] @ (case ps_outbox p of None \<Rightarrow> [] | Some _ \<Rightarrow> [outbox_hook]))"

text \<open>The process as the container builds it.\<close>

definition build_process :: "Config \<Rightarrow> process" where
  "build_process cfg = \<lparr>ps_pool = True, ps_server = newHTTPServer cfg, ps_consumer = newSQSConsumer cfg,
     ps_reference = newReferenceWorker cfg, ps_outbox = newOutboxWorker cfg\<rparr>"

section \<open>Lemmas\<close>

text \<open>The documented stop sequence of Fx while its context lasts: the hook registered last stops first, and when
  it succeeds the others follow in the same way.\<close>

definition stops_in_reverse :: "(lifecycle_env \<Rightarrow> hook list \<Rightarrow> process \<Rightarrow> process) \<Rightarrow> bool" where
  "stops_in_reverse fx_Stop \<longleftrightarrow> (\<forall>env p. fx_Stop env [] p = p) \<and>
     (\<forall>env hs h p p'. OnStop h env p = (None, p') \<longrightarrow> fx_Stop env (hs @ [h]) p = fx_Stop env hs p')"

lemma stop_last:
  assumes "stops_in_reverse fx_Stop" "fst (OnStop (last (h # hs)) env p) = None"
  shows "fx_Stop env (h # hs) p = fx_Stop env (butlast (h # hs)) (snd (OnStop (last (h # hs)) env p))"
proof -
  have "OnStop (last (h # hs)) env p = (None, snd (OnStop (last (h # hs)) env p))" using assms(2) by (simp add: prod_eq_iff)
  then show ?thesis using assms(1) append_butlast_last_id [of "h # hs"] unfolding stops_in_reverse_def by (metis list.distinct(1))
qed

lemma hook_stops:
  "snd (OnStop database_hook env p) = p\<lparr>ps_pool := False\<rparr>"
  "snd (OnStop consumer_hook env p) = p\<lparr>ps_consumer := snd (Consumer_Stop (fst (le_finished env)) (le_stopErr env) (ps_consumer p))\<rparr>"
  "snd (OnStop reference_hook env p) = p\<lparr>ps_reference := snd (ReferenceWorker_Stop (fst (snd (le_finished env))) (le_stopErr env) (ps_reference p))\<rparr>"
  "snd (OnStop outbox_hook env p) = p\<lparr>ps_outbox :=
     map_option (\<lambda>w. snd (OutboxWorker_Stop (snd (snd (le_finished env))) (le_stopErr env) w)) (ps_outbox p)\<rparr>"
  "snd (OnStop server_hook env p) = p\<lparr>ps_server := (let s = snd (Server_Shutdown (le_drain env) (ps_server p))
     in if le_drain env = None then s else Server_Close s)\<rparr>"
  by (simp_all add: database_hook_def consumer_hook_def reference_hook_def outbox_hook_def server_hook_def Server_Shutdown_def
      split_beta split: option.splits)

lemma hook_errors:
  "fst (OnStop database_hook env p) = None" "fst (OnStop server_hook env p) = None"
  "le_finished env = (True, True, True) \<Longrightarrow> fst (OnStop consumer_hook env p) = None"
  "le_finished env = (True, True, True) \<Longrightarrow> fst (OnStop reference_hook env p) = None"
  "le_finished env = (True, True, True) \<Longrightarrow> fst (OnStop outbox_hook env p) = None"
  by (simp_all add: database_hook_def consumer_hook_def reference_hook_def outbox_hook_def server_hook_def split_beta
      consumer.stop_error reference.stop_error outbox.stop_error split: option.splits)

text \<open>The process is ready exactly when the pool answers and the queue of the transactions is found.\<close>

lemma readiness_up:
  "rs_Status (readiness (env\<lparr>he_Checks := fst (newHealthRegistry ping answer attributesErr c)\<rparr>)) = 200 \<longleftrightarrow>
     ping = None \<and> attributesErr = None \<and> (cl_queueURL c \<noteq> [] \<or> (\<exists>url. url \<noteq> [] \<and> answer = Inr (Some url)))"
  by (auto simp: readiness_def newHealthRegistry_def PostgresChecker_Check_def Client_Check_def Client_QueueURL_def resolve_url_def
      writeJSON_def Let_def split: option.splits sum.splits)

section \<open>Properties\<close>

text \<open>C33: A configuration that loads is within its documented bounds and reaches the components as it is: none of
  the corrections of the constructors of the consumer, the reference worker and the outbox worker changes a
  value, the outbox worker exists exactly when it is enabled, the configuration's values in whole
  seconds are exactly its durations, and the log level is one of the four.\<close>

theorem loaded_configuration_effective:
  assumes "Load frac urlPath env = Inr cfg"
  shows "in_bounds cfg \<and> SQSVisibilityTimeoutSeconds cfg * time_Second = cf_SQSVisibilityTimeout cfg
    \<and> SQSWaitTimeSeconds cfg * time_Second = cf_SQSWaitTime cfg
    \<and> LogLevelValue cfg = the (map_of [(''debug'', - 4), (''info'', 0), (''warn'', 4), (''error'', 8)] (cf_LogLevel cfg))
    \<and> cn_config (newSQSConsumer cfg) = \<lparr>cc_ConsumerName = ''wager-transaction-consumer'', cc_VisibilityTimeout = cf_SQSVisibilityTimeout cfg,
        cc_WaitTime = cf_SQSWaitTime cfg, cc_MaxMessages = cf_SQSMaxMessages cfg,
        cc_RetryVisibilityBackoff = cf_SQSRetryVisibilityBackoff cfg, cc_MaxReceiveCount = cf_SQSMaxReceiveCount cfg\<rparr>
    \<and> rw_config (newReferenceWorker cfg) = \<lparr>rw_PollInterval = cf_ReferencePollInterval cfg, rw_MaxAttempts = cf_ReferenceMaxAttempts cfg,
        rw_Backoff = cf_ReferenceBackoff cfg\<rparr>
    \<and> map_option ob_config (newOutboxWorker cfg) = (if cf_OutboxEnabled cfg then Some \<lparr>ob_PollInterval = cf_OutboxPollInterval cfg,
        ob_BatchSize = cf_OutboxBatchSize cfg, ob_MaxAttempts = cf_OutboxMaxAttempts cfg, ob_Backoff = cf_OutboxBackoff cfg,
        ob_ClaimLease = cf_OutboxClaimLease cfg\<rparr> else None)"
proof -
  have b: "in_bounds cfg" by (rule parse_settings_in_bounds [OF Load_Inr(1) [OF assms] default_in_bounds])
  have "0 < cf_SQSVisibilityTimeout cfg" "0 \<le> cf_SQSWaitTime cfg" "cf_SQSWaitTime cfg \<le> 20 * 1000000000" "0 \<le> cf_SQSRetryVisibilityBackoff cfg"
    using b by (auto simp: in_bounds_def time_Second_def)
  with b have "cn_config (newSQSConsumer cfg) = \<lparr>cc_ConsumerName = ''wager-transaction-consumer'', cc_VisibilityTimeout = cf_SQSVisibilityTimeout cfg,
        cc_WaitTime = cf_SQSWaitTime cfg, cc_MaxMessages = cf_SQSMaxMessages cfg,
        cc_RetryVisibilityBackoff = cf_SQSRetryVisibilityBackoff cfg, cc_MaxReceiveCount = cf_SQSMaxReceiveCount cfg\<rparr>"
    by (simp add: newSQSConsumer_def NewConsumer_def in_bounds_def Let_def)
  moreover have "LogLevelValue cfg = the (map_of [(''debug'', - 4), (''info'', 0), (''warn'', 4), (''error'', 8)] (cf_LogLevel cfg))"
    using Load_Inr(4) [OF assms] by (auto simp: LogLevelValue_def)
  ultimately show ?thesis using b seconds_exact [OF b]
    by (simp add: newReferenceWorker_def NewReferenceWorker_def newOutboxWorker_def NewWorker_def in_bounds_def Let_def)
qed

theorem loaded_configuration_effective_witness:
  "Load (\<lambda>f u s. f * u div s) demo_path demo_environment = Inr demo_cfg \<and> in_bounds demo_cfg
     \<and> cc_WaitTime (cn_config (newSQSConsumer demo_cfg)) = SQSWaitTimeSeconds demo_cfg * time_Second"
  using loaded_configuration_effective [OF demo_cfg_loads] demo_cfg_loads by simp

text \<open>The order of a shutdown in which the background components end in time: the pool stays open until the
  last hook closes it, and at that moment every background component has stopped and may be started
  again, no connection is accepted, and if the drain budget was exhausted the remaining requests have been
  cancelled and their connections closed.\<close>

theorem shutdown_order:
  assumes "stops_in_reverse fx_Stop" "le_finished env = (True, True, True)" "ps_pool p"
  shows "let p1 = fx_Stop env (tl (registerLifecycle p)) p
    in fx_Stop env (registerLifecycle p) p = p1\<lparr>ps_pool := False\<rparr> \<and> ps_pool p1
      \<and> cn_active (ps_consumer p1) = None \<and> rw_active (ps_reference p1) = None
      \<and> (ps_outbox p1 = None \<longleftrightarrow> ps_outbox p = None) \<and> (\<forall>w. ps_outbox p1 = Some w \<longrightarrow> ob_active w = None)
      \<and> \<not> sv_accepting (ps_server p1) \<and> (le_drain env \<noteq> None \<longrightarrow> sv_cancelled (ps_server p1) \<and> sv_closed (ps_server p1))"
proof -
  have "fx_Stop env [] q = q" for q using assms(1) by (simp add: stops_in_reverse_def)
  then show ?thesis
    using assms(2,3) consumer.stop_idles reference.stop_idles outbox.stop_idles
    by (cases "ps_outbox p")
      (auto simp: registerLifecycle_def appendLifecycleHooks_def stop_last [OF assms(1)] hook_stops hook_errors Let_def
        Server_Shutdown_def Server_Close_def)
qed

theorem shutdown_order_witness:
  "let env = \<lparr>le_startup = None, le_listen = Inr '':8080'', le_drain = Some ErrDeadlineExceeded, le_finished = (True, True, True),
       le_stopErr = ErrDeadlineExceeded\<rparr>;
     p = (build_process demo_cfg)\<lparr>ps_consumer := snd (Consumer_Start None (newSQSConsumer demo_cfg))\<rparr>;
     p1 = foldr (\<lambda>h q. snd (OnStop h env q)) (tl (registerLifecycle p)) p
   in cn_active (ps_consumer p1) = None \<and> sv_cancelled (ps_server p1) \<and> ps_pool p1"
proof -
  have "stops_in_reverse (\<lambda>env hs p. foldr (\<lambda>h q. snd (OnStop h env q)) hs p)" by (simp add: stops_in_reverse_def)
  from shutdown_order [OF this] show ?thesis by (simp add: build_process_def Let_def)
qed

end
