(* ===== verification/Accounts.thy ===== *)
theory Accounts
  imports Command_Processing
begin

text \<open>
  The contract of the service in the terms of its users: accounts that hold an amount between zero and the
  largest \<^verbatim>\<open>int64\<close>, and a journal in which a transaction is posted to one account at most once.
  Every run of the service is a run of this specification under the abstraction that forgets all columns but
  the balances and the movements.
\<close>

section \<open>Specification\<close>

record accounts =
  balance_of :: "uuid \<rightharpoonup> int"
  posted :: "uuid \<rightharpoonup> uuid \<times> int"

inductive account_step :: "accounts \<Rightarrow> accounts \<Rightarrow> bool" where
  account_open: "balance_of a i = None \<Longrightarrow> account_step a (a\<lparr>balance_of := (balance_of a)(i \<mapsto> 0)\<rparr>)"
| account_post: "balance_of a i = Some b \<Longrightarrow> posted a t = None \<Longrightarrow> v \<noteq> 0 \<Longrightarrow> 0 \<le> b + v \<Longrightarrow> b + v \<le> max_int64 \<Longrightarrow>
    account_step a (a\<lparr>balance_of := (balance_of a)(i \<mapsto> b + v), posted := (posted a)(t \<mapsto> (i, v))\<rparr>)"

definition accounts_of :: "db \<Rightarrow> accounts" where
  "accounts_of d = \<lparr>balance_of = map_of (map (\<lambda>w. (W_ID w, W_Balance w)) (db_wallets d)),
     posted = map_of (map (\<lambda>e. (L_TransactionID e, (L_WalletID e, signed_entry e))) (db_ledger d))\<rparr>"

section \<open>Simulation\<close>

lemma map_of_snoc: "k \<notin> fst ` set xs \<Longrightarrow> map_of (xs @ [(k, v)]) = (map_of xs)(k \<mapsto> v)"
  by (induction xs) (auto simp: fun_eq_iff)

lemma map_of_replace: "distinct (map fst (us @ (k, b) # vs)) \<Longrightarrow> map_of (us @ (k, b') # vs) = (map_of (us @ (k, b) # vs))(k \<mapsto> b')"
  by (induction us) (auto simp: fun_eq_iff)

text \<open>A transaction that is about to move its wallet has no entry yet.\<close>

lemma unposted:
  assumes "bank_inv E d" "tx_write t d ts"
  shows "T_ID t \<notin> L_TransactionID ` set (db_ledger d)"
proof
  assume "T_ID t \<in> L_TransactionID ` set (db_ledger d)"
  then obtain e where e: "e \<in> set (db_ledger d)" "L_TransactionID e = T_ID t" by auto
  from assms(2) show False
  proof (rule tx_writeE)
    assume "fresh_tx t d"
    then show False using assms(1) e by (auto simp: bank_inv_def entries_ok_def fresh_tx_def)
  next
    fix xs old ys assume old: "db_wagers d = xs @ old # ys" "T_State old = PendingReference" "same_identity old t"
    then have "entries_for (T_ID old) d = []" using assms(1) by (auto simp: bank_inv_def moves_ok_def moves_def)
    then show False using e old(3) by (auto simp: entries_for_def filter_empty_conv same_identity_def)
  qed
qed

lemma bank_step_account:
  assumes "bank_inv E d" "bank_step E d d'"
  shows "account_step\<^sup>*\<^sup>* (accounts_of d) (accounts_of d')"
  using assms(2)
proof cases
  case (bank_open w)
  then have "accounts_of d' = (accounts_of d)\<lparr>balance_of := (balance_of (accounts_of d))(W_ID w \<mapsto> 0)\<rparr>"
    by (simp add: accounts_of_def map_of_snoc image_image del: map_of_append)
  moreover have "balance_of (accounts_of d) (W_ID w) = None" using bank_open by (simp add: accounts_of_def map_of_eq_None_iff image_image)
  ultimately show ?thesis by (metis account_open r_into_rtranclp)
next
  case (bank_move t us w vs w' e)
  let ?f = "\<lambda>w. (W_ID w, W_Balance w)"
  have e: "L_WalletID e = W_ID w" "L_TransactionID e = T_ID t" "L_Value e = T_Amount t" "0 < T_Amount t"
    using bank_move by (simp_all add: movement_def entry_of_def moves_def)
  have w': "W_ID w' = W_ID w" "W_Balance w' = W_Balance w + signed_entry e" "0 \<le> W_Balance w'" "W_Balance w' \<le> max_int64"
    using bank_move by (simp_all add: movement_def wallet_row_ok_def)
  have dist: "distinct (map fst (map ?f us @ (W_ID w, W_Balance w) # map ?f vs))"
    using bank_invD(2) [OF assms(1)] bank_move by (simp add: comp_def)
  have bal: "balance_of (accounts_of d') = (balance_of (accounts_of d))(W_ID w \<mapsto> W_Balance w + signed_entry e)"
    using map_of_replace [OF dist, of "W_Balance w'"] bank_move w' by (simp add: accounts_of_def del: map_of_append)
  have un: "T_ID t \<notin> L_TransactionID ` set (db_ledger d)" by (rule unposted [OF assms(1) bank_move(1)])
  then have post: "posted (accounts_of d') = (posted (accounts_of d))(T_ID t \<mapsto> (W_ID w, signed_entry e))"
    using bank_move e by (simp add: accounts_of_def map_of_snoc image_image del: map_of_append)
  have "balance_of (accounts_of d) (W_ID w) = Some (W_Balance w)"
    using dist bank_move by (auto simp: accounts_of_def map_of_eq_Some_iff map_add_Some_iff)
  moreover have "posted (accounts_of d) (T_ID t) = None" using un by (simp add: accounts_of_def map_of_eq_None_iff image_image)
  moreover have "signed_entry e \<noteq> 0"
  proof -
    have "L_Direction e = Credit \<or> L_Direction e = Debit"
      using bank_move(7) movement_direction_cases unfolding entry_of_def by metis
    with e show ?thesis by auto
  qed
  ultimately have "account_step (accounts_of d) ((accounts_of d)\<lparr>balance_of := (balance_of (accounts_of d))(W_ID w \<mapsto> W_Balance w + signed_entry e),
      posted := (posted (accounts_of d))(T_ID t \<mapsto> (W_ID w, signed_entry e))\<rparr>)"
    using w' by (intro account_post) simp_all
  moreover have "accounts_of d' = (accounts_of d)\<lparr>balance_of := balance_of (accounts_of d'), posted := posted (accounts_of d')\<rparr>"
    by (simp add: accounts_of_def)
  ultimately show ?thesis using bal post by (metis r_into_rtranclp)
qed (simp_all add: accounts_of_def)

lemma bank_steps_account:
  assumes "(bank_step E)\<^sup>*\<^sup>* d d'" "bank_inv E d" "externals_ok E"
  shows "account_step\<^sup>*\<^sup>* (accounts_of d) (accounts_of d')"
  using assms
proof (induction rule: rtranclp_induct)
  case (step y z)
  have "bank_inv E y" by (rule bank_inv_steps [OF step(1,5,4)])
  from bank_step_account [OF this step(2)] step(3-5) show ?case by (meson rtranclp_trans)
qed simp

section \<open>Property\<close>

text \<open>C3: Every run of the service refines the account specification: whatever calls, messages, worker iterations
  and failures it consists of, its effect on the balances and on the movements is a sequence of openings of
  accounts at zero and of postings, each of a transaction that was never posted before, by an amount that is
  not zero and that leaves the balance of its one account between zero and the largest \<open>int64\<close>.\<close>

theorem service_refines_accounts:
  assumes "service_reachable E s" "(service_step E)\<^sup>*\<^sup>* s s'"
  shows "account_step\<^sup>*\<^sup>* (accounts_of (svc_db s)) (accounts_of (svc_db s'))"
  using bank_steps_account [OF service_steps_bank [OF assms(2)]] service.reachable_inv [OF assms(1)] by (simp add: service_inv_def)

theorem service_refines_accounts_witness:
  "account_step\<^sup>*\<^sup>* (accounts_of empty_db) (accounts_of (svc_db demo_refund)) \<and> balance_of (accounts_of (svc_db demo_refund)) 7 = Some 100"
proof -
  obtain s0 where s0: "service_init example_externals s0" "(service_step example_externals)\<^sup>*\<^sup>* s0 demo_refund"
    using demo_reachable(3) by (induction rule: reachable.induct) (auto intro: rtranclp.rtrancl_into_rtrancl)
  then have "service_reachable example_externals s0" by (intro reachable.intros)
  from service_refines_accounts [OF this s0(2)] s0(1) show ?thesis
    by (simp add: service_init_def accounts_of_def demo_refund_wallets)
qed

end
