(* ===== verification/Exposition.thy ===== *)
theory Exposition
  imports Metrics "HOL-Library.List_Lexorder" "HOL-Library.Char_ord" "HOL-Library.Multiset"
begin

text \<open>
  The Prometheus text of \<^verbatim>\<open>Metrics.Render\<close> in \<^verbatim>\<open>internal/observability/metrics.go\<close>.
  The formatting of nanoseconds as a floating point number of seconds with nine decimals is the argument
  \<open>seconds\<close>. A label is printed between quotes: the labels the program uses need no escape.
\<close>

section \<open>Model\<close>

definition sortedKeys :: "counters \<Rightarrow> string list" where
  "sortedKeys cs = sort (map fst cs)"

definition text_line :: "string \<Rightarrow> string" where
  "text_line s = s @ [CHR 0x0A]"

definition labelled_lines :: "string \<Rightarrow> string \<Rightarrow> counters \<Rightarrow> string" where
  "labelled_lines name label cs = concat (map (\<lambda>k. text_line
     (name @ [CHR 0x7B] @ label @ [CHR 0x3D, CHR 0x22] @ k @ [CHR 0x22, CHR 0x7D, CHR 0x20] @ fmt_d (counter_get k cs))) (sortedKeys cs))"

definition type_line :: "string \<Rightarrow> string \<Rightarrow> string" where
  "type_line name kind = text_line (''# TYPE '' @ name @ '' '' @ kind)"

definition counter_lines :: "string \<Rightarrow> int \<Rightarrow> string" where
  "counter_lines name v = type_line name ''counter'' @ text_line (name @ '' '' @ fmt_d v)"

definition Render :: "(int \<Rightarrow> string) \<Rightarrow> Metrics option \<Rightarrow> string" where
  "Render seconds mo = (case mo of None \<Rightarrow> [] | Some m \<Rightarrow>
       type_line ''wager_processing_total'' ''counter'' @ labelled_lines ''wager_processing_total'' ''status'' (m_status m)
     @ type_line ''wager_duplicate_total'' ''counter'' @ labelled_lines ''wager_duplicate_total'' ''kind'' (m_duplicates m)
     @ type_line ''wager_retry_total'' ''counter'' @ labelled_lines ''wager_retry_total'' ''component'' (m_retries m)
     @ text_line ''# HELP wager_sqs_redrive_candidate_total Messages that exhausted the application receive budget and became candidates for broker redrive.''
     @ counter_lines ''wager_sqs_redrive_candidate_total'' (m_redrive m)
     @ counter_lines ''wager_idempotency_conflict_total'' (m_idempotency m)
     @ counter_lines ''wager_concurrency_conflict_total'' (m_conflicts m)
     @ type_line ''wager_processing_latency_seconds'' ''summary''
     @ text_line (''wager_processing_latency_seconds_count '' @ fmt_d (m_latencyN m))
     @ text_line (''wager_processing_latency_seconds_sum '' @ seconds (m_latencyNS m))
     @ type_line ''wager_outbox_lag_seconds'' ''gauge''
     @ text_line (''wager_outbox_lag_seconds '' @ seconds (m_outboxLagNS m))
     @ counter_lines ''wager_reconciliation_divergence_total'' (m_divergence m))"

section \<open>Lemmas\<close>

text \<open>The counters as Go maps: no key twice, an invariant of the observations.\<close>

definition is_map :: "counters \<Rightarrow> bool" where
  "is_map cs \<longleftrightarrow> distinct (map fst cs)"

lemma counter_inc_is_map: "is_map cs \<Longrightarrow> is_map (counter_inc k cs)"
proof (induction k cs rule: counter_inc.induct)
  case (2 k k' v cs)
  then show ?case using counter_inc_labels [of k cs] by (auto simp: is_map_def image_iff)
qed (simp add: is_map_def)

lemma labelled_lines_stable:
  assumes "is_map cs" "mset cs = mset cs'"
  shows "labelled_lines name label cs = labelled_lines name label cs'"
proof -
  have d': "is_map cs'" using assms by (metis is_map_def mset_map mset_eq_imp_distinct_iff)
  have "sortedKeys cs = sortedKeys cs'"
    unfolding sortedKeys_def by (rule properties_for_sort) (use assms(2) in \<open>simp_all add: mset_map\<close>)
  moreover have "map_of cs = map_of cs'"
  proof
    fix k
    have "map_of cs k = Some v \<longleftrightarrow> map_of cs' k = Some v" for v
      using assms(1) d' mset_eq_setD [OF assms(2)] by (simp add: is_map_def map_of_eq_Some_iff)
    then show "map_of cs k = map_of cs' k" by (metis option.exhaust)
  qed
  ultimately show ?thesis by (simp add: labelled_lines_def counter_get_def)
qed

text \<open>The exposition is stable: it does not depend on the order in which the maps are iterated.\<close>

theorem render_stable:
  assumes "is_map (m_status m)" "is_map (m_duplicates m)" "is_map (m_retries m)"
    "mset st = mset (m_status m)" "mset du = mset (m_duplicates m)" "mset re = mset (m_retries m)"
  shows "Render seconds (Some (m\<lparr>m_status := st, m_duplicates := du, m_retries := re\<rparr>)) = Render seconds (Some m)"
proof -
  note stable = labelled_lines_stable [OF assms(1) assms(4) [symmetric]] labelled_lines_stable [OF assms(2) assms(5) [symmetric]]
    labelled_lines_stable [OF assms(3) assms(6) [symmetric]]
  show ?thesis by (simp add: Render_def stable)
qed

end
