(* ===== verification/Spec2Isabelle.thy ===== *)
theory Spec2Isabelle
  imports Ledger_Properties Pending_References Outbox_Properties Message_Properties Http_Properties Composition Accounts Exposition
begin

text \<open>
  \<^bold>\<open>Verification of the wager processing service.\<close>

  \<^bold>\<open>The program.\<close> The service (module \<^verbatim>\<open>distributedBettingProcessing\<close>, Go) keeps the
  wallets of players. Game providers send transactions (bet, win, loss, refund, rollback), by HTTP or through
  an SQS queue; each is applied to one wallet exactly once, together with a ledger entry and the events that
  announce it, in one PostgreSQL transaction. A reversal that arrives before the transaction it reverses waits
  in the state \<^verbatim>\<open>PENDING_REFERENCE\<close> and is retried by a worker. A second worker publishes the
  events of the outbox table to a queue. An HTTP interface opens wallets, reads wallets, ledgers and
  transactions, and reconciles a wallet with its ledger. All paths below are relative to
  \<^verbatim>\<open>src/\<close>.

  \<^bold>\<open>Theories of the model\<close>, each with its own lemmas:

  \<^item> \<open>Prelude\<close>: results and errors (one datatype for all the error values of the program), machine integers,
    time, JSON documents, reachable states and the locale \<open>invariant_system\<close>.
  \<^item> \<open>Utf8\<close>: texts as bytes, what \<^verbatim>\<open>encoding/json\<close> writes of them and which of them
    PostgreSQL accepts.
  \<^item> \<open>Money\<close>, \<open>Wallet\<close>, \<open>Wager\<close>, \<open>Ledger\<close>: the packages under \<^verbatim>\<open>internal/domain\<close>.
  \<^item> \<open>Postgres\<close>: the rows, the constraints of the migrations and the repositories of
    \<^verbatim>\<open>internal/infrastructure/postgres/repositories.go\<close>, and \<^verbatim>\<open>WithTx\<close> of
    \<^verbatim>\<open>repository.go\<close>. A database is a record of tables, a statement a function on it; a connection
    is an argument that says whether the transaction begins and how its commit ends (done, lost, or unknown
    to the caller). A statement with a text that PostgreSQL cannot represent fails, and so does a row whose
    index entry is too long (the rule \<open>index_fits\<close> is a parameter). \<open>Reconstruct\<close>: \<^verbatim>\<open>LedgerRepository.Reconstruct\<close>.
  \<^item> \<open>Idempotency\<close>, \<open>Financial\<close>: \<^verbatim>\<open>internal/application/financial/idempotency.go\<close> and
    \<^verbatim>\<open>service.go\<close>. \<open>Backoff\<close>, \<open>References\<close>: the pending references of \<^verbatim>\<open>service.go\<close>
    and \<^verbatim>\<open>reference_worker.go\<close>; the delay of a retry is a locale interpreted for both workers.
  \<^item> \<open>Metrics\<close>, \<open>Exposition\<close>: \<^verbatim>\<open>internal/observability/metrics.go\<close>, the counters and their text.
  \<^item> \<open>Sqs\<close>, \<open>Outbox\<close>: \<^verbatim>\<open>internal/infrastructure/sqs/client.go\<close>, the outbox statements of
    \<^verbatim>\<open>repositories.go\<close> and \<^verbatim>\<open>internal/application/outbox/worker.go\<close>.
  \<^item> \<open>Go_Library\<close>: what the adapters use of Go's standard library (trimming, number and duration parsers,
    base64, JSON into a struct).
  \<^item> \<open>Query\<close>: \<^verbatim>\<open>internal/application/query/service.go\<close> and
    \<^verbatim>\<open>internal/infrastructure/postgres/query.go\<close>.
  \<^item> \<open>Messaging\<close>: \<^verbatim>\<open>internal/transport/messaging\<close>, the decoder and the consumer.
  \<^item> \<open>Keycloak\<close>, \<open>Http\<close>: \<^verbatim>\<open>internal/infrastructure/keycloak/verifier.go\<close> and
    \<^verbatim>\<open>internal/transport/http\<close>.
  \<^item> \<open>Configuration\<close>, \<open>Composition\<close>: \<^verbatim>\<open>internal/infrastructure/config/config.go\<close>,
    \<^verbatim>\<open>internal/composition/module.go\<close>, the opening of the pool in \<^verbatim>\<open>repository.go\<close>,
    the checker of \<^verbatim>\<open>internal/infrastructure/postgres/health.go\<close> and the HTTP server of
    \<^verbatim>\<open>router.go\<close>. The interface
    \<^verbatim>\<open>lifecycleConsumer\<close> is a locale interpreted for the consumer and the two workers.

  \<^bold>\<open>Theories of the proofs.\<close>

  \<^item> \<open>Bank\<close> is an abstract specification of the database: the steps that may happen to its tables and the
    invariant they preserve. \<open>Financial_Refinement\<close> shows that every operation of the service performs only
    such steps, \<open>Service_Runs\<close> puts the operations of any number of sessions (calls, messages, iterations of
    the workers, statements of outbox workers) into one step relation and derives the invariant of its
    reachable states. It also holds the concrete run the examples use.
  \<^item> \<open>Ledger_Properties\<close>: what holds of the tables in every reachable state. \<open>Accounts\<close>: the contract of the
    service for its users, accounts and a journal, and the simulation of every run by it.
  \<^item> \<open>Command_Processing\<close>: the answers to commands, repetitions, conflicts, races and failures.
    \<open>Pending_References\<close>: the outcomes of a pending reversal. \<open>Outbox_Properties\<close>: order, exclusive claims and
    the draining of the outbox, and the delays of the retries. \<open>Message_Properties\<close>: redelivery and deletion of messages.
    \<open>Reconcile_Properties\<close>, \<open>Http_Properties\<close>: reconciliation and the endpoints over the reachable states.

  \<^bold>\<open>Conventions.\<close> Integers are mathematical, with the wrap-around of \<^verbatim>\<open>int64\<close>,
  \<^verbatim>\<open>uint64\<close> and \<^verbatim>\<open>int32\<close> written out wherever the code computes; a string is the list of its
  bytes. An operation takes the current time, the random identifiers and the duration it measures as
  arguments. A lookup that runs before the wallet row is locked may see an earlier state of the table
  (\<open>views\<close>): the properties hold for every such view; the three lookups of
  \<^verbatim>\<open>findExistingTransaction\<close> share one. Rows locked by other sessions are arguments of the
  statements that skip them. The external functions (SHA-256, the UUID and the time codecs) are the record
  \<open>externals\<close>, with what is assumed of them in \<open>externals_ok\<close>, instantiated in the examples. Loops that run
  until they are cancelled take the list of what each iteration meets; the property \<open>outbox_drains\<close> says how
  many iterations are enough. All components share one \<^verbatim>\<open>Metrics\<close> value, as
  \<^verbatim>\<open>module.go\<close> passes one pointer to all of them. An error value carries its class, not the text
  the code wraps around it, and the text of a failed publication is taken to be storable. Times are taken as already rounded to what PostgreSQL stores, and the sequence
  of the outbox has no gaps from transactions that were rolled back: only its order matters.

  \<^bold>\<open>Not modelled.\<close> Logging; contexts other than their errors; the network, the AWS client, the OIDC
  library and the connection pool, whose answers are arguments; the floating point part of
  \<^verbatim>\<open>time.ParseDuration\<close>, \<^verbatim>\<open>url.Parse\<close> and the formatting of seconds as floating point
  numbers, which are arguments too; Fx, whose documented stop order is a hypothesis of one theorem; the
  plain interface declarations, the module declaration and the entry point.
\<close>

end
